(* ===== verification/Prelude.thy ===== *)
theory Prelude
  imports Main
begin

text \<open>
  Shared ground of the development: the named collections the component proofs draw on, the
  C++ string operations the sources use (\<open>std::getline\<close>, \<open>std::search\<close>), and the
  combinators for code that keeps state and throws. Nothing here is specific to one component.
\<close>

named_theorems prog_simps \<open>unfolding of the state-and-exception combinators\<close>
named_theorems csv_text \<open>facts about strings that are safe as one CSV field\<close>

section \<open>Characters and delimiters\<close>

abbreviation LF :: char where "LF \<equiv> CHR 0x0A"
abbreviation CR :: char where "CR \<equiv> CHR 0x0D"
abbreviation COMMA :: char where "COMMA \<equiv> CHR '',''"
abbreviation UNDERSCORE :: char where "UNDERSCORE \<equiv> CHR ''_''"

section \<open>std::getline as a loop over a stream\<close>

text \<open>
  \<open>while (std::getline(stream, x, d)) \<dots>\<close> extracts up to the next delimiter (which is consumed)
  and fails exactly when nothing is left to extract. So a trailing delimiter adds no empty
  piece, an empty stream gives none, and two delimiters in a row give an empty piece.
\<close>

definition getline_head :: "'a \<Rightarrow> 'a list \<Rightarrow> 'a list" where
  "getline_head d s = takeWhile (\<lambda>c. c \<noteq> d) s"

definition getline_rest :: "'a \<Rightarrow> 'a list \<Rightarrow> 'a list" where
  "getline_rest d s = drop 1 (dropWhile (\<lambda>c. c \<noteq> d) s)"

function getlines :: "'a \<Rightarrow> 'a list \<Rightarrow> 'a list list" where
  "getlines d s = (if s = [] then [] else getline_head d s # getlines d (getline_rest d s))"
  by pat_completeness auto
termination
proof (relation "measure (\<lambda>(d, s). length s)", simp)
  fix d :: 'a and s :: "'a list"
  assume "s \<noteq> []"
  then have "0 < length s" by simp
  then have "length (drop 1 (dropWhile (\<lambda>c. c \<noteq> d) s)) < length s"
    using length_dropWhile_le [of "\<lambda>c. c \<noteq> d" s] by (simp only: length_drop)
  then show "((d, getline_rest d s), d, s) \<in> measure (\<lambda>(d, s). length s)"
    by (simp add: getline_rest_def)
qed

declare getlines.simps [simp del]

lemma getlines_Nil [simp]: "getlines d [] = []"
  by (simp add: getlines.simps)

lemma getlines_piece:
  "d \<notin> set s \<Longrightarrow> getlines d (s @ d # t) = s # getlines d t"
proof -
  assume d: "d \<notin> set s"
  then have "takeWhile (\<lambda>c. c \<noteq> d) (s @ d # t) = s"
    by (subst takeWhile_append2) auto
  moreover from d have "dropWhile (\<lambda>c. c \<noteq> d) (s @ d # t) = d # t"
    by (subst dropWhile_append2) auto
  ultimately show ?thesis
    by (subst getlines.simps) (simp add: getline_head_def getline_rest_def)
qed

lemma getlines_delim [simp]: "getlines d (d # t) = [] # getlines d t"
  using getlines_piece [of d "[]" t] by simp

lemma getlines_last: "d \<notin> set s \<Longrightarrow> s \<noteq> [] \<Longrightarrow> getlines d s = [s]"
proof -
  assume d: "d \<notin> set s" and s: "s \<noteq> []"
  have head: "getline_head d s = s"
    using d by (auto simp: getline_head_def takeWhile_eq_all_conv)
  have "dropWhile (\<lambda>c. c \<noteq> d) s = []"
    using d by (auto simp: dropWhile_eq_Nil_conv)
  then have rest: "getline_rest d s = []"
    unfolding getline_rest_def by (simp only: drop_Nil)
  show ?thesis
    using s by (subst getlines.simps) (simp add: head rest)
qed

text \<open>Terminated pieces (each line ends with the delimiter) come back exactly.\<close>

lemma getlines_terminated:
  "\<forall>x \<in> set xs. d \<notin> set x \<Longrightarrow> getlines d (concat (map (\<lambda>x. x @ [d]) xs)) = xs"
  by (induction xs) (simp_all add: getlines_piece)

lemma getlines_terminated_append:
  "\<forall>x \<in> set xs. d \<notin> set x \<Longrightarrow>
     getlines d (concat (map (\<lambda>x. x @ [d]) xs) @ t) = xs @ getlines d t"
  by (induction xs) (simp_all add: getlines_piece)

text \<open>No piece contains the delimiter.\<close>

lemma getlines_no_delim: "x \<in> set (getlines d s) \<Longrightarrow> d \<notin> set x"
proof (induction d s rule: getlines.induct)
  case (1 d s)
  then show ?case
    by (subst (asm) (2) getlines.simps)
      (auto simp: getline_head_def split: if_splits dest: set_takeWhileD)
qed

text \<open>Separated pieces, the last one not empty, come back exactly.\<close>

fun separated :: "'a \<Rightarrow> 'a list list \<Rightarrow> 'a list" where
  "separated d [] = []"
| "separated d [x] = x"
| "separated d (x # y # zs) = x @ d # separated d (y # zs)"

lemma getlines_separated:
  "\<forall>x \<in> set xs. d \<notin> set x \<Longrightarrow> xs \<noteq> [] \<Longrightarrow> last xs \<noteq> [] \<Longrightarrow>
     getlines d (separated d xs) = xs"
  by (induction d xs rule: separated.induct)
    (simp_all add: getlines_last getlines_piece)

lemma set_separated: "set (separated d xs) \<subseteq> insert d (\<Union> (set ` set xs))"
  by (induction d xs rule: separated.induct) auto

section \<open>Substring search\<close>

fun contains :: "'a list \<Rightarrow> 'a list \<Rightarrow> bool" where
  "contains pat [] = (pat = [])"
| "contains pat (c # cs) = (take (length pat) (c # cs) = pat \<or> contains pat cs)"

lemma contains_set: "contains pat s \<Longrightarrow> set pat \<subseteq> set s"
proof (induction pat s rule: contains.induct)
  case (2 pat c cs)
  then show ?case by (auto dest: in_set_takeD) (metis in_set_takeD set_ConsD)
qed simp

lemma contains_singleton [simp]: "contains [x] s \<longleftrightarrow> x \<in> set s"
  by (induction s) auto

section \<open>Programs with state and exceptions\<close>

text \<open>
  The exceptions the sources throw, by their C++ class. The text is the diagnostic literal of
  the \<open>throw\<close>, shortened: it reaches the user and nothing in the program inspects it. One place
  throws a \<open>std::string\<close>, which no \<open>catch (const std::exception &)\<close> catches. The errors of the bundled
  CSV reader are told apart by their class and name a line, -1 for none.
\<close>

datatype exn =
    Runtime_error string
  | Invalid_argument string
  | Out_of_range string
  | Thrown_string string
  | Io_error string int

fun std_exception :: "exn \<Rightarrow> bool" where
  "std_exception (Thrown_string _) = False"
| "std_exception _ = True"

text \<open>
  How a call ends: with a value, with an exception, or not at all. Some loops of the sources do
  not end on some inputs, which is the outcome \<open>Hang\<close>; and some calls have no defined behaviour
  (an iterator past the end), which is \<open>Undefined\<close>. No handler catches these two.
\<close>

datatype 'a outcome = Ok 'a | Throw exn | Hang | Undefined

type_synonym ('s, 'a) prog = "'s \<Rightarrow> 'a outcome \<times> 's"

definition ret :: "'a \<Rightarrow> ('s, 'a) prog" where
  "ret a = (\<lambda>s. (Ok a, s))"

definition raise :: "exn \<Rightarrow> ('s, 'a) prog" where
  "raise e = (\<lambda>s. (Throw e, s))"

definition hang :: "('s, 'a) prog" where
  "hang = (\<lambda>s. (Hang, s))"

definition undefinedp :: "('s, 'a) prog" where
  "undefinedp = (\<lambda>s. (Undefined, s))"

definition bindp :: "('s, 'a) prog \<Rightarrow> ('a \<Rightarrow> ('s, 'b) prog) \<Rightarrow> ('s, 'b) prog" where
  "bindp m f = (\<lambda>s. case m s of
      (Ok a, s') \<Rightarrow> f a s'
    | (Throw e, s') \<Rightarrow> (Throw e, s')
    | (Hang, s') \<Rightarrow> (Hang, s')
    | (Undefined, s') \<Rightarrow> (Undefined, s'))"

definition seqp :: "('s, 'a) prog \<Rightarrow> ('s, 'b) prog \<Rightarrow> ('s, 'b) prog" where
  "seqp m n = bindp m (\<lambda>_. n)"

definition catchp :: "('s, 'a) prog \<Rightarrow> (exn \<Rightarrow> ('s, 'a) prog) \<Rightarrow> ('s, 'a) prog" where
  "catchp m h = (\<lambda>s. case m s of
      (Ok a, s') \<Rightarrow> (Ok a, s')
    | (Throw e, s') \<Rightarrow> h e s'
    | (Hang, s') \<Rightarrow> (Hang, s')
    | (Undefined, s') \<Rightarrow> (Undefined, s'))"

definition modifyp :: "('s \<Rightarrow> 's) \<Rightarrow> ('s, unit) prog" where
  "modifyp f = (\<lambda>s. (Ok (), f s))"

definition getp :: "('s \<Rightarrow> 'a) \<Rightarrow> ('s, 'a) prog" where
  "getp f = (\<lambda>s. (Ok (f s), s))"

text \<open>A pure computation that may throw.\<close>

definition liftp :: "exn + 'a \<Rightarrow> ('s, 'a) prog" where
  "liftp r = (case r of Inl e \<Rightarrow> raise e | Inr a \<Rightarrow> ret a)"

fun each :: "('x \<Rightarrow> ('s, unit) prog) \<Rightarrow> 'x list \<Rightarrow> ('s, unit) prog" where
  "each f [] = ret ()"
| "each f (x # xs) = seqp (f x) (each f xs)"

fun collect :: "('x \<Rightarrow> ('s, 'y) prog) \<Rightarrow> 'x list \<Rightarrow> ('s, 'y list) prog" where
  "collect f [] = ret []"
| "collect f (x # xs) = bindp (f x) (\<lambda>y. bindp (collect f xs) (\<lambda>ys. ret (y # ys)))"

text \<open>
  \<open>for\<close> over the elements of a container, with the variables the body changes: the body answers
  \<open>Inl\<close> to go on with the next element and \<open>Inr\<close> for \<open>break\<close> or \<open>return\<close>.
\<close>

fun for_each :: "('x \<Rightarrow> 'a \<Rightarrow> ('s, 'a + 'r) prog) \<Rightarrow> 'x list \<Rightarrow> 'a \<Rightarrow> ('s, 'a + 'r) prog" where
  "for_each f [] a = ret (Inl a)"
| "for_each f (x # xs) a = bindp (f x a) (\<lambda>r. case r of Inl a' \<Rightarrow> for_each f xs a' | Inr b \<Rightarrow> ret (Inr b))"

text \<open>
  \<open>while\<close> around a step that may throw: the step answers \<open>Inl\<close> to go on and \<open>Inr\<close> to leave. A loop
  that is never left has no value in the option monad, which is the outcome \<open>Hang\<close>.
\<close>

partial_function (option) loop_opt :: "('x \<Rightarrow> ('s, 'x + 'a) prog) \<Rightarrow> 'x \<Rightarrow> 's \<Rightarrow> ('a outcome \<times> 's) option" where
  "loop_opt step x s =
     (case step x s of
        (Ok (Inl y), s') \<Rightarrow> loop_opt step y s'
      | (Ok (Inr a), s') \<Rightarrow> Some (Ok a, s')
      | (Throw e, s') \<Rightarrow> Some (Throw e, s')
      | (Hang, s') \<Rightarrow> Some (Hang, s')
      | (Undefined, s') \<Rightarrow> Some (Undefined, s'))"

definition loopp :: "('x \<Rightarrow> ('s, 'x + 'a) prog) \<Rightarrow> 'x \<Rightarrow> ('s, 'a) prog" where
  "loopp step x = (\<lambda>s. case loop_opt step x s of Some r \<Rightarrow> r | None \<Rightarrow> (Hang, s))"

lemma ret_run [simp]: "ret a s = (Ok a, s)"
  by (simp add: ret_def)

lemma raise_run [simp]: "raise e s = (Throw e, s)"
  by (simp add: raise_def)

lemma hang_run [simp]: "hang s = (Hang, s)"
  by (simp add: hang_def)

lemma undefinedp_run [simp]: "undefinedp s = (Undefined, s)"
  by (simp add: undefinedp_def)

lemma modifyp_run [simp]: "modifyp f s = (Ok (), f s)"
  by (simp add: modifyp_def)

lemma getp_run [simp]: "getp f s = (Ok (f s), s)"
  by (simp add: getp_def)

lemma liftp_simps [simp]: "liftp (Inl e) = raise e" "liftp (Inr a) = ret a"
  by (simp_all add: liftp_def)

lemma bindp_Ok [prog_simps]: "m s = (Ok a, s') \<Longrightarrow> bindp m f s = f a s'"
  by (simp add: bindp_def)

lemma bindp_Throw [prog_simps]: "m s = (Throw e, s') \<Longrightarrow> bindp m f s = (Throw e, s')"
  by (simp add: bindp_def)

lemma bindp_Hang [prog_simps]: "m s = (Hang, s') \<Longrightarrow> bindp m f s = (Hang, s')"
  by (simp add: bindp_def)

lemma bindp_Undefined [prog_simps]: "m s = (Undefined, s') \<Longrightarrow> bindp m f s = (Undefined, s')"
  by (simp add: bindp_def)

lemma seqp_Undefined [prog_simps]: "m s = (Undefined, s') \<Longrightarrow> seqp m n s = (Undefined, s')"
  by (simp add: seqp_def bindp_def)

lemma catchp_Undefined [prog_simps]: "m s = (Undefined, s') \<Longrightarrow> catchp m h s = (Undefined, s')"
  by (simp add: catchp_def)

lemma seqp_Ok [prog_simps]: "m s = (Ok a, s') \<Longrightarrow> seqp m n s = n s'"
  by (simp add: seqp_def bindp_def)

lemma seqp_Throw [prog_simps]: "m s = (Throw e, s') \<Longrightarrow> seqp m n s = (Throw e, s')"
  by (simp add: seqp_def bindp_def)

lemma seqp_Hang [prog_simps]: "m s = (Hang, s') \<Longrightarrow> seqp m n s = (Hang, s')"
  by (simp add: seqp_def bindp_def)

lemma catchp_Ok [prog_simps]: "m s = (Ok a, s') \<Longrightarrow> catchp m h s = (Ok a, s')"
  by (simp add: catchp_def)

lemma catchp_Throw [prog_simps]: "m s = (Throw e, s') \<Longrightarrow> catchp m h s = h e s'"
  by (simp add: catchp_def)

lemma catchp_Hang [prog_simps]: "m s = (Hang, s') \<Longrightarrow> catchp m h s = (Hang, s')"
  by (simp add: catchp_def)

lemma bindp_ret [simp]: "bindp (ret a) f = f a"
  by (simp add: bindp_def fun_eq_iff)

lemma seqp_ret [simp]: "seqp (ret a) n = n"
  by (simp add: seqp_def bindp_def fun_eq_iff)

lemma bindp_getp [simp]: "bindp (getp g) f s = f (g s) s"
  by (simp add: bindp_def)

lemma bindp_raise [simp]: "bindp (raise e) f = raise e"
  by (simp add: bindp_def fun_eq_iff)

lemma seqp_modifyp [simp]: "seqp (modifyp g) n s = n (g s)"
  by (simp add: seqp_def bindp_def)

lemma loopp_done: "step x s = (Ok (Inr a), s') \<Longrightarrow> loopp step x s = (Ok a, s')"
  unfolding loopp_def by (subst loop_opt.simps) simp

lemma loopp_throw: "step x s = (Throw e, s') \<Longrightarrow> loopp step x s = (Throw e, s')"
  unfolding loopp_def by (subst loop_opt.simps) simp

lemma loopp_hang: "step x s = (Hang, s') \<Longrightarrow> loopp step x s = (Hang, s')"
  unfolding loopp_def by (subst loop_opt.simps) simp

lemma loopp_next:
  "step x s = (Ok (Inl y), s') \<Longrightarrow> loopp step y s' = (r, s'') \<Longrightarrow> r \<noteq> Hang \<Longrightarrow>
     loopp step x s = (r, s'')"
  unfolding loopp_def by (subst loop_opt.simps) (auto split: option.splits)

text \<open>
  A relation between states that every step keeps is kept by the loops over steps, whether
  they finish or throw.
\<close>

definition preserves :: "('s \<Rightarrow> 's \<Rightarrow> bool) \<Rightarrow> ('s, 'a) prog \<Rightarrow> bool" where
  "preserves R m \<longleftrightarrow> (\<forall>s. R s (snd (m s)))"

lemma preservesD: "preserves R m \<Longrightarrow> m s = (r, s') \<Longrightarrow> R s s'"
  unfolding preserves_def by (metis snd_conv)

lemma preserves_ret [intro]: "reflp R \<Longrightarrow> preserves R (ret a)"
  by (simp add: preserves_def reflpD)

lemma preserves_raise [intro]: "reflp R \<Longrightarrow> preserves R (raise e)"
  by (simp add: preserves_def reflpD)

lemma preserves_bindp:
  assumes "transp R" and "preserves R m" and "\<And>a. preserves R (f a)"
  shows "preserves R (bindp m f)"
  unfolding preserves_def
proof
  fix s
  show "R s (snd (bindp m f s))"
  proof (cases "m s")
    case (Pair r s')
    with assms(2) have R: "R s s'" by (rule preservesD)
    show ?thesis
    proof (cases r)
      case (Ok a)
      from assms(3) have "R s' (snd (f a s'))" by (simp add: preserves_def)
      with R assms(1) have "R s (snd (f a s'))" by (meson transpD)
      with Pair Ok show ?thesis by (simp add: bindp_def)
    qed (use Pair R in \<open>simp_all add: bindp_def\<close>)
  qed
qed

lemma preserves_seqp:
  "transp R \<Longrightarrow> preserves R m \<Longrightarrow> preserves R n \<Longrightarrow> preserves R (seqp m n)"
  by (simp add: seqp_def preserves_bindp)

lemma preserves_each:
  "reflp R \<Longrightarrow> transp R \<Longrightarrow> (\<And>x. x \<in> set xs \<Longrightarrow> preserves R (f x)) \<Longrightarrow> preserves R (each f xs)"
  by (induction xs) (auto intro: preserves_seqp)

text \<open>The same for one preorder \<open>R\<close>, in the form the component proofs apply.\<close>

locale frame =
  fixes R :: "'s \<Rightarrow> 's \<Rightarrow> bool"
  assumes refl: "reflp R" and trans: "transp R"
begin

lemma basic:
  "preserves R (ret a)" "preserves R (raise e)" "preserves R hang" "preserves R undefinedp" "preserves R (getp g)"
  "preserves R (liftp r)"
  using refl by (auto simp: preserves_def reflpD liftp_def split: sum.splits)

lemma modify: "(\<And>s. R s (f s)) \<Longrightarrow> preserves R (modifyp f)"
  by (simp add: preserves_def)

lemma bind: "preserves R m \<Longrightarrow> (\<And>a. preserves R (f a)) \<Longrightarrow> preserves R (bindp m f)"
  by (rule preserves_bindp [OF trans])

lemma seq: "preserves R m \<Longrightarrow> preserves R n \<Longrightarrow> preserves R (seqp m n)"
  by (rule preserves_seqp [OF trans])

lemma catch: "preserves R m \<Longrightarrow> (\<And>e. preserves R (h e)) \<Longrightarrow> preserves R (catchp m h)"
  unfolding preserves_def
proof
  fix s
  assume m: "\<forall>s. R s (snd (m s))" and h: "\<And>e. \<forall>s. R s (snd (h e s))"
  obtain r s' where r: "m s = (r, s')" by (cases "m s")
  then have "R s s'" using m by (metis snd_conv)
  with r h trans show "R s (snd (catchp m h s))"
    by (cases r) (auto simp: catchp_def intro: transpD)
qed

lemma loop: "(\<And>x. x \<in> set xs \<Longrightarrow> preserves R (f x)) \<Longrightarrow> preserves R (each f xs)"
  by (rule preserves_each [OF refl trans])

lemma gather: "(\<And>x. x \<in> set xs \<Longrightarrow> preserves R (f x)) \<Longrightarrow> preserves R (collect f xs)"
  by (induction xs) (simp_all add: basic bind)

lemma branch:
  "(b \<Longrightarrow> preserves R m) \<Longrightarrow> (\<not> b \<Longrightarrow> preserves R n) \<Longrightarrow> preserves R (if b then m else n)"
  by simp

lemma pair: "(\<And>a b. preserves R (f a b)) \<Longrightarrow> preserves R (case p of (a, b) \<Rightarrow> f a b)"
  by (simp split: prod.splits)

lemma option:
  "preserves R m \<Longrightarrow> (\<And>a. preserves R (f a)) \<Longrightarrow> preserves R (case x of None \<Rightarrow> m | Some a \<Rightarrow> f a)"
  by (simp split: option.splits)

lemma sum:
  "(\<And>a. preserves R (f a)) \<Longrightarrow> (\<And>b. preserves R (g b)) \<Longrightarrow> preserves R (case x of Inl a \<Rightarrow> f a | Inr b \<Rightarrow> g b)"
  by (simp split: sum.splits)

lemma for_each: "(\<And>x a. x \<in> set xs \<Longrightarrow> preserves R (f x a)) \<Longrightarrow> preserves R (for_each f xs a)"
proof (induction xs arbitrary: a)
  case (Cons x xs)
  then show ?case by (auto intro!: bind sum basic)
qed (simp add: basic)

lemma while_opt:
  assumes "\<And>x. preserves R (step x)" and "loop_opt step x s = Some rs"
  shows "R s (snd rs)"
proof -
  have "step = step \<longrightarrow> R s (snd rs)"
  proof (rule loop_opt.raw_induct [where xa = "((step, x), s)" and y = rs
        and P = "\<lambda>st x s rs. st = step \<longrightarrow> R s (snd rs)", simplified prod.case])
    fix f st y t rs
    assume IH: "\<And>st y t rs. f st y t = Some rs \<Longrightarrow> st = step \<longrightarrow> R t (snd rs)"
      and body: "(case st y t of (Ok (Inl y), t') \<Rightarrow> f st y t' | (Ok (Inr a), t') \<Rightarrow> Some (Ok a, t')
        | (Throw e, t') \<Rightarrow> Some (Throw e, t') | (Hang, t') \<Rightarrow> Some (Hang, t')
        | (Undefined, t') \<Rightarrow> Some (Undefined, t')) = Some rs"
    show "st = step \<longrightarrow> R t (snd rs)"
    proof
      assume st: "st = step"
      obtain r t' where r: "step y t = (r, t')" by (cases "step y t")
      from preservesD [OF assms(1) r] have R: "R t t'" .
      have "R t' (snd rs)" if "f step z t' = Some rs" for z using IH [OF that] by simp
      with R trans body r st show "R t (snd rs)"
        by (auto split: outcome.splits sum.splits intro: transpD)
    qed
  qed (rule assms(2))
  then show ?thesis by simp
qed

lemma while: "(\<And>x. preserves R (step x)) \<Longrightarrow> preserves R (loopp step x)"
  using while_opt [of step x] refl
  by (auto simp: preserves_def loopp_def reflpD split: option.splits)

lemmas keeps = basic bind seq catch loop gather branch pair option

end

section \<open>Encodings\<close>

text \<open>
  The contract of a pair of conversions that belong together: what is written is read back, for
  every value in the encoder's range. Chained encodings (an enumerator as an integer as text)
  satisfy it again.
\<close>

locale codec =
  fixes enc :: "'a \<Rightarrow> 'b" and dec :: "'b \<Rightarrow> 'a" and valid :: "'a \<Rightarrow> bool"
  assumes dec_enc: "valid x \<Longrightarrow> dec (enc x) = x"
begin

lemma enc_inject: "valid x \<Longrightarrow> valid y \<Longrightarrow> enc x = enc y \<longleftrightarrow> x = y"
  by (metis dec_enc)

lemma dec_enc_list: "list_all valid xs \<Longrightarrow> map dec (map enc xs) = xs"
  by (induction xs) (simp_all add: dec_enc)

end

locale codec_chain = outer: codec enc1 dec1 valid1 + inner: codec enc2 dec2 valid2
  for enc1 :: "'a \<Rightarrow> 'b" and dec1 and valid1 and enc2 :: "'b \<Rightarrow> 'c" and dec2 and valid2 +
  assumes enc1_valid: "valid1 x \<Longrightarrow> valid2 (enc1 x)"
begin

lemma chain_codec: "codec (\<lambda>x. enc2 (enc1 x)) (\<lambda>s. dec1 (dec2 s)) valid1"
  by unfold_locales (simp add: outer.dec_enc inner.dec_enc enc1_valid)

end

sublocale codec_chain \<subseteq> chained: codec "\<lambda>x. enc2 (enc1 x)" "\<lambda>s. dec1 (dec2 s)" valid1
  by (rule chain_codec)

end
