(* ===== verification/Cxx_Numbers.thy ===== *)
theory Cxx_Numbers
  imports Prelude
begin

text \<open>
  The integer-to-text conversions of the C++ library the sources rely on: \<open>std::to_string\<close> on
  the integer types, \<open>std::atoi\<close>, \<open>std::atol\<close> and \<open>std::atoll\<close>, and the insertion of a
  \<open>bool\<close> into a stream. Integers are \<open>int\<close>; the width of a conversion is written out. The
  parsing functions follow glibc on the 64-bit Linux target: \<open>strtol\<close> saturates at 64 bits and
  \<open>atoi\<close> narrows that value to 32 bits.
\<close>

section \<open>Printing\<close>

definition digit_char :: "nat \<Rightarrow> char" where
  "digit_char d = char_of (48 + d)"

fun show_nat :: "nat \<Rightarrow> string" where
  "show_nat n = (if n < 10 then [digit_char n] else show_nat (n div 10) @ [digit_char (n mod 10)])"

declare show_nat.simps [simp del]

definition to_string_int :: "int \<Rightarrow> string" where
  "to_string_int i = (if i < 0 then CHR ''-'' # show_nat (nat (- i)) else show_nat (nat i))"

text \<open>\<open>std::to_string(bool)\<close> promotes to \<open>int\<close>; \<open>ostream << bool\<close> without \<open>boolalpha\<close> prints the
  same digit.\<close>

definition to_string_bool :: "bool \<Rightarrow> string" where
  "to_string_bool b = to_string_int (if b then 1 else 0)"

section \<open>Parsing\<close>

definition is_space :: "char \<Rightarrow> bool" where
  "is_space c = (c \<in> {CHR '' '', CHR 0x09, CHR 0x0A, CHR 0x0B, CHR 0x0C, CHR 0x0D})"

definition is_digit :: "char \<Rightarrow> bool" where
  "is_digit c = (48 \<le> (of_char c :: nat) \<and> (of_char c :: nat) \<le> 57)"

definition digit_val :: "char \<Rightarrow> nat" where
  "digit_val c = of_char c - 48"

fun read_digits :: "nat \<Rightarrow> string \<Rightarrow> nat" where
  "read_digits acc [] = acc"
| "read_digits acc (c # cs) = (if is_digit c then read_digits (10 * acc + digit_val c) cs else acc)"

definition int64_min :: int where "int64_min = - (2 ^ 63)"
definition int64_max :: int where "int64_max = 2 ^ 63 - 1"

definition clamp64 :: "int \<Rightarrow> int" where
  "clamp64 i = max int64_min (min int64_max i)"

definition signed_digits :: "string \<Rightarrow> int" where
  "signed_digits s =
     (case s of [] \<Rightarrow> 0
      | c # cs \<Rightarrow>
          if c = CHR ''-'' then - int (read_digits 0 cs)
          else if c = CHR ''+'' then int (read_digits 0 cs)
          else int (read_digits 0 s))"

definition strtol64 :: "string \<Rightarrow> int" where
  "strtol64 s = clamp64 (signed_digits (dropWhile is_space s))"

definition atoll :: "string \<Rightarrow> int" where "atoll s = strtol64 s"
definition atol :: "string \<Rightarrow> int" where "atol s = strtol64 s"
definition atoi :: "string \<Rightarrow> int" where "atoi s = signed_take_bit 31 (strtol64 s)"

definition fits32 :: "int \<Rightarrow> bool" where "fits32 i \<longleftrightarrow> - (2 ^ 31) \<le> i \<and> i < 2 ^ 31"
definition fits64 :: "int \<Rightarrow> bool" where "fits64 i \<longleftrightarrow> int64_min \<le> i \<and> i \<le> int64_max"

section \<open>Facts about printed numbers\<close>

lemma of_digit_char [simp]: "d < 10 \<Longrightarrow> of_char (digit_char d) = 48 + d"
  by (simp add: digit_char_def)

lemma is_digit_digit_char [simp]: "d < 10 \<Longrightarrow> is_digit (digit_char d)"
  by (simp add: is_digit_def)

lemma digit_val_digit_char [simp]: "d < 10 \<Longrightarrow> digit_val (digit_char d) = d"
  by (simp add: digit_val_def)

lemma show_nat_nonempty [simp]: "show_nat n \<noteq> []"
  by (subst show_nat.simps) simp

lemma show_nat_digits: "c \<in> set (show_nat n) \<Longrightarrow> is_digit c"
proof (induction n rule: show_nat.induct)
  case (1 n)
  show ?case
  proof (cases "n < 10")
    case True
    with "1.prems" show ?thesis by (subst (asm) show_nat.simps) simp
  next
    case False
    with "1.prems" have "c \<in> set (show_nat (n div 10)) \<or> c = digit_char (n mod 10)"
      by (subst (asm) show_nat.simps) auto
    with "1.IH" False show ?thesis by auto
  qed
qed

lemma read_digits_append:
  "\<forall>c \<in> set s. is_digit c \<Longrightarrow> read_digits acc (s @ t) = read_digits (read_digits acc s) t"
  by (induction s arbitrary: acc) auto

lemma read_show_nat [simp]: "read_digits 0 (show_nat n) = n"
proof (induction n rule: show_nat.induct)
  case (1 n)
  show ?case
  proof (cases "n < 10")
    case True
    then show ?thesis by (subst show_nat.simps) simp
  next
    case False
    with 1 have IH: "read_digits 0 (show_nat (n div 10)) = n div 10" by simp
    from False have "show_nat n = show_nat (n div 10) @ [digit_char (n mod 10)]"
      by (subst show_nat.simps) simp
    then show ?thesis
      by (simp add: read_digits_append show_nat_digits IH)
  qed
qed

lemma digit_neq [simp]:
  "is_digit c \<Longrightarrow> c \<noteq> CHR ''-''" "is_digit c \<Longrightarrow> c \<noteq> CHR ''+''"
  "is_digit c \<Longrightarrow> \<not> is_space c" "is_digit c \<Longrightarrow> c \<noteq> COMMA" "is_digit c \<Longrightarrow> c \<noteq> LF"
  "is_digit c \<Longrightarrow> c \<noteq> CR" "is_digit c \<Longrightarrow> c \<noteq> UNDERSCORE"
  by (auto simp: is_digit_def is_space_def)

lemma not_space_minus [simp]: "\<not> is_space CHR ''-''"
  by (simp add: is_space_def)

lemma signed_digits_plain: "is_digit c \<Longrightarrow> signed_digits (c # cs) = int (read_digits 0 (c # cs))"
  by (simp add: signed_digits_def)

lemma signed_digits_show_nat: "signed_digits (show_nat n) = int n"
proof (cases "show_nat n")
  case Nil
  then show ?thesis by simp
next
  case (Cons c cs)
  then have "is_digit c" using show_nat_digits [of c n] by simp
  then have "signed_digits (c # cs) = int (read_digits 0 (c # cs))"
    by (rule signed_digits_plain)
  with Cons show ?thesis by (metis read_show_nat)
qed

lemma dropWhile_space_show_nat [simp]: "dropWhile is_space (show_nat n) = show_nat n"
proof (cases "show_nat n")
  case (Cons c cs)
  then have "is_digit c" using show_nat_digits [of c n] by simp
  with Cons show ?thesis by simp
qed simp

lemma strtol64_to_string: "fits64 i \<Longrightarrow> strtol64 (to_string_int i) = i"
  by (auto simp: strtol64_def to_string_int_def signed_digits_show_nat clamp64_def fits64_def
      signed_digits_def [of "CHR ''-'' # cs" for cs])

lemma atoll_to_string [simp]: "fits64 i \<Longrightarrow> atoll (to_string_int i) = i"
  by (simp add: atoll_def strtol64_to_string)

lemma atol_to_string [simp]: "fits64 i \<Longrightarrow> atol (to_string_int i) = i"
  by (simp add: atol_def strtol64_to_string)

lemma fits32_fits64 [simp]: "fits32 i \<Longrightarrow> fits64 i"
  by (simp add: fits32_def fits64_def int64_min_def int64_max_def)

lemma atoi_to_string [simp]: "fits32 i \<Longrightarrow> atoi (to_string_int i) = i"
  by (simp add: atoi_def strtol64_to_string signed_take_bit_int_eq_self fits32_def [of i])

lemma fits32_numeral [simp]: "fits32 0" "fits32 1" "fits32 (- 1)"
  by (simp_all add: fits32_def)

lemma atoi_range: "fits32 (atoi s)"
  using signed_take_bit_int_greater_eq_minus_exp [of 31 "strtol64 s"]
    signed_take_bit_int_less_exp [of 31 "strtol64 s"]
  by (simp add: fits32_def atoi_def)

lemma to_string_int_nonempty [simp]: "to_string_int i \<noteq> []"
  by (simp add: to_string_int_def)

lemma to_string_int_chars: "c \<in> set (to_string_int i) \<Longrightarrow> is_digit c \<or> c = CHR ''-''"
  by (auto simp: to_string_int_def split: if_splits dest: show_nat_digits)

lemma to_string_int_clean [csv_text]:
  "COMMA \<notin> set (to_string_int i)" "LF \<notin> set (to_string_int i)" "CR \<notin> set (to_string_int i)"
  using to_string_int_chars [of COMMA i] to_string_int_chars [of LF i] to_string_int_chars [of CR i]
  by (auto simp: is_digit_def)

lemma to_string_bool_values [simp]:
  "to_string_bool False = ''0''" "to_string_bool True = ''1''"
  by code_simp+

lemma atoi_bool [simp]: "atoi ''0'' = 0" "atoi ''1'' = 1"
  using atoi_to_string [of 0] atoi_to_string [of 1]
  by (simp_all add: to_string_bool_values [unfolded to_string_bool_def, simplified])

lemma to_string_int_inject:
  "fits64 i \<Longrightarrow> fits64 j \<Longrightarrow> to_string_int i = to_string_int j \<longleftrightarrow> i = j"
  by (metis atoll_to_string)

lemma show_nat_inject [simp]: "show_nat m = show_nat n \<longleftrightarrow> m = n"
  by (metis read_show_nat)

section \<open>Numbers as text\<close>

interpretation int32_text: codec to_string_int atoi fits32
  by unfold_locales simp

interpretation int64_text: codec to_string_int atoll fits64
  by unfold_locales simp

interpretation long_text: codec to_string_int atol fits64
  by unfold_locales simp

end
