(* ===== verification/Cxx_Double.thy ===== *)
theory Cxx_Double
  imports Complex_Main Cxx_Numbers
begin

text \<open>
  The C++ \<open>double\<close> of the sources: a finite binary64 value is the rational number it denotes,
  beside the infinities and NaN. Every operation computes exactly and then rounds to the
  nearest representable value, ties to even, as IEEE 754 prescribes. The sign of a zero is not
  kept (\<open>-0.0\<close> and \<open>0.0\<close> are one value), nor the sign and payload of a NaN.
  \<open>std::round\<close>, \<open>std::to_string(double)\<close> and \<open>std::stod\<close> (decimal input; the sources never
  store hexadecimal floats) are the library functions the program applies to them.
\<close>

section \<open>Rounding to binary64\<close>

datatype double = Finite rat | Infinity bool | NaN

definition round_half_even :: "rat \<Rightarrow> int" where
  "round_half_even q =
     (let f = \<lfloor>q\<rfloor>; r = q - of_int f
      in if r < 1 / 2 then f else if r > 1 / 2 then f + 1 else if even f then f else f + 1)"

fun bit_count :: "nat \<Rightarrow> nat" where
  "bit_count n = (if n = 0 then 0 else Suc (bit_count (n div 2)))"

declare bit_count.simps [simp del]

definition pow2 :: "int \<Rightarrow> rat" where
  "pow2 k = (if 0 \<le> k then 2 ^ nat k else 1 / 2 ^ nat (- k))"

text \<open>The exponent of a positive rational: the \<open>e\<close> with \<open>2^e \<le> q < 2^(e+1)\<close>.\<close>

definition exponent_of :: "rat \<Rightarrow> int" where
  "exponent_of q =
     (let (a, b) = quotient_of q; e = int (bit_count (nat a)) - int (bit_count (nat b))
      in if pow2 e \<le> q then e else e - 1)"

text \<open>The first magnitude that is no longer finite.\<close>

definition overflow_limit :: "rat" where
  "overflow_limit = 2 ^ 1024"

definition rnd :: "rat \<Rightarrow> double" where
  "rnd q =
     (if q = 0 then Finite 0
      else let u = pow2 (max (exponent_of \<bar>q\<bar>) (- 1022) - 52);
               v = of_int (round_half_even (q / u)) * u
           in if overflow_limit \<le> \<bar>v\<bar> then Infinity (q < 0) else Finite v)"

section \<open>Arithmetic and comparison\<close>

fun d_uminus :: "double \<Rightarrow> double" where
  "d_uminus (Finite q) = Finite (- q)"
| "d_uminus (Infinity n) = Infinity (\<not> n)"
| "d_uminus NaN = NaN"

fun d_add :: "double \<Rightarrow> double \<Rightarrow> double" where
  "d_add (Finite p) (Finite q) = rnd (p + q)"
| "d_add NaN _ = NaN"
| "d_add _ NaN = NaN"
| "d_add (Infinity m) (Infinity n) = (if m = n then Infinity m else NaN)"
| "d_add (Infinity m) (Finite _) = Infinity m"
| "d_add (Finite _) (Infinity n) = Infinity n"

definition d_sub :: "double \<Rightarrow> double \<Rightarrow> double" where
  "d_sub x y = d_add x (d_uminus y)"

fun d_mul :: "double \<Rightarrow> double \<Rightarrow> double" where
  "d_mul (Finite p) (Finite q) = rnd (p * q)"
| "d_mul NaN _ = NaN"
| "d_mul _ NaN = NaN"
| "d_mul (Infinity m) (Infinity n) = Infinity (m \<noteq> n)"
| "d_mul (Infinity m) (Finite q) = (if q = 0 then NaN else Infinity (m \<noteq> (q < 0)))"
| "d_mul (Finite p) (Infinity n) = (if p = 0 then NaN else Infinity (n \<noteq> (p < 0)))"

fun d_div :: "double \<Rightarrow> double \<Rightarrow> double" where
  "d_div (Finite p) (Finite q) =
     (if q = 0 then (if p = 0 then NaN else Infinity (p < 0)) else rnd (p / q))"
| "d_div NaN _ = NaN"
| "d_div _ NaN = NaN"
| "d_div (Infinity m) (Infinity n) = NaN"
| "d_div (Infinity m) (Finite q) = Infinity (m \<noteq> (q < 0))"
| "d_div (Finite p) (Infinity n) = Finite 0"

fun d_less :: "double \<Rightarrow> double \<Rightarrow> bool" where
  "d_less (Finite p) (Finite q) = (p < q)"
| "d_less NaN _ = False"
| "d_less _ NaN = False"
| "d_less (Infinity m) (Infinity n) = (m \<and> \<not> n)"
| "d_less (Infinity m) (Finite _) = m"
| "d_less (Finite _) (Infinity n) = (\<not> n)"

fun d_eq :: "double \<Rightarrow> double \<Rightarrow> bool" where
  "d_eq (Finite p) (Finite q) = (p = q)"
| "d_eq (Infinity m) (Infinity n) = (m = n)"
| "d_eq _ _ = False"

definition d_ge :: "double \<Rightarrow> double \<Rightarrow> bool" where
  "d_ge x y = (d_less y x \<or> d_eq x y)"

text \<open>\<open>std::round\<close>: to the nearest integer, halves away from zero.\<close>

fun d_round :: "double \<Rightarrow> double" where
  "d_round (Finite q) =
     Finite (of_int (if q < 0 then - \<lfloor>1 / 2 - q\<rfloor> else \<lfloor>q + 1 / 2\<rfloor>))"
| "d_round x = x"

definition d_of_int :: "int \<Rightarrow> double" where
  "d_of_int i = rnd (of_int i)"

section \<open>Text\<close>

definition pad6 :: "nat \<Rightarrow> string" where
  "pad6 n = map (\<lambda>k. digit_char (n div 10 ^ k mod 10)) [5, 4, 3, 2, 1, 0]"

text \<open>\<open>std::to_string(double)\<close> is \<open>printf("%f")\<close>: six decimals of the exact value.\<close>

fun to_string_double :: "double \<Rightarrow> string" where
  "to_string_double (Finite q) =
     (let n = nat (round_half_even (\<bar>q\<bar> * 10 ^ 6))
      in (if q < 0 then ''-'' else []) @ show_nat (n div 10 ^ 6) @ CHR ''.'' # pad6 (n mod 10 ^ 6))"
| "to_string_double (Infinity neg) = (if neg then ''-inf'' else ''inf'')"
| "to_string_double NaN = ''nan''"

definition lower :: "char \<Rightarrow> char" where
  "lower c = (if (65 :: nat) \<le> of_char c \<and> (of_char c :: nat) \<le> 90 then char_of (of_char c + 32 :: nat) else c)"

definition pow10 :: "int \<Rightarrow> rat" where
  "pow10 k = (if 0 \<le> k then 10 ^ nat k else 1 / 10 ^ nat (- k))"

definition stod_exponent :: "string \<Rightarrow> int" where
  "stod_exponent s =
     (case s of [] \<Rightarrow> 0
      | c # cs \<Rightarrow>
          if lower c = CHR ''e'' then
            let ds = (case cs of [] \<Rightarrow> [] | d # t \<Rightarrow> if d = CHR ''-'' \<or> d = CHR ''+'' then t else cs)
            in if ds \<noteq> [] \<and> is_digit (hd ds) then signed_digits cs else 0
          else 0)"

definition stod_decimal :: "bool \<Rightarrow> string \<Rightarrow> exn + double" where
  "stod_decimal neg u =
     (let ip = takeWhile is_digit u; r = dropWhile is_digit u;
          dot = (r \<noteq> [] \<and> hd r = CHR ''.'');
          fp = (if dot then takeWhile is_digit (tl r) else []);
          r' = (if dot then dropWhile is_digit (tl r) else r);
          q = of_nat (read_digits 0 (ip @ fp)) * pow10 (stod_exponent r' - int (length fp))
      in if ip = [] \<and> fp = [] then Inl (Invalid_argument ''stod'')
         else case rnd (if neg then - q else q) of
                Finite v \<Rightarrow> Inr (Finite v)
              | _ \<Rightarrow> Inl (Out_of_range ''stod''))"

definition stod :: "string \<Rightarrow> exn + double" where
  "stod s =
     (let t = dropWhile is_space s;
          neg = (t \<noteq> [] \<and> hd t = CHR ''-'');
          u = (if t \<noteq> [] \<and> (hd t = CHR ''-'' \<or> hd t = CHR ''+'') then tl t else t)
      in if map lower (take 3 u) = ''inf'' then Inr (Infinity neg)
         else if map lower (take 3 u) = ''nan'' then Inr NaN
         else stod_decimal neg u)"

section \<open>Integers survive\<close>

lemma bit_count_le: "n < 2 ^ k \<Longrightarrow> bit_count n \<le> k"
proof (induction n arbitrary: k rule: bit_count.induct)
  case (1 n)
  show ?case
  proof (cases "n = 0")
    case True
    then show ?thesis by (subst bit_count.simps) simp
  next
    case False
    with "1.prems" obtain j where k: "k = Suc j" by (cases k) auto
    with "1.prems" have "n div 2 < 2 ^ j" by auto
    with "1.IH" False have "bit_count (n div 2) \<le> j" by blast
    with False k show ?thesis by (subst bit_count.simps) simp
  qed
qed

lemma bit_count_1: "bit_count (Suc 0) = 1"
  by (subst bit_count.simps) (simp add: bit_count.simps)

lemma round_half_even_of_int [simp]: "round_half_even (of_int n) = n"
  by (simp add: round_half_even_def Let_def)

lemma exponent_of_int_le:
  assumes "0 < n" and "n < 2 ^ 53"
  shows "exponent_of (of_int n) \<le> 52"
proof -
  have "bit_count (nat n) \<le> 53"
    using assms by (intro bit_count_le) (simp add: nat_less_iff)
  then show ?thesis
    by (simp add: exponent_of_def quotient_of_int Let_def bit_count_1)
qed

lemma rnd_of_int:
  assumes "\<bar>n\<bar> < 2 ^ 53"
  shows "rnd (of_int n) = Finite (of_int n)"
proof (cases "n = 0")
  case True
  then show ?thesis by (simp add: rnd_def)
next
  case False
  define k where "k = nat (52 - max (exponent_of (of_int \<bar>n\<bar>)) (- 1022))"
  have "exponent_of (of_int \<bar>n\<bar>) \<le> 52"
    using exponent_of_int_le [of "\<bar>n\<bar>"] assms False by simp
  then have u: "pow2 (max (exponent_of (of_int \<bar>n\<bar>)) (- 1022) - 52) = 1 / 2 ^ k"
    by (auto simp: pow2_def k_def)
  have "(of_int n :: rat) / (1 / 2 ^ k) = of_int (n * 2 ^ k)" by simp
  then have v: "of_int (round_half_even (of_int n / (1 / 2 ^ k))) * (1 / 2 ^ k) = (of_int n :: rat)"
    by (simp only: round_half_even_of_int) simp
  have "\<bar>of_int n :: rat\<bar> < 2 ^ 53"
    using assms by (metis of_int_abs of_int_less_iff of_int_numeral of_int_power)
  also have "(2 :: rat) ^ 53 \<le> overflow_limit"
    unfolding overflow_limit_def by (rule power_increasing) auto
  finally have small: "\<not> overflow_limit \<le> \<bar>of_int n :: rat\<bar>" by simp
  have nz: "(of_int n :: rat) \<noteq> 0" using False by simp
  show ?thesis
    unfolding rnd_def Let_def if_not_P [OF nz] of_int_abs [symmetric] u v
    unfolding of_int_abs if_not_P [OF small] ..
qed

lemma d_of_int_small [simp]: "\<bar>n\<bar> < 2 ^ 53 \<Longrightarrow> d_of_int n = Finite (of_int n)"
  by (simp add: d_of_int_def rnd_of_int)

lemma digit_char_0 [simp]: "digit_char 0 = CHR ''0''"
  by code_simp

lemma pad6_0 [simp]: "pad6 0 = ''000000''"
  by (simp add: pad6_def)

lemma to_string_double_int:
  "to_string_double (Finite (of_int n)) = to_string_int n @ ''.000000''"
proof -
  have "round_half_even (\<bar>of_int n\<bar> * 10 ^ 6) = \<bar>n\<bar> * 10 ^ 6"
    using round_half_even_of_int [of "\<bar>n\<bar> * 10 ^ 6"] by simp
  then have "nat (round_half_even (\<bar>of_int n\<bar> * 10 ^ 6)) = nat \<bar>n\<bar> * 10 ^ 6"
    by (simp add: nat_mult_distrib)
  then show ?thesis
    unfolding to_string_double.simps Let_def by (auto simp: to_string_int_def)
qed

lemma lower_digit: "is_digit c \<Longrightarrow> lower c = c"
  by (auto simp: lower_def is_digit_def)

lemma stod_decimal_nat:
  assumes "n < 2 ^ 53"
  shows "stod_decimal neg (show_nat n @ ''.000000'') =
           Inr (Finite (if neg then - of_nat n else of_nat n))"
proof -
  have d: "\<forall>c \<in> set (show_nat n). is_digit c" by (simp add: show_nat_digits)
  then have tw: "takeWhile is_digit (show_nat n @ ''.000000'') = show_nat n"
    and dw: "dropWhile is_digit (show_nat n @ ''.000000'') = ''.000000''"
    by (simp_all add: is_digit_def)
  have z: "takeWhile is_digit ''000000'' = ''000000''" "dropWhile is_digit ''000000'' = []"
    by (simp_all add: is_digit_def)
  have rd: "read_digits 0 (show_nat n @ ''000000'') = n * 10 ^ 6"
    using d by (simp add: read_digits_append is_digit_def digit_val_def)
  have q: "rat_of_nat (read_digits 0 (show_nat n @ ''000000'')) * pow10 (stod_exponent [] - 6) = of_nat n"
    unfolding rd by (simp add: pow10_def stod_exponent_def)
  have "rnd (of_int (int n)) = Finite (of_int (int n))"
    and "rnd (of_int (- int n)) = Finite (of_int (- int n))"
    using assms by (intro rnd_of_int; simp)+
  then have "rnd (of_nat n) = Finite (of_nat n)" and "rnd (- of_nat n) = Finite (- of_nat n)"
    by simp_all
  moreover have "is_digit CHR ''0''" by (simp add: is_digit_def)
  ultimately show ?thesis
    by (simp add: stod_decimal_def Let_def tw dw z q)
qed

lemma stod_to_string_lemma:
  assumes "\<bar>n\<bar> < 2 ^ 53"
  shows "stod (to_string_double (Finite (of_int n))) = Inr (Finite (of_int n))"
proof -
  obtain c cs where c: "show_nat (nat \<bar>n\<bar>) = c # cs" and dc: "is_digit c"
    by (metis list.exhaust list.set_intros(1) show_nat_digits show_nat_nonempty)
  have tk: "map lower (take 3 (show_nat (nat \<bar>n\<bar>) @ ''.000000'')) \<noteq> ''inf''"
    "map lower (take 3 (show_nat (nat \<bar>n\<bar>) @ ''.000000'')) \<noteq> ''nan''"
    using c dc by (auto simp: lower_digit is_digit_def)
  have "nat \<bar>n\<bar> < 2 ^ 53" using assms by (simp add: nat_less_iff)
  note dec = stod_decimal_nat [OF this]
  show ?thesis
  proof (cases "n < 0")
    case True
    then have "to_string_int n = CHR ''-'' # show_nat (nat \<bar>n\<bar>)" by (simp add: to_string_int_def)
    with True show ?thesis
      unfolding to_string_double_int stod_def Let_def
      using tk dec [of True] by (simp)
  next
    case False
    then have "to_string_int n = show_nat (nat \<bar>n\<bar>)" by (simp add: to_string_int_def)
    with False c dc show ?thesis
      unfolding to_string_double_int stod_def Let_def
      using tk dec [of False] by simp
  qed
qed

lemma stod_decimal_exn: "stod_decimal neg u = Inl e \<Longrightarrow> std_exception e"
proof -
  have sel: "(if b then Inl (Invalid_argument s) else case x of Finite v \<Rightarrow> Inr (Finite v)
      | Infinity _ \<Rightarrow> Inl (Out_of_range t) | NaN \<Rightarrow> Inl (Out_of_range t)) = (Inl e :: exn + double) \<Longrightarrow>
      std_exception e" for b s x t
    by (cases x) (auto split: if_splits)
  show "stod_decimal neg u = Inl e \<Longrightarrow> std_exception e"
    unfolding stod_decimal_def Let_def by (rule sel)
qed

lemma stod_exn: "stod s = Inl e \<Longrightarrow> std_exception e"
  unfolding stod_def Let_def by (simp only: split: if_split_asm) (auto dest: stod_decimal_exn)

end
