(* ===== verification/Defaults.thy ===== *)
theory Defaults
  imports Cxx_Double
begin

text \<open>
  The data model of \<open>src/default_var.hpp\<close>: its enumerations, its structures and the keys and
  column names of the history database. Strings, \<open>QString\<close> and paths are \<open>string\<close>; the signed
  integer types are \<open>int\<close> (each conversion writes its width out); pointers to library objects
  (easy handles, file streams, chart series) are not kept. A field of a structure carries the
  structure's initials, so that two structures may name a field alike.
\<close>

section \<open>Enumerations\<close>

datatype download_status = Downloading | Completed | Failed | Paused | Stopped | Unknown | Invalid

datatype download_type = HTTP | FTP | Torrent | TorrentMagnetLink

datatype curl_grab_method = Header | File

datatype hash_type =
  SHA1 | SHA256 | SHA512 | SHA3_256 | SHA3_512 | MD5 | CannotDetermine | HashNone

datatype hash_verif = Analyzing | Verified | Corrupt | NotApplicable

text \<open>The value an unscoped enumerator converts to: its position.\<close>

fun download_status_index :: "download_status \<Rightarrow> int" where
  "download_status_index Downloading = 0"
| "download_status_index Completed = 1"
| "download_status_index Failed = 2"
| "download_status_index Paused = 3"
| "download_status_index Stopped = 4"
| "download_status_index Unknown = 5"
| "download_status_index Invalid = 6"

fun hash_type_index :: "hash_type \<Rightarrow> int" where
  "hash_type_index SHA1 = 0"
| "hash_type_index SHA256 = 1"
| "hash_type_index SHA512 = 2"
| "hash_type_index SHA3_256 = 3"
| "hash_type_index SHA3_512 = 4"
| "hash_type_index MD5 = 5"
| "hash_type_index CannotDetermine = 6"
| "hash_type_index HashNone = 7"

fun hash_verif_index :: "hash_verif \<Rightarrow> int" where
  "hash_verif_index Analyzing = 0"
| "hash_verif_index Verified = 1"
| "hash_verif_index Corrupt = 2"
| "hash_verif_index NotApplicable = 3"

lemma download_status_index_inject [simp]:
  "download_status_index s = download_status_index t \<longleftrightarrow> s = t"
  by (cases s; cases t) auto

instantiation download_status :: linorder
begin

definition less_eq_download_status :: "download_status \<Rightarrow> download_status \<Rightarrow> bool" where
  "s \<le> t \<longleftrightarrow> download_status_index s \<le> download_status_index t"

definition less_download_status :: "download_status \<Rightarrow> download_status \<Rightarrow> bool" where
  "s < t \<longleftrightarrow> download_status_index s < download_status_index t"

instance
  by standard (auto simp: less_eq_download_status_def less_download_status_def
      intro: download_status_index_inject [THEN iffD1])

end

section \<open>Hashes and transfer statistics\<close>

record file_hash =
  fh_hash_type :: hash_type
  fh_hash_verif :: hash_verif
  fh_checksum :: string

record torrent_xfer_stats =
  tx_dl_rate :: int
  tx_ul_rate :: int
  tx_num_pieces_downloaded :: int
  tx_progress_ppm :: int
  tx_cur_time :: int

record torrent_resume_info =
  tr_unique_id :: string
  tr_save_path :: string
  tr_dl_state :: string
  tr_total_uploaded :: int
  tr_total_downloaded :: int
  tr_last_seen_cmplte :: int
  tr_last_scrape :: int
  tr_time_started :: int
  tr_xfer_stats :: "torrent_xfer_stats option"

section \<open>BitTorrent items\<close>

record torrent_file =
  tf_unique_id :: string
  tf_file_path :: string
  tf_sha1_hash_hex :: string
  tf_flags :: int
  tf_content_length :: int
  tf_file_offset :: int
  tf_mtime :: int
  tf_map_file_piece :: "int \<times> int"
  tf_downloaded :: bool

record torrent_tracker =
  tt_unique_id :: string
  tt_tier :: int
  tt_url :: string
  tt_enabled :: bool

record general_info =
  gi_unique_id :: string
  gi_down_dest :: string
  gi_insert_timestamp :: int
  gi_complt_timestamp :: int
  gi_creatn_timestamp :: int
  gi_dlStatus :: download_status
  gi_comment :: string
  gi_creator :: string
  gi_magnet_uri :: string
  gi_torrent_name :: string
  gi_num_files :: int
  gi_num_trackers :: int
  gi_num_pieces :: int
  gi_piece_length :: int

record torrent_info =
  ti_general :: general_info
  ti_resume_info :: "torrent_resume_info option"
  ti_nodes :: "(string \<times> int) list"
  ti_trackers :: "torrent_tracker list"
  ti_files_vec :: "torrent_file list"

section \<open>HTTP and FTP items\<close>

record active_download =
  ad_file_dest :: string
  ad_isActive :: bool

record curl_info =
  ci_response_code :: int
  ci_effective_url :: string

record curl_info_ext =
  ce_status_ok :: bool
  ce_status_msg :: string
  ce_response_code :: int
  ce_elapsed :: double
  ce_effective_url :: string
  ce_content_length :: double

record curl_dl_stats =
  cs_dltotal :: int
  cs_uptotal :: int
  cs_dlnow :: double
  cs_upnow :: double
  cs_cur_time :: int

record dl_status_msg =
  dm_content_len :: double
  dm_url :: string
  dm_file_loc :: string

record curl_progress =
  cp_stat :: "curl_dl_stats list"
  cp_url :: string
  cp_file_dest :: string
  cp_timer_set :: bool
  cp_content_length :: double

record curl_dl_info =
  cd_file_loc :: string
  cd_insert_timestamp :: int
  cd_complt_timestamp :: int
  cd_dlStatus :: download_status
  cd_ext_info :: curl_info_ext
  cd_unique_id :: string
  cd_hash_type :: hash_type
  cd_hash_val_given :: string
  cd_hash_val_rtrnd :: string
  cd_hash_succ_type :: hash_verif

section \<open>The cache of the main window\<close>

record gk_xfer_stats =
  gx_upload_rate :: "double option"
  gx_download_rate :: double
  gx_progress_ppm :: int
  gx_download_total :: int
  gx_upload_total :: "int option"
  gx_num_pieces_dled :: "int option"
  gx_cur_time :: "int option"

record gk_dl_stats =
  gs_dl_state :: download_status
  gs_timer_begin :: int
  gs_content_length :: double
  gs_xfer_stats :: "gk_xfer_stats list"

record download_info =
  di_dl_type :: download_type
  di_dl_dest :: string
  di_unique_id :: string
  di_url :: string
  di_stats :: gk_dl_stats
  di_down_speed_init :: bool
  di_down_speed_vals :: "(double \<times> double) list"
  di_to_info :: "torrent_info option"
  di_curl_info :: "curl_dl_info option"

section \<open>Keys and column names of the database\<close>

definition STORE_UNIQUE_ID :: string where
  "STORE_UNIQUE_ID = ''store-unique-id''"

definition CSV_MIN_PARSE_SIZE :: nat where
  "CSV_MIN_PARSE_SIZE = 12"

definition UNIQUE_ID_DIGIT_COUNT :: nat where
  "UNIQUE_ID_DIGIT_COUNT = 32"

text \<open>\<open>LEVELDB_KEY_CURL_*\<close>, in the order of the header.\<close>

abbreviation KEY_CURL_STAT :: string where "KEY_CURL_STAT \<equiv> ''curl-stat''"
abbreviation KEY_CURL_INSERT_DATE :: string where "KEY_CURL_INSERT_DATE \<equiv> ''curl-insrt-date''"
abbreviation KEY_CURL_COMPLT_DATE :: string where "KEY_CURL_COMPLT_DATE \<equiv> ''curl-complt-date''"
abbreviation KEY_CURL_STATMSG :: string where "KEY_CURL_STATMSG \<equiv> ''curl-statmsg''"
abbreviation KEY_CURL_EFFEC_URL :: string where "KEY_CURL_EFFEC_URL \<equiv> ''curl-effec-url''"
abbreviation KEY_CURL_RESP_CODE :: string where "KEY_CURL_RESP_CODE \<equiv> ''curl-resp-code''"
abbreviation KEY_CURL_CONT_LNGTH :: string where "KEY_CURL_CONT_LNGTH \<equiv> ''curl-cont-lngth''"
abbreviation KEY_CURL_HASH_TYPE :: string where "KEY_CURL_HASH_TYPE \<equiv> ''curl-hash-type''"
abbreviation KEY_CURL_HASH_VAL_GIVEN :: string where "KEY_CURL_HASH_VAL_GIVEN \<equiv> ''curl-hash-val-given''"
abbreviation KEY_CURL_HASH_VAL_RTRND :: string where "KEY_CURL_HASH_VAL_RTRND \<equiv> ''curl-hash-val-rtrnd''"
abbreviation KEY_CURL_HASH_SUCC_TYPE :: string where "KEY_CURL_HASH_SUCC_TYPE \<equiv> ''curl-hash-succ-type''"

definition curl_item_keys :: "string list" where
  "curl_item_keys =
     [KEY_CURL_STAT, KEY_CURL_INSERT_DATE, KEY_CURL_COMPLT_DATE, KEY_CURL_STATMSG,
      KEY_CURL_EFFEC_URL, KEY_CURL_RESP_CODE, KEY_CURL_CONT_LNGTH, KEY_CURL_HASH_TYPE,
      KEY_CURL_HASH_VAL_GIVEN, KEY_CURL_HASH_VAL_RTRND, KEY_CURL_HASH_SUCC_TYPE]"

text \<open>\<open>LEVELDB_KEY_TORRENT_*\<close>.\<close>

abbreviation KEY_TORRENT_INSERT_DATE :: string where "KEY_TORRENT_INSERT_DATE \<equiv> ''to-insert-date''"
abbreviation KEY_TORRENT_COMPLT_DATE :: string where "KEY_TORRENT_COMPLT_DATE \<equiv> ''to-complt-date''"
abbreviation KEY_TORRENT_CREATN_DATE :: string where "KEY_TORRENT_CREATN_DATE \<equiv> ''to-creatn-date''"
abbreviation KEY_TORRENT_DLSTATUS :: string where "KEY_TORRENT_DLSTATUS \<equiv> ''to-status''"
abbreviation KEY_TORRENT_COMMENT :: string where "KEY_TORRENT_COMMENT \<equiv> ''to-comment''"
abbreviation KEY_TORRENT_CREATOR :: string where "KEY_TORRENT_CREATOR \<equiv> ''to-creator''"
abbreviation KEY_TORRENT_MAGNET_URI :: string where "KEY_TORRENT_MAGNET_URI \<equiv> ''to-magnet-uri''"
abbreviation KEY_TORRENT_NAME :: string where "KEY_TORRENT_NAME \<equiv> ''to-name''"
abbreviation KEY_TORRENT_NUM_FILES :: string where "KEY_TORRENT_NUM_FILES \<equiv> ''num-files''"
abbreviation KEY_TORRENT_NUM_TRACKERS :: string where "KEY_TORRENT_NUM_TRACKERS \<equiv> ''num-trackers''"
abbreviation KEY_TORRENT_PIECES :: string where "KEY_TORRENT_PIECES \<equiv> ''num-pieces''"
abbreviation KEY_TORRENT_PIECE_LENGTH :: string where "KEY_TORRENT_PIECE_LENGTH \<equiv> ''piece-length''"
abbreviation KEY_TORRENT_FILES :: string where "KEY_TORRENT_FILES \<equiv> ''to-files''"
abbreviation KEY_TORRENT_MAPFLEPCE :: string where "KEY_TORRENT_MAPFLEPCE \<equiv> ''map-file-piece''"
abbreviation KEY_TORRENT_TRACKERS :: string where "KEY_TORRENT_TRACKERS \<equiv> ''to-extra-trackers''"

definition torrent_item_keys :: "string list" where
  "torrent_item_keys =
     [KEY_TORRENT_INSERT_DATE, KEY_TORRENT_COMPLT_DATE, KEY_TORRENT_CREATN_DATE,
      KEY_TORRENT_DLSTATUS, KEY_TORRENT_COMMENT, KEY_TORRENT_CREATOR, KEY_TORRENT_MAGNET_URI,
      KEY_TORRENT_NAME, KEY_TORRENT_NUM_FILES, KEY_TORRENT_NUM_TRACKERS, KEY_TORRENT_PIECES,
      KEY_TORRENT_PIECE_LENGTH]"

text \<open>The header rows of the CSV values.\<close>

definition uid_headers :: "string list" where
  "uid_headers = [''unique-id'', ''file-loc'', ''is-torrent'']"

definition torrent_file_headers :: "string list" where
  "torrent_file_headers =
     [''file-path'', ''content-length'', ''sha1-hash'', ''file-offset'', ''mod-time'',
      ''mapflepce-key'', ''downloaded-bool'', ''flags'']"

definition mapflepce_headers :: "string list" where
  "mapflepce_headers = [''mapflepce-1'', ''mapflepce-2'']"

definition tracker_headers :: "string list" where
  "tracker_headers = [''url'', ''tier'', ''bool-enabled'']"

text \<open>The columns of the download table, \<open>MN_*_COL\<close>.\<close>

definition MN_COL_COUNT :: int where "MN_COL_COUNT = 12"
definition MN_FILENAME_COL :: int where "MN_FILENAME_COL = 0"
definition MN_FILESIZE_COL :: int where "MN_FILESIZE_COL = 1"
definition MN_DOWNLOADED_COL :: int where "MN_DOWNLOADED_COL = 2"
definition MN_PROGRESS_COL :: int where "MN_PROGRESS_COL = 3"
definition MN_UPSPEED_COL :: int where "MN_UPSPEED_COL = 4"
definition MN_DOWNSPEED_COL :: int where "MN_DOWNSPEED_COL = 5"
definition MN_SEEDERS_COL :: int where "MN_SEEDERS_COL = 6"
definition MN_LEECHERS_COL :: int where "MN_LEECHERS_COL = 7"
definition MN_STATUS_COL :: int where "MN_STATUS_COL = 8"
definition MN_DESTINATION_COL :: int where "MN_DESTINATION_COL = 9"
definition MN_URL_COL :: int where "MN_URL_COL = 10"
definition MN_HIDDEN_UNIQUE_ID :: int where "MN_HIDDEN_UNIQUE_ID = 11"

named_theorems column_numbers \<open>the column constants as numbers\<close>

lemmas MN_col_defs [column_numbers] =
  MN_COL_COUNT_def MN_FILENAME_COL_def MN_FILESIZE_COL_def MN_DOWNLOADED_COL_def
  MN_PROGRESS_COL_def MN_UPSPEED_COL_def MN_DOWNSPEED_COL_def MN_SEEDERS_COL_def
  MN_LEECHERS_COL_def MN_STATUS_COL_def MN_DESTINATION_COL_def MN_URL_COL_def
  MN_HIDDEN_UNIQUE_ID_def

lemma distinct_curl_item_keys [simp]: "distinct curl_item_keys"
  by (simp add: curl_item_keys_def)

lemma distinct_torrent_item_keys [simp]: "distinct torrent_item_keys"
  by (simp add: torrent_item_keys_def)

lemma item_keys_clean:
  "k \<in> set curl_item_keys \<Longrightarrow> UNDERSCORE \<notin> set k"
  "k \<in> set torrent_item_keys \<Longrightarrow> UNDERSCORE \<notin> set k"
  by (auto simp: curl_item_keys_def torrent_item_keys_def)

end
