(* ===== verification/Csv_Reader.thy ===== *)
theory Csv_Reader
  imports Defaults
begin

text \<open>
  The comma-separated-value parser \<open>GkCsvReader\<close> (\<open>src/csv.hpp\<close>, \<open>src/csv.cpp\<close>) that every
  multi-valued entry of the database is read with. The class keeps three members \<open>static\<close>
  (\<open>rows_parsed\<close>, \<open>ret_parsed_cols\<close>, \<open>proc_cols\<close>): they are shared by all readers and are the
  state the operations here run on; the members of one reader are its record. The recursive
  mutex is left out: one thread always gets it.
\<close>

section \<open>State\<close>

record csv_static =
  st_rows_parsed :: nat
  st_ret_parsed_cols :: nat
  st_proc_cols :: "(nat \<times> nat) list"

record csv_reader =
  cr_raw :: string
  cr_cols_count :: nat
  cr_rows_count :: nat
  cr_key :: bool
  cr_headers :: "string list"
  cr_data :: "(nat \<times> nat \<times> string) list"

section \<open>Parsing the text\<close>

text \<open>\<open>read_rows\<close>: carriage returns go if the text has a CR-LF anywhere; a text without any line
  feed is refused.\<close>

definition normalise_line_ends :: "string \<Rightarrow> exn + string" where
  "normalise_line_ends raw =
     (if contains [CR, LF] raw then Inr (filter (\<lambda>c. c \<noteq> CR) raw)
      else if \<not> contains [LF] raw then Inl (Invalid_argument ''no suitable line-endings'')
      else Inr raw)"

definition read_rows :: "csv_reader \<Rightarrow> string \<Rightarrow> exn + string list \<times> csv_reader" where
  "read_rows rd raw =
     (if raw = [] then Inr ([], rd)
      else case normalise_line_ends raw of
             Inl e \<Rightarrow> Inl e
           | Inr txt \<Rightarrow>
               let rows = getlines LF txt; n = length rows
               in Inr (rows, rd\<lparr>cr_rows_count := if cr_key rd then n else n - 1\<rparr>))"

text \<open>The columns of one row are numbered from 1; past the last column the count starts again.\<close>

fun number_columns :: "nat \<Rightarrow> nat \<Rightarrow> string list \<Rightarrow> (nat \<times> string) list" where
  "number_columns cols col [] = []"
| "number_columns cols col (csv # rest) =
     (let col' = Suc (if cols \<le> col then 0 else col)
      in (col', csv) # number_columns cols col' rest)"

definition parse_row :: "nat \<Rightarrow> nat \<Rightarrow> string \<Rightarrow> (nat \<times> nat \<times> string) list" where
  "parse_row cols row line = map (Pair row) (number_columns cols 0 (getlines COMMA line))"

text \<open>\<open>parse_csv\<close>: the multimap from row number to column and text, in insertion order. With
  headers (\<open>key\<close> false) the first row is left out and the second is row 1.\<close>

definition parse_csv :: "csv_reader \<Rightarrow> exn + (nat \<times> nat \<times> string) list \<times> csv_reader" where
  "parse_csv rd =
     (case read_rows rd (cr_raw rd) of
        Inl e \<Rightarrow> Inl e
      | Inr (rows, rd') \<Rightarrow>
          let start_row = (if cr_key rd then 0 else 1)
          in Inr (concat (map (\<lambda>i. parse_row (cr_cols_count rd) (Suc i - start_row) (rows ! i))
                    [start_row..<length rows]), rd'))"

section \<open>The constructor\<close>

text \<open>
  The constructor resets the shared members, also for the readers already in use. An empty text
  gives a reader without data, in which \<open>key\<close> is false.
\<close>

definition csv_open :: "bool \<Rightarrow> string \<Rightarrow> string list \<Rightarrow> (csv_static, csv_reader) prog" where
  "csv_open key data hdrs =
     (if data \<noteq> [] then
        seqp (modifyp (\<lambda>st. st\<lparr>st_rows_parsed := 0, st_ret_parsed_cols := 0, st_proc_cols := []\<rparr>))
          (liftp (let rd = \<lparr>cr_raw = data, cr_cols_count = length hdrs, cr_rows_count = 0,
                            cr_key = key, cr_headers = hdrs, cr_data = []\<rparr>
                  in case parse_csv rd of
                       Inl e \<Rightarrow> Inl e
                     | Inr (d, rd') \<Rightarrow> Inr (rd'\<lparr>cr_data := d\<rparr>)))
      else
        seqp (modifyp (\<lambda>st. st\<lparr>st_rows_parsed := 0, st_ret_parsed_cols := 0\<rparr>))
          (ret \<lparr>cr_raw = [], cr_cols_count = length hdrs, cr_rows_count = 0, cr_key = False,
                cr_headers = [], cr_data = []\<rparr>))"

section \<open>Columns and reloading\<close>

definition split_values :: "string \<Rightarrow> (nat \<times> string) list" where
  "split_values line = (let ps = getlines COMMA line in zip [1..<Suc (length ps)] ps)"

definition has_column :: "csv_reader \<Rightarrow> string \<Rightarrow> exn + bool" where
  "has_column rd name =
     (if cr_key rd then Inr (name \<in> set (cr_headers rd))
      else case read_rows rd (cr_raw rd) of
             Inl e \<Rightarrow> Inl e
           | Inr (rows, _) \<Rightarrow>
               Inr (case rows of [] \<Rightarrow> False | r # _ \<Rightarrow> name \<in> snd ` set (split_values r)))"

text \<open>\<open>!csv.has_column(a) || !csv.has_column(b) || \<dots>\<close>\<close>

fun lacks_column :: "csv_reader \<Rightarrow> string list \<Rightarrow> exn + bool" where
  "lacks_column rd [] = Inr False"
| "lacks_column rd (h # hs) =
     (case has_column rd h of
        Inl e \<Rightarrow> Inl e
      | Inr b \<Rightarrow> if \<not> b then Inr True else lacks_column rd hs)"

definition determine_column :: "csv_reader \<Rightarrow> string \<Rightarrow> exn + int" where
  "determine_column rd header =
     (case read_rows rd (cr_raw rd) of
        Inl e \<Rightarrow> Inl e
      | Inr (rows, _) \<Rightarrow>
          Inr (case rows of
                 [] \<Rightarrow> - 1
               | r # _ \<Rightarrow> (case find (\<lambda>(c, v). v = header) (split_values r) of
                            None \<Rightarrow> - 1
                          | Some (c, _) \<Rightarrow> int c)))"

definition force_cache_reload :: "csv_reader \<Rightarrow> (csv_static, bool \<times> csv_reader) prog" where
  "force_cache_reload rd =
     seqp (modifyp (\<lambda>st. st\<lparr>st_rows_parsed := 0, st_ret_parsed_cols := 0, st_proc_cols := []\<rparr>))
       (liftp (case parse_csv rd of
                 Inl e \<Rightarrow> Inl e
               | Inr (d, rd') \<Rightarrow> Inr (d \<noteq> [], rd'\<lparr>cr_data := d\<rparr>)))"

section \<open>One cell\<close>

text \<open>
  The body of \<open>read_csv_helper\<close>'s outer loop: walk the multimap. The walk answers with the empty
  string when the cell was read before, with its text when it is found (and the cell counts as
  read if the text is not empty), and with nothing when no entry decides.
\<close>

fun scan_cells :: "(nat \<times> nat) list \<Rightarrow> nat \<Rightarrow> nat \<Rightarrow> (nat \<times> nat \<times> string) list \<Rightarrow>
    (string \<times> (nat \<times> nat) list) option" where
  "scan_cells proc row col [] = None"
| "scan_cells proc row col ((r, c, csv) # rest) =
     (if (row, col) \<notin> set proc then
        (if r = row \<and> c = col then
           (if csv \<noteq> [] then Some (csv, (row, col) # proc) else Some ([], proc))
         else scan_cells proc row col rest)
      else Some ([], proc))"

text \<open>The outer loop's condition does not change inside it, so a walk that decides nothing is
  repeated for ever.\<close>

partial_function (option) helper_loop ::
    "nat \<Rightarrow> (nat \<times> nat) list \<Rightarrow> nat \<Rightarrow> nat \<Rightarrow> (nat \<times> nat \<times> string) list \<Rightarrow>
      (string \<times> (nat \<times> nat) list) option" where
  "helper_loop cols proc row col data =
     (if col \<le> cols then
        (case scan_cells proc row col data of
           Some r \<Rightarrow> Some r
         | None \<Rightarrow> helper_loop cols proc row col data)
      else Some ([], proc))"

text \<open>\<open>read_csv_helper\<close>, for the row after the ones already parsed.\<close>

definition read_csv_helper :: "csv_reader \<Rightarrow> nat \<Rightarrow> nat \<Rightarrow> (csv_static, string) prog" where
  "read_csv_helper rd col row =
     (\<lambda>st. if col = 0 \<or> row = 0 then ret [] st
           else if cr_data rd \<noteq> [] \<and> row \<le> cr_rows_count rd then
             (case helper_loop (cr_cols_count rd) (st_proc_cols st) row col (cr_data rd) of
                None \<Rightarrow> hang st
              | Some (d, proc) \<Rightarrow> ret d (st\<lparr>st_proc_cols := proc\<rparr>))
           else ret [] st)"

section \<open>One row\<close>

text \<open>
  \<open>read_row(T& col, ColTypes&... cols)\<close> is one template instance per number of arguments, the
  instance for \<open>n + 1\<close> calling the one for \<open>n\<close>. The arguments are the list \<open>vs\<close>; the calls
  return their new values. The loop visits every column; a cell with text goes to the first
  argument and the others are handed on.
\<close>

fun row_loop :: "(string list \<Rightarrow> (csv_static, bool \<times> string list) prog) \<Rightarrow> csv_reader \<Rightarrow> nat list \<Rightarrow>
    string list \<Rightarrow> (csv_static, string list) prog" where
  "row_loop rest rd [] vs = ret vs"
| "row_loop rest rd (c # cs) vs =
     bindp (getp st_rows_parsed) (\<lambda>n.
     bindp (read_csv_helper rd c (n + 1)) (\<lambda>col_data.
     if col_data \<noteq> [] then
       bindp (rest (tl vs)) (\<lambda>(_, vs'). row_loop rest rd cs (col_data # vs'))
     else row_loop rest rd cs vs))"

definition row_step :: "(string list \<Rightarrow> (csv_static, bool \<times> string list) prog) \<Rightarrow> csv_reader \<Rightarrow>
    string list \<Rightarrow> (csv_static, bool \<times> string list) prog" where
  "row_step rest rd vs =
     bindp (getp st_rows_parsed) (\<lambda>n.
     if cr_data rd \<noteq> [] \<and> n \<le> cr_rows_count rd then
       bindp (row_loop rest rd [1..<Suc (cr_cols_count rd)] vs) (\<lambda>vs'.
       bindp (getp st_ret_parsed_cols) (\<lambda>k.
       if k = cr_cols_count rd - 1 then
         seqp (modifyp (\<lambda>st. st\<lparr>st_ret_parsed_cols := 0, st_rows_parsed := Suc (st_rows_parsed st)\<rparr>))
           (ret (True, vs'))
       else
         seqp (modifyp (\<lambda>st. st\<lparr>st_ret_parsed_cols := Suc (st_ret_parsed_cols st)\<rparr>))
           (ret (False, vs'))))
     else
       seqp (modifyp (\<lambda>st. st\<lparr>st_ret_parsed_cols := Suc (st_ret_parsed_cols st)\<rparr>))
         (ret (False, vs)))"

primrec read_row_n :: "nat \<Rightarrow> csv_reader \<Rightarrow> string list \<Rightarrow> (csv_static, bool \<times> string list) prog" where
  "read_row_n 0 rd vs = ret (False, vs)"
| "read_row_n (Suc n) rd vs = row_step (read_row_n n rd) rd vs"

definition read_row :: "csv_reader \<Rightarrow> string list \<Rightarrow> (csv_static, bool \<times> string list) prog" where
  "read_row rd vs = read_row_n (length vs) rd vs"

text \<open>
  \<open>while (csv.read_row(a, b, \<dots>))\<close>, collecting what each round leaves in the arguments. A round
  that goes on has moved to the next row, so one more round than there are rows is enough.
\<close>

fun read_all :: "nat \<Rightarrow> csv_reader \<Rightarrow> string list \<Rightarrow> (csv_static, string list list) prog" where
  "read_all 0 rd vs = hang"
| "read_all (Suc fuel) rd vs =
     bindp (read_row rd vs) (\<lambda>(more, vs').
     if more then bindp (read_all fuel rd vs') (\<lambda>rows. ret (vs' # rows))
     else ret [])"

definition csv_rows :: "csv_reader \<Rightarrow> string list \<Rightarrow> (csv_static, string list list) prog" where
  "csv_rows rd vs = read_all (Suc (Suc (cr_rows_count rd))) rd vs"

section \<open>Cells\<close>

definition cell :: "csv_reader \<Rightarrow> nat \<Rightarrow> nat \<Rightarrow> string option" where
  "cell rd row col = map_of (map (\<lambda>(r, c, csv). ((r, c), csv)) (cr_data rd)) (row, col)"

lemma scan_cells_cases:
  "data \<noteq> [] \<Longrightarrow> scan_cells proc row col data =
     (if (row, col) \<in> set proc then Some ([], proc)
      else case map_of (map (\<lambda>(r, c, csv). ((r, c), csv)) data) (row, col) of
             None \<Rightarrow> None
           | Some csv \<Rightarrow> Some (if csv = [] then ([], proc) else (csv, (row, col) # proc)))"
proof (induction proc row col data rule: scan_cells.induct)
  case (2 proc row col r c csv rest)
  then show ?case by (cases "rest = []") (auto split: option.splits)
qed simp

lemma helper_loop_decided:
  "col \<le> cols \<Longrightarrow> scan_cells proc row col data = Some r \<Longrightarrow> helper_loop cols proc row col data = Some r"
  by (subst helper_loop.simps) simp

text \<open>A walk that decides nothing is never left.\<close>

lemma helper_loop_undecided:
  assumes "col \<le> cols" and "scan_cells proc row col data = None"
  shows "helper_loop cols proc row col data = None"
proof (rule ccontr)
  assume "helper_loop cols proc row col data \<noteq> None"
  then obtain y where y: "helper_loop cols proc row col data = Some y" by blast
  have "col \<le> cols \<longrightarrow> scan_cells proc row col data \<noteq> None"
  proof (rule helper_loop.raw_induct [where P =
        "\<lambda>cols proc row col data y. col \<le> cols \<longrightarrow> scan_cells proc row col data \<noteq> None", OF _ y])
    fix f cols proc row col data y
    assume IH: "\<And>cols proc row col data y. f cols proc row col data = Some y \<Longrightarrow>
        col \<le> cols \<longrightarrow> scan_cells proc row col data \<noteq> None"
      and eq: "(if col \<le> cols then case scan_cells proc row col data of
              None \<Rightarrow> f cols proc row col data | Some r \<Rightarrow> Some r
            else Some ([], proc)) = Some y"
    show "col \<le> cols \<longrightarrow> scan_cells proc row col data \<noteq> None"
    proof (cases "scan_cells proc row col data")
      case None
      show ?thesis
      proof
        assume "col \<le> cols"
        with eq None have "f cols proc row col data = Some y" by simp
        from IH [OF this] \<open>col \<le> cols\<close> show "scan_cells proc row col data \<noteq> None" by blast
      qed
    qed simp
  qed
  with assms show False by blast
qed

lemma read_csv_helper_cases:
  assumes "cr_data rd \<noteq> []" and "0 < row" and "row \<le> cr_rows_count rd"
    and "0 < col" and "col \<le> cr_cols_count rd"
  shows "read_csv_helper rd col row st =
     (if (row, col) \<in> set (st_proc_cols st) then (Ok [], st)
      else case cell rd row col of
             None \<Rightarrow> (Hang, st)
           | Some csv \<Rightarrow>
               if csv = [] then (Ok [], st)
               else (Ok csv, st\<lparr>st_proc_cols := (row, col) # st_proc_cols st\<rparr>))"
proof (cases "scan_cells (st_proc_cols st) row col (cr_data rd)")
  case None
  with assms have "helper_loop (cr_cols_count rd) (st_proc_cols st) row col (cr_data rd) = None"
    by (intro helper_loop_undecided)
  with assms None show ?thesis
    by (auto simp: read_csv_helper_def scan_cells_cases cell_def split: if_splits option.splits)
next
  case (Some r)
  with assms have "helper_loop (cr_cols_count rd) (st_proc_cols st) row col (cr_data rd) = Some r"
    by (intro helper_loop_decided)
  with assms Some show ?thesis
    by (auto simp: read_csv_helper_def scan_cells_cases cell_def split: if_splits option.splits)
qed

lemma read_csv_helper_past:
  "cr_rows_count rd < row \<Longrightarrow> read_csv_helper rd col row st = (Ok [], st)"
  by (simp add: read_csv_helper_def)

section \<open>One row, cell by cell\<close>

definition dead :: "csv_reader \<Rightarrow> csv_static \<Rightarrow> nat \<Rightarrow> bool" where
  "dead rd st c \<longleftrightarrow>
     (let row = Suc (st_rows_parsed st)
      in (row, c) \<in> set (st_proc_cols st) \<or> cell rd row c = Some [])"

definition alive :: "csv_reader \<Rightarrow> csv_static \<Rightarrow> nat list" where
  "alive rd st = filter (\<lambda>c. \<not> dead rd st c) [1..<Suc (cr_cols_count rd)]"

definition current_row :: "csv_reader \<Rightarrow> csv_static \<Rightarrow> bool" where
  "current_row rd st \<longleftrightarrow> cr_data rd \<noteq> [] \<and> Suc (st_rows_parsed st) \<le> cr_rows_count rd"

definition mark :: "nat list \<Rightarrow> csv_static \<Rightarrow> csv_static" where
  "mark cs st = st\<lparr>st_proc_cols := rev (map (Pair (Suc (st_rows_parsed st))) cs) @ st_proc_cols st\<rparr>"

abbreviation texts :: "csv_reader \<Rightarrow> csv_static \<Rightarrow> nat list \<Rightarrow> string list" where
  "texts rd st cs \<equiv> map (\<lambda>c. the (cell rd (Suc (st_rows_parsed st)) c)) cs"

lemma mark_simps [simp]:
  "st_rows_parsed (mark cs st) = st_rows_parsed st"
  "st_ret_parsed_cols (mark cs st) = st_ret_parsed_cols st"
  "mark [] st = st" "mark cs (mark [c] st) = mark (c # cs) st"
  by (simp_all add: mark_def)

lemma dead_mark [simp]: "dead rd (mark cs st) c \<longleftrightarrow> c \<in> set cs \<or> dead rd st c"
  by (auto simp: dead_def mark_def)

lemma dead_ret [simp]: "dead rd (st\<lparr>st_ret_parsed_cols := k\<rparr>) c \<longleftrightarrow> dead rd st c"
  by (simp add: dead_def)

lemma helper_dead:
  assumes "current_row rd st" and "0 < c" and "c \<le> cr_cols_count rd" and "dead rd st c"
  shows "read_csv_helper rd c (Suc (st_rows_parsed st)) st = (Ok [], st)"
  using assms by (auto simp: current_row_def read_csv_helper_cases dead_def)

lemma helper_alive:
  assumes "current_row rd st" and "0 < c" and "c \<le> cr_cols_count rd" and "\<not> dead rd st c"
    and "cell rd (Suc (st_rows_parsed st)) c = Some csv"
  shows "csv \<noteq> []" and "read_csv_helper rd c (Suc (st_rows_parsed st)) st = (Ok csv, mark [c] st)"
  using assms by (auto simp: current_row_def read_csv_helper_cases dead_def mark_def)

lemma helper_missing:
  assumes "current_row rd st" and "0 < c" and "c \<le> cr_cols_count rd" and "\<not> dead rd st c"
    and "cell rd (Suc (st_rows_parsed st)) c = None"
  shows "read_csv_helper rd c (Suc (st_rows_parsed st)) st = (Hang, st)"
  using assms by (auto simp: current_row_def read_csv_helper_cases dead_def)

lemma row_loop_dead:
  assumes "current_row rd st" and "\<forall>c \<in> set us. 0 < c \<and> c \<le> cr_cols_count rd"
    and "\<forall>c \<in> set us. dead rd st c"
  shows "row_loop rest rd (us @ ws) vs st = row_loop rest rd ws vs st"
  using assms(2,3)
proof (induction us)
  case (Cons u us)
  then show ?case using helper_dead [OF assms(1), of u] by (simp add: prog_simps)
qed simp

lemma row_loop_all_dead:
  assumes "current_row rd st" and "\<forall>c \<in> set us. 0 < c \<and> c \<le> cr_cols_count rd"
    and "\<forall>c \<in> set us. dead rd st c"
  shows "row_loop rest rd us vs st = (Ok vs, st)"
  using row_loop_dead [OF assms, of rest "[]"] by simp

lemma row_loop_alive:
  assumes "current_row rd st" and "alive rd st = c # al"
    and "cell rd (Suc (st_rows_parsed st)) c = Some csv"
  obtains ws where "\<forall>d \<in> set ws. 0 < d \<and> d \<le> cr_cols_count rd"
    and "\<forall>d \<in> set ws. dead rd (mark (c # al) st) d" and "alive rd (mark [c] st) = al"
    and "row_loop rest rd [1..<Suc (cr_cols_count rd)] vs st =
           bindp (rest (tl vs)) (\<lambda>(_, vs'). row_loop rest rd ws (csv # vs')) (mark [c] st)"
proof -
  from assms(2) obtain us ws where split: "[1..<Suc (cr_cols_count rd)] = us @ c # ws"
    and us: "\<forall>u \<in> set us. dead rd st u" and c: "\<not> dead rd st c"
    and al: "al = filter (\<lambda>d. \<not> dead rd st d) ws"
    unfolding alive_def by (auto simp: filter_eq_Cons_iff)
  have dist: "distinct (us @ c # ws)"
    using split distinct_upt [of 1 "Suc (cr_cols_count rd)"] by metis
  have "\<forall>d \<in> set (us @ c # ws). 0 < d \<and> d \<le> cr_cols_count rd"
    unfolding split [symmetric] by auto
  then have sub: "\<forall>d \<in> set us. 0 < d \<and> d \<le> cr_cols_count rd"
    "\<forall>d \<in> set ws. 0 < d \<and> d \<le> cr_cols_count rd" "0 < c" "c \<le> cr_cols_count rd"
    by auto
  from helper_alive [OF assms(1) sub(3,4) c assms(3)]
  have ne: "csv \<noteq> []" and h: "read_csv_helper rd c (Suc (st_rows_parsed st)) st = (Ok csv, mark [c] st)"
    by blast+
  have "row_loop rest rd [1..<Suc (cr_cols_count rd)] vs st = row_loop rest rd (c # ws) vs st"
    by (subst split) (rule row_loop_dead [OF assms(1) sub(1) us])
  also have "\<dots> = bindp (rest (tl vs)) (\<lambda>(_, vs'). row_loop rest rd ws (csv # vs')) (mark [c] st)"
    using ne h by (simp add: prog_simps)
  finally have loop: "row_loop rest rd [1..<Suc (cr_cols_count rd)] vs st = \<dots>" .
  have "alive rd (mark [c] st) = al"
  proof -
    have "filter (\<lambda>d. \<not> dead rd (mark [c] st) d) us = []" using us by simp
    moreover have "filter (\<lambda>d. \<not> dead rd (mark [c] st) d) ws = al"
      using dist al by (auto intro: filter_cong)
    ultimately show ?thesis unfolding alive_def split by simp
  qed
  moreover have "\<forall>d \<in> set ws. dead rd (mark (c # al) st) d" using al by auto
  ultimately show ?thesis using that sub(2) loop by blast
qed

text \<open>
  A template instance that is not the outermost one: it takes over all cells that are left, one
  per argument, and reports false.
\<close>

lemma row_step_alive:
  assumes "current_row rd st" and "alive rd st = c # al"
    and "cell rd (Suc (st_rows_parsed st)) c = Some csv"
    and "rest (tl vs) (mark [c] st) =
           (Ok (b, vs'), (mark al (mark [c] st))\<lparr>st_ret_parsed_cols := k\<rparr>)"
  shows "row_step rest rd vs st =
    (if k = cr_cols_count rd - 1 then
       (Ok (True, csv # vs'), (mark (c # al) st)\<lparr>st_ret_parsed_cols := 0,
          st_rows_parsed := Suc (st_rows_parsed st)\<rparr>)
     else (Ok (False, csv # vs'), (mark (c # al) st)\<lparr>st_ret_parsed_cols := Suc k\<rparr>))"
proof -
  define st2 where "st2 = (mark (c # al) st)\<lparr>st_ret_parsed_cols := k\<rparr>"
  obtain ws where ws: "\<forall>d \<in> set ws. 0 < d \<and> d \<le> cr_cols_count rd"
    and wd: "\<forall>d \<in> set ws. dead rd (mark (c # al) st) d"
    and loop: "row_loop rest rd [1..<Suc (cr_cols_count rd)] vs st =
        bindp (rest (tl vs)) (\<lambda>(_, vs'). row_loop rest rd ws (csv # vs')) (mark [c] st)"
    using row_loop_alive [OF assms(1-3), of rest vs] by metis
  have "current_row rd st2" using assms(1) by (simp add: current_row_def st2_def)
  moreover have "\<forall>d \<in> set ws. dead rd st2 d" using wd by (simp add: st2_def)
  ultimately have "row_loop rest rd ws (csv # vs') st2 = (Ok (csv # vs'), st2)"
    using ws by (intro row_loop_all_dead)
  moreover have "rest (tl vs) (mark [c] st) = (Ok (b, vs'), st2)"
    using assms(4) by (simp add: st2_def)
  ultimately have "row_loop rest rd [1..<Suc (cr_cols_count rd)] vs st = (Ok (csv # vs'), st2)"
    using loop by (simp add: prog_simps)
  with assms(1) show ?thesis
    by (simp add: row_step_def prog_simps current_row_def st2_def)
qed

lemma row_step_none_alive:
  assumes "current_row rd st" and "alive rd st = []"
  shows "row_step rest rd vs st =
    (if st_ret_parsed_cols st = cr_cols_count rd - 1 then
       (Ok (True, vs), st\<lparr>st_ret_parsed_cols := 0, st_rows_parsed := Suc (st_rows_parsed st)\<rparr>)
     else (Ok (False, vs), st\<lparr>st_ret_parsed_cols := Suc (st_ret_parsed_cols st)\<rparr>))"
proof -
  have "row_loop rest rd [1..<Suc (cr_cols_count rd)] vs st = (Ok vs, st)"
    using assms(2) by (intro row_loop_all_dead [OF assms(1)])
      (auto simp: alive_def filter_empty_conv simp del: upt_Suc)
  with assms(1) show ?thesis
    by (simp add: row_step_def prog_simps current_row_def)
qed

lemma read_row_n_inner:
  assumes "current_row rd st" and "st_ret_parsed_cols st = 0"
    and "\<forall>c \<in> set (alive rd st). cell rd (Suc (st_rows_parsed st)) c \<noteq> None"
    and "k < cr_cols_count rd" and "length (alive rd st) \<le> k" and "length vs = k"
  shows "read_row_n k rd vs st =
    (Ok (False, texts rd st (alive rd st) @ drop (length (alive rd st)) vs),
     (mark (alive rd st) st)\<lparr>st_ret_parsed_cols := min k (Suc (length (alive rd st)))\<rparr>)"
  using assms
proof (induction k arbitrary: st vs)
  case 0
  then show ?case by simp
next
  case (Suc k)
  show ?case
  proof (cases "alive rd st")
    case Nil
    with Suc.prems show ?thesis by (simp add: row_step_none_alive)
  next
    case (Cons c al)
    with Suc.prems(3) obtain csv where csv: "cell rd (Suc (st_rows_parsed st)) c = Some csv"
      by auto
    have al: "alive rd (mark [c] st) = al"
      using row_loop_alive [OF Suc.prems(1) Cons csv] by metis
    have cur: "current_row rd (mark [c] st)"
      using Suc.prems(1) by (simp add: current_row_def)
    have "read_row_n k rd (tl vs) (mark [c] st) =
      (Ok (False, texts rd st al @ drop (length al) (tl vs)),
       (mark al (mark [c] st))\<lparr>st_ret_parsed_cols := min k (Suc (length al))\<rparr>)"
      using Suc.IH [OF cur, of "tl vs"] Suc.prems Cons al by simp
    from row_step_alive [where rest = "read_row_n k rd" and vs = vs, OF Suc.prems(1) Cons csv this] Suc.prems Cons csv
    show ?thesis by (auto simp: drop_Suc min_def)
  qed
qed

text \<open>
  The whole row: the cells with text go to the arguments from the left, an empty cell is passed
  over, and the row counts if at most one cell of it is empty.
\<close>

lemma read_row_cells:
  assumes "current_row rd st" and "st_ret_parsed_cols st = 0"
    and "\<forall>c \<in> set (alive rd st). cell rd (Suc (st_rows_parsed st)) c \<noteq> None"
    and "2 \<le> cr_cols_count rd" and "length vs = cr_cols_count rd"
  shows "read_row rd vs st =
    (let al = alive rd st; vs' = texts rd st al @ drop (length al) vs
     in if cr_cols_count rd \<le> Suc (length al) then
          (Ok (True, vs'), (mark al st)\<lparr>st_ret_parsed_cols := 0,
             st_rows_parsed := Suc (st_rows_parsed st)\<rparr>)
        else (Ok (False, vs'), (mark al st)\<lparr>st_ret_parsed_cols := Suc (length al)\<rparr>))"
proof -
  define k where "k = cr_cols_count rd - 1"
  have k: "cr_cols_count rd = Suc k" using assms(4) by (simp add: k_def)
  have le: "length (alive rd st) \<le> Suc k"
    using length_filter_le [of "\<lambda>c. \<not> dead rd st c" "[1..<Suc (cr_cols_count rd)]"]
    unfolding alive_def k by (simp del: upt_Suc)
  show ?thesis
  proof (cases "alive rd st")
    case Nil
    with assms k show ?thesis
      by (simp add: read_row_def row_step_none_alive Let_def)
  next
    case (Cons c al)
    with assms(3) obtain csv where csv: "cell rd (Suc (st_rows_parsed st)) c = Some csv" by auto
    have al: "alive rd (mark [c] st) = al"
      using row_loop_alive [OF assms(1) Cons csv] by metis
    have cur: "current_row rd (mark [c] st)" using assms(1) by (simp add: current_row_def)
    have inner: "read_row_n k rd (tl vs) (mark [c] st) =
      (Ok (False, texts rd st al @ drop (length al) (tl vs)),
       (mark al (mark [c] st))\<lparr>st_ret_parsed_cols := min k (Suc (length al))\<rparr>)"
      using read_row_n_inner [OF cur, of k "tl vs"] assms Cons al le k by simp
    show ?thesis
      using row_step_alive [where rest = "read_row_n k rd" and vs = vs, OF assms(1) Cons csv inner] assms(5) k Cons csv le
      by (auto simp: read_row_def Let_def drop_Suc min_def)
  qed
qed

lemma row_loop_missing:
  assumes "current_row rd st" and "alive rd st = c # al"
    and "cell rd (Suc (st_rows_parsed st)) c = None"
  shows "row_loop rest rd [1..<Suc (cr_cols_count rd)] vs st = (Hang, st)"
proof -
  from assms(2) obtain us ws where split: "[1..<Suc (cr_cols_count rd)] = us @ c # ws"
    and us: "\<forall>u \<in> set us. dead rd st u" and c: "\<not> dead rd st c"
    unfolding alive_def by (auto simp: filter_eq_Cons_iff)
  have "\<forall>d \<in> set (us @ c # ws). 0 < d \<and> d \<le> cr_cols_count rd"
    unfolding split [symmetric] by auto
  then have sub: "\<forall>d \<in> set us. 0 < d \<and> d \<le> cr_cols_count rd" "0 < c" "c \<le> cr_cols_count rd"
    by auto
  have "row_loop rest rd [1..<Suc (cr_cols_count rd)] vs st = row_loop rest rd (c # ws) vs st"
    by (subst split) (rule row_loop_dead [OF assms(1) sub(1) us])
  also have "\<dots> = (Hang, st)"
    using helper_missing [OF assms(1) sub(2,3) c assms(3)] by (simp add: prog_simps)
  finally show ?thesis .
qed

text \<open>A row that lacks a cell is never finished.\<close>

lemma read_row_n_hang:
  assumes "current_row rd st" and "c \<in> set (alive rd st)"
    and "cell rd (Suc (st_rows_parsed st)) c = None" and "length (alive rd st) \<le> k"
  shows "fst (read_row_n k rd vs st) = Hang"
  using assms
proof (induction k arbitrary: st vs)
  case (Suc k)
  then obtain d al where Cons: "alive rd st = d # al" by (cases "alive rd st") auto
  have cond: "cr_data rd \<noteq> []" "st_rows_parsed st \<le> cr_rows_count rd"
    using Suc.prems(1) by (simp_all add: current_row_def)
  show ?case
  proof (cases "cell rd (Suc (st_rows_parsed st)) d")
    case None
    from row_loop_missing [OF Suc.prems(1) Cons None] cond show ?thesis
      by (simp add: row_step_def bindp_Hang del: upt_Suc)
  next
    case (Some csv)
    obtain ws where al: "alive rd (mark [d] st) = al"
      and loop: "row_loop (read_row_n k rd) rd [1..<Suc (cr_cols_count rd)] vs st =
        bindp (read_row_n k rd (tl vs)) (\<lambda>(_, vs'). row_loop (read_row_n k rd) rd ws (csv # vs'))
          (mark [d] st)"
      using row_loop_alive [OF Suc.prems(1) Cons Some] by metis
    have "c \<noteq> d" using Some Suc.prems(3) by auto
    then have "fst (read_row_n k rd (tl vs) (mark [d] st)) = Hang"
      using Suc.prems Cons al by (intro Suc.IH) (auto simp: current_row_def)
    then obtain st' where "read_row_n k rd (tl vs) (mark [d] st) = (Hang, st')"
      by (metis prod.collapse)
    then show ?thesis using loop cond
      by (simp add: row_step_def bindp_Hang del: upt_Suc)
  qed
qed simp

section \<open>The reader against its specification\<close>

text \<open>
  What a reader promises, on the fields of the lines: the texts of a row's first columns go to
  the arguments from the left, empty fields left out; the row counts if at most one was empty;
  the first row that does not count ends the reading; and a row with fewer fields than there
  are columns is read for ever.
\<close>

fun csv_spec :: "nat \<Rightarrow> string list list \<Rightarrow> string list \<Rightarrow> string list list outcome" where
  "csv_spec cols [] vs = Ok []"
| "csv_spec cols (fs # rows) vs =
     (if length fs < cols then Hang
      else let ne = filter (\<lambda>f. f \<noteq> []) (take cols fs); vs' = ne @ drop (length ne) vs
           in if cols \<le> Suc (length ne) then
                (case csv_spec cols rows vs' of
                   Ok rs \<Rightarrow> Ok (vs' # rs) | Throw e \<Rightarrow> Throw e | Hang \<Rightarrow> Hang | Undefined \<Rightarrow> Undefined)
              else Ok [])"

definition csv_text_spec :: "bool \<Rightarrow> nat \<Rightarrow> string \<Rightarrow> string list \<Rightarrow> string list list outcome" where
  "csv_text_spec key cols txt vs =
     (let rows = map (getlines COMMA) (drop (if key then 0 else 1) (getlines LF txt))
      in if concat rows = [] then Ok [] else csv_spec cols rows vs)"

definition reader_holds :: "csv_reader \<Rightarrow> string list list \<Rightarrow> bool" where
  "reader_holds rd fss \<longleftrightarrow> cr_rows_count rd = length fss \<and>
     cr_data rd = concat (map (\<lambda>i. map (Pair (Suc i)) (number_columns (cr_cols_count rd) 0 (fss ! i)))
       [0..<length fss])"

lemma number_columns_lookup:
  "col < c \<Longrightarrow> c \<le> cols \<Longrightarrow> map_of (number_columns cols col fs) c =
     (if c - col \<le> length fs then Some (fs ! (c - Suc col)) else None)"
proof (induction cols col fs rule: number_columns.induct)
  case (2 cols col csv rest)
  show ?case
  proof (cases "c = Suc col")
    case True
    with 2 show ?thesis by (simp add: Let_def)
  next
    case False
    with 2 have "c - Suc col = Suc (c - Suc (Suc col))" by linarith
    with 2 False show ?thesis by (auto simp: Let_def)
  qed
qed simp

lemma number_columns_Nil [simp]: "number_columns cols col fs = [] \<longleftrightarrow> fs = []"
  by (cases fs) (simp_all add: Let_def)

lemma map_of_one_row:
  "map_of (map (\<lambda>(r, c, csv). ((r, c), csv)) (map (Pair i) l)) (r, c) = (if i = r then map_of l c else None)"
  by (induction l) auto

lemma map_of_rows:
  "map_of (map (\<lambda>(r, c, csv). ((r, c), csv)) (concat (map (\<lambda>i. map (Pair (Suc i)) (g i)) is))) (Suc r, c) =
     (if r \<in> set is then map_of (g r) c else None)"
proof (induction "is")
  case (Cons i is')
  show ?case
    by (simp only: list.map concat.simps map_append map_of_append map_add_def Cons map_of_one_row)
      (auto split: option.splits)
qed simp

lemma cell_of_fields:
  "reader_holds rd fss \<Longrightarrow> r < length fss \<Longrightarrow> 0 < c \<Longrightarrow> c \<le> cr_cols_count rd \<Longrightarrow>
     cell rd (Suc r) c = (if c \<le> length (fss ! r) then Some (fss ! r ! (c - 1)) else None)"
  by (simp add: cell_def reader_holds_def map_of_rows number_columns_lookup)

lemma reader_data_Nil:
  "reader_holds rd fss \<Longrightarrow> cr_data rd = [] \<longleftrightarrow> concat fss = []"
  unfolding reader_holds_def concat_eq_Nil_conv all_set_conv_all_nth [of fss]
  by (simp add: image_iff) auto

definition fresh_rows :: "csv_static \<Rightarrow> bool" where
  "fresh_rows st \<longleftrightarrow> st_ret_parsed_cols st = 0 \<and>
     (\<forall>(i, c) \<in> set (st_proc_cols st). i \<le> st_rows_parsed st)"

lemma dead_fresh: "fresh_rows st \<Longrightarrow> dead rd st c \<longleftrightarrow> cell rd (Suc (st_rows_parsed st)) c = Some []"
  by (auto simp: dead_def fresh_rows_def)

lemma fresh_rows_next:
  "fresh_rows st \<Longrightarrow> fresh_rows ((mark al st)\<lparr>st_ret_parsed_cols := 0,
     st_rows_parsed := Suc (st_rows_parsed st)\<rparr>)"
  by (force simp: fresh_rows_def mark_def)

lemma take_as_columns: "cols \<le> length fs \<Longrightarrow> map (\<lambda>c. fs ! (c - 1)) [1..<Suc cols] = take cols fs"
  by (intro nth_equalityI) (auto simp del: upt_Suc)

lemma texts_of_fields:
  assumes "reader_holds rd fss" and "fresh_rows st" and "st_rows_parsed st < length fss"
    and "cr_cols_count rd \<le> length (fss ! st_rows_parsed st)"
  shows "texts rd st (alive rd st) =
      filter (\<lambda>f. f \<noteq> []) (take (cr_cols_count rd) (fss ! st_rows_parsed st))"
    and "\<forall>c \<in> set (alive rd st). cell rd (Suc (st_rows_parsed st)) c \<noteq> None"
proof -
  define fs where "fs = fss ! st_rows_parsed st"
  have cell: "cell rd (Suc (st_rows_parsed st)) c = Some (fs ! (c - 1))"
    if "c \<in> set [1..<Suc (cr_cols_count rd)]" for c
    using cell_of_fields [OF assms(1,3), of c] assms(4) that by (simp add: fs_def del: upt_Suc)
  have alive: "alive rd st = filter (\<lambda>c. fs ! (c - 1) \<noteq> []) [1..<Suc (cr_cols_count rd)]"
    unfolding alive_def using cell by (intro filter_cong) (simp_all add: dead_fresh assms(2) del: upt_Suc)
  then have sub: "set (alive rd st) \<subseteq> set [1..<Suc (cr_cols_count rd)]" by (auto simp del: upt_Suc)
  then have "texts rd st (alive rd st) = map (\<lambda>c. fs ! (c - 1)) (alive rd st)"
    using cell by (intro map_cong) auto
  also have "\<dots> = filter (\<lambda>f. f \<noteq> []) (map (\<lambda>c. fs ! (c - 1)) [1..<Suc (cr_cols_count rd)])"
    unfolding alive by (simp add: filter_map o_def del: upt_Suc)
  also have "\<dots> = filter (\<lambda>f. f \<noteq> []) (take (cr_cols_count rd) fs)"
    by (simp only: take_as_columns [OF assms(4)] fs_def)
  finally show "texts rd st (alive rd st) =
      filter (\<lambda>f. f \<noteq> []) (take (cr_cols_count rd) (fss ! st_rows_parsed st))"
    by (simp add: fs_def)
  show "\<forall>c \<in> set (alive rd st). cell rd (Suc (st_rows_parsed st)) c \<noteq> None"
    using cell sub by auto
qed

text \<open>One round of \<open>while (csv.read_row(\<dots>))\<close>, in terms of the fields.\<close>

lemma read_row_complete:
  assumes "reader_holds rd fss" and "concat fss \<noteq> []" and "2 \<le> cr_cols_count rd"
    and "length vs = cr_cols_count rd" and "fresh_rows st" and "st_rows_parsed st < length fss"
    and "cr_cols_count rd \<le> length (fss ! st_rows_parsed st)"
  shows "\<exists>st'. read_row rd vs st =
    (let ne = filter (\<lambda>f. f \<noteq> []) (take (cr_cols_count rd) (fss ! st_rows_parsed st));
         more = (cr_cols_count rd \<le> Suc (length ne))
     in (Ok (more, ne @ drop (length ne) vs), st')) \<and>
    (cr_cols_count rd \<le> Suc (length (alive rd st)) \<longrightarrow>
       fresh_rows st' \<and> st_rows_parsed st' = Suc (st_rows_parsed st))"
proof -
  have cur: "current_row rd st"
    using assms by (simp add: current_row_def reader_data_Nil) (simp add: reader_holds_def)
  have ret: "st_ret_parsed_cols st = 0" using assms(5) by (simp add: fresh_rows_def)
  note t = texts_of_fields [OF assms(1,5,6,7)]
  have len: "length (filter (\<lambda>f. f \<noteq> []) (take (cr_cols_count rd) (fss ! st_rows_parsed st))) =
      length (alive rd st)"
    using arg_cong [OF t(1), of length] by simp
  show ?thesis
    using read_row_cells [OF cur ret t(2) assms(3,4)] fresh_rows_next [OF assms(5), of "alive rd st"]
    unfolding t(1) [symmetric] by (auto simp: Let_def)
qed

lemma read_row_missing:
  assumes "reader_holds rd fss" and "concat fss \<noteq> []"
    and "length vs = cr_cols_count rd" and "fresh_rows st" and "st_rows_parsed st < length fss"
    and "length (fss ! st_rows_parsed st) < cr_cols_count rd"
  shows "fst (read_row rd vs st) = Hang"
proof -
  have cur: "current_row rd st"
    using assms by (simp add: current_row_def reader_data_Nil) (simp add: reader_holds_def)
  have None: "cell rd (Suc (st_rows_parsed st)) (cr_cols_count rd) = None"
    using cell_of_fields [OF assms(1,5), of "cr_cols_count rd"] assms(6) by auto
  then have "cr_cols_count rd \<in> set (alive rd st)"
    using assms(4,6) by (simp add: alive_def dead_fresh)
  moreover have "length (alive rd st) \<le> cr_cols_count rd"
    using length_filter_le [of "\<lambda>c. \<not> dead rd st c" "[1..<Suc (cr_cols_count rd)]"]
    unfolding alive_def by (simp del: upt_Suc)
  ultimately show ?thesis
    unfolding read_row_def using read_row_n_hang [OF cur _ None] assms(3) by simp
qed

lemma read_row_past:
  assumes "reader_holds rd fss" and "2 \<le> cr_cols_count rd" and "vs \<noteq> []"
    and "st_ret_parsed_cols st = 0" and "length fss \<le> st_rows_parsed st"
  shows "\<exists>st'. read_row rd vs st = (Ok (False, vs), st')"
proof -
  obtain n where n: "length vs = Suc n" using assms(3) by (cases vs) auto
  have "row_loop rest rd cs vs st = (Ok vs, st)" for rest cs
    using assms by (induction cs) (simp_all add: bindp_Ok read_csv_helper_past reader_holds_def)
  then show ?thesis
    using assms(2,4) by (simp add: read_row_def n row_step_def bindp_Ok)
qed

lemma read_row_no_data:
  "cr_data rd = [] \<Longrightarrow> \<exists>st'. read_row rd vs st = (Ok (False, vs), st')"
  by (cases vs) (simp_all add: read_row_def row_step_def)

lemma read_all_spec:
  assumes "reader_holds rd fss" and "concat fss \<noteq> []" and "2 \<le> cr_cols_count rd"
    and "length vs = cr_cols_count rd" and "fresh_rows st"
    and "st_rows_parsed st \<le> length fss" and "length fss - st_rows_parsed st < fuel"
  shows "fst (read_all fuel rd vs st) = csv_spec (cr_cols_count rd) (drop (st_rows_parsed st) fss) vs"
  using assms(4-)
proof (induction fuel arbitrary: vs st)
  case (Suc fuel)
  show ?case
  proof (cases "st_rows_parsed st < length fss")
    case False
    with Suc.prems assms(3) have "vs \<noteq> []" "length fss \<le> st_rows_parsed st"
      "st_ret_parsed_cols st = 0" by (auto simp: fresh_rows_def)
    from read_row_past [OF assms(1,3) this(1,3,2)] obtain st'
      where "read_row rd vs st = (Ok (False, vs), st')" by blast
    with False Suc.prems show ?thesis by (simp add: bindp_Ok)
  next
    case True
    define fs where "fs = fss ! st_rows_parsed st"
    have drop: "drop (st_rows_parsed st) fss = fs # drop (Suc (st_rows_parsed st)) fss"
      using True by (simp add: fs_def Cons_nth_drop_Suc)
    show ?thesis
    proof (cases "length fs < cr_cols_count rd")
      case short: True
      from read_row_missing [OF assms(1,2) Suc.prems(1,2) True] short
      have "fst (read_row rd vs st) = Hang" by (simp add: fs_def)
      then obtain st' where "read_row rd vs st = (Hang, st')" by (metis prod.collapse)
      with drop short show ?thesis by (simp add: bindp_Hang)
    next
      case False
      define ne where "ne = filter (\<lambda>f. f \<noteq> []) (take (cr_cols_count rd) fs)"
      have len: "length ne = length (alive rd st)"
        using arg_cong [OF texts_of_fields(1) [OF assms(1) Suc.prems(2) True], of length] False
        by (simp add: ne_def fs_def)
      obtain st' where r: "read_row rd vs st =
          (Ok (cr_cols_count rd \<le> Suc (length ne), ne @ drop (length ne) vs), st')"
        and st': "cr_cols_count rd \<le> Suc (length ne) \<Longrightarrow>
          fresh_rows st' \<and> st_rows_parsed st' = Suc (st_rows_parsed st)"
        using read_row_complete [OF assms(1-3) Suc.prems(1,2) True] False
        unfolding len by (auto simp: ne_def [symmetric] fs_def [symmetric] Let_def len)
      show ?thesis
      proof (cases "cr_cols_count rd \<le> Suc (length ne)")
        case more: True
        have "length ne \<le> cr_cols_count rd"
          unfolding ne_def by (rule order_trans [OF length_filter_le]) simp
        then have "length (ne @ drop (length ne) vs) = cr_cols_count rd"
          using Suc.prems(1) by simp
        then have IH: "fst (read_all fuel rd (ne @ drop (length ne) vs) st') =
            csv_spec (cr_cols_count rd) (drop (Suc (st_rows_parsed st)) fss) (ne @ drop (length ne) vs)"
          using Suc.IH [of "ne @ drop (length ne) vs" st'] st' [OF more] Suc.prems True by simp
        obtain o' st'' where ra: "read_all fuel rd (ne @ drop (length ne) vs) st' = (o', st'')"
          by (metis prod.collapse)
        from IH ra r drop False more show ?thesis
          by (simp add: bindp_def ne_def [symmetric] Let_def split: outcome.split)
      next
        case stop: False
        with r drop False show ?thesis
          by (simp add: bindp_Ok ne_def [symmetric] Let_def)
      qed
    qed
  qed
qed simp

lemma csv_rows_spec:
  assumes "reader_holds rd fss" and "2 \<le> cr_cols_count rd" and "length vs = cr_cols_count rd"
    and "st_rows_parsed st = 0" and "fresh_rows st"
  shows "fst (csv_rows rd vs st) =
    (if concat fss = [] then Ok [] else csv_spec (cr_cols_count rd) fss vs)"
proof (cases "concat fss = []")
  case True
  then obtain st' where "read_row rd vs st = (Ok (False, vs), st')"
    using read_row_no_data assms(1) reader_data_Nil by blast
  with True show ?thesis by (simp add: csv_rows_def bindp_Ok)
next
  case False
  with read_all_spec [OF assms(1) False assms(2,3,5), of "Suc (Suc (cr_rows_count rd))"] assms(1,4)
  show ?thesis by (auto simp: csv_rows_def reader_holds_def simp del: read_all.simps)
qed

text \<open>The constructor fills the reader with the fields of the lines.\<close>

lemma normalise_has_lines: "raw \<noteq> [] \<Longrightarrow> normalise_line_ends raw = Inr txt \<Longrightarrow> LF \<in> set txt"
  by (auto simp: normalise_line_ends_def split: if_splits dest!: contains_set)

lemma parse_csv_holds:
  assumes "cr_raw rd \<noteq> []" and "normalise_line_ends (cr_raw rd) = Inr txt"
  shows "\<exists>d rd'. parse_csv rd = Inr (d, rd') \<and> cr_cols_count rd' = cr_cols_count rd \<and>
    reader_holds (rd'\<lparr>cr_data := d\<rparr>)
      (map (getlines COMMA) (drop (if cr_key rd then 0 else 1) (getlines LF txt)))"
proof -
  define rows where "rows = getlines LF txt"
  have "txt \<noteq> []" using normalise_has_lines [OF assms] by auto
  then have ne: "rows \<noteq> []" by (subst rows_def, subst getlines.simps) simp
  have key: "concat (map (\<lambda>i. parse_row cols (Suc i - 0) (rows ! i)) [0..<length rows]) =
      concat (map (\<lambda>i. map (Pair (Suc i)) (number_columns cols 0 (map (getlines COMMA) rows ! i)))
        [0..<length (map (getlines COMMA) rows)])" for cols
    by (intro arg_cong [where f = concat] map_cong) (simp_all add: parse_row_def)
  have "[1..<length rows] = map Suc [0..<length (tl rows)]"
    using ne by (cases rows) (simp_all add: map_Suc_upt del: upt_Suc)
  then have no_key: "concat (map (\<lambda>i. parse_row cols (Suc i - 1) (rows ! i)) [1..<length rows]) =
      concat (map (\<lambda>i. map (Pair (Suc i)) (number_columns cols 0 (map (getlines COMMA) (tl rows) ! i)))
        [0..<length (map (getlines COMMA) (tl rows))])" for cols
    by (simp only: map_map length_map)
      (intro arg_cong [where f = concat] map_cong, simp_all add: parse_row_def nth_tl)
  show ?thesis
    using assms ne key no_key
    by (cases "cr_key rd")
      (simp_all add: parse_csv_def read_rows_def reader_holds_def rows_def [symmetric] Let_def drop_Suc)
qed

lemma csv_open_holds:
  assumes "data \<noteq> []" and "normalise_line_ends data = Inr txt"
  obtains rd where "csv_open key data hdrs st =
      (Ok rd, \<lparr>st_rows_parsed = 0, st_ret_parsed_cols = 0, st_proc_cols = []\<rparr>)"
    and "cr_cols_count rd = length hdrs"
    and "reader_holds rd (map (getlines COMMA) (drop (if key then 0 else 1) (getlines LF txt)))"
proof -
  define rd0 where "rd0 = \<lparr>cr_raw = data, cr_cols_count = length hdrs, cr_rows_count = 0,
    cr_key = key, cr_headers = hdrs, cr_data = []\<rparr>"
  have "cr_raw rd0 \<noteq> []" and n: "normalise_line_ends (cr_raw rd0) = Inr txt"
    using assms by (simp_all add: rd0_def)
  from parse_csv_holds [OF this] obtain d rd' where "parse_csv rd0 = Inr (d, rd')"
    and "cr_cols_count rd' = length hdrs"
    and "reader_holds (rd'\<lparr>cr_data := d\<rparr>)
      (map (getlines COMMA) (drop (if key then 0 else 1) (getlines LF txt)))"
    by (auto simp: rd0_def)
  then show ?thesis
    using that [of "rd'\<lparr>cr_data := d\<rparr>"] assms(1) by (simp add: csv_open_def rd0_def [symmetric] Let_def)
qed

lemma csv_reads_lines:
  assumes "data \<noteq> []" and "normalise_line_ends data = Inr txt"
    and "2 \<le> length hdrs" and "length vs = length hdrs"
  shows "fst (bindp (csv_open key data hdrs) (\<lambda>rd. csv_rows rd vs) st) =
    csv_text_spec key (length hdrs) txt vs"
proof -
  obtain rd where o: "csv_open key data hdrs st =
      (Ok rd, \<lparr>st_rows_parsed = 0, st_ret_parsed_cols = 0, st_proc_cols = []\<rparr>)"
    and c: "cr_cols_count rd = length hdrs"
    and h: "reader_holds rd (map (getlines COMMA) (drop (if key then 0 else 1) (getlines LF txt)))"
    using csv_open_holds [OF assms(1,2)] .
  show ?thesis
    using csv_rows_spec [OF h, of vs] assms(3,4) c o
    by (simp add: bindp_Ok csv_text_spec_def fresh_rows_def Let_def)
qed

section \<open>Writing rows and reading them back\<close>

text \<open>What the writers of the sources stream out: the fields of a row with commas between them and
  a line feed after the last one. A clean field is one that CSV without quoting can hold.\<close>

definition csv_line :: "string list \<Rightarrow> string" where
  "csv_line fs = separated COMMA fs @ [LF]"

definition csv_lines :: "string list list \<Rightarrow> string" where
  "csv_lines rows = concat (map csv_line rows)"

definition clean_field :: "string \<Rightarrow> bool" where
  "clean_field f \<longleftrightarrow> f \<noteq> [] \<and> COMMA \<notin> set f \<and> LF \<notin> set f \<and> CR \<notin> set f"

definition clean_rows :: "nat \<Rightarrow> string list list \<Rightarrow> bool" where
  "clean_rows cols rows \<longleftrightarrow> (\<forall>fs \<in> set rows. length fs = cols \<and> list_all clean_field fs)"

lemma csv_lines_Nil [simp]: "csv_lines [] = []"
  and csv_lines_Cons [simp]: "csv_lines (fs # rows) = csv_line fs @ csv_lines rows"
  and csv_lines_append [simp]: "csv_lines (rows @ rows') = csv_lines rows @ csv_lines rows'"
  by (simp_all add: csv_lines_def)

lemma csv_line_length: "length (csv_line fs) = length (concat fs) + (length fs - 1) + 1"
proof -
  have "length (separated COMMA fs) = length (concat fs) + (length fs - 1)"
    by (induction COMMA fs rule: separated.induct) simp_all
  then show ?thesis by (simp add: csv_line_def)
qed

lemma clean_field_to_string [simp]: "clean_field (to_string_int i)"
  by (simp add: clean_field_def csv_text)

lemma clean_rows_simps [simp]:
  "clean_rows cols []"
  "clean_rows cols (fs # rows) \<longleftrightarrow> length fs = cols \<and> list_all clean_field fs \<and> clean_rows cols rows"
  "clean_rows cols (rows @ rows') \<longleftrightarrow> clean_rows cols rows \<and> clean_rows cols rows'"
  by (auto simp: clean_rows_def)

lemma clean_line:
  "list_all clean_field fs \<Longrightarrow> LF \<notin> set (separated COMMA fs)"
  "list_all clean_field fs \<Longrightarrow> CR \<notin> set (separated COMMA fs)"
  using set_separated [of COMMA fs] by (auto simp: clean_field_def list_all_iff)

lemma lines_of_csv_lines:
  "clean_rows cols rows \<Longrightarrow> getlines LF (csv_lines rows) = map (separated COMMA) rows"
  using getlines_terminated [of "map (separated COMMA) rows" LF]
  by (auto simp: csv_lines_def csv_line_def [abs_def] clean_rows_def clean_line o_def)

lemma fields_of_clean_line:
  "list_all clean_field fs \<Longrightarrow> fs \<noteq> [] \<Longrightarrow> getlines COMMA (separated COMMA fs) = fs"
  by (rule getlines_separated) (auto simp: clean_field_def list_all_iff)

lemma fields_of_csv_lines:
  "clean_rows cols rows \<Longrightarrow> 0 < cols \<Longrightarrow>
     map (getlines COMMA) (getlines LF (csv_lines rows)) = rows"
  by (simp add: lines_of_csv_lines, rule map_idI) (auto simp: clean_rows_def fields_of_clean_line)

lemma normalise_csv_lines:
  "clean_rows cols rows \<Longrightarrow> rows \<noteq> [] \<Longrightarrow> normalise_line_ends (csv_lines rows) = Inr (csv_lines rows)"
proof -
  assume c: "clean_rows cols rows" and ne: "rows \<noteq> []"
  have "CR \<notin> set (csv_lines rows)"
    using c by (auto simp: csv_lines_def csv_line_def clean_rows_def clean_line)
  then have "\<not> contains [CR, LF] (csv_lines rows)" using contains_set by fastforce
  moreover have "LF \<in> set (csv_lines rows)" using ne by (cases rows) (simp_all add: csv_line_def)
  ultimately show ?thesis by (simp add: normalise_line_ends_def)
qed

lemma csv_spec_clean:
  "clean_rows cols rows \<Longrightarrow> length vs = cols \<Longrightarrow> csv_spec cols rows vs = Ok rows"
proof (induction rows arbitrary: vs)
  case (Cons fs rows)
  then have "filter (\<lambda>f. f \<noteq> []) fs = fs"
    by (auto simp: clean_field_def list_all_iff intro: filter_True)
  with Cons show ?case by (simp add: Let_def)
qed simp

text \<open>Clean rows are read back as they were written, with the header row or without one.\<close>

lemma csv_clean_roundtrip:
  assumes "clean_rows (length hdrs) rows" and "rows \<noteq> []"
    and "2 \<le> length hdrs" and "length vs = length hdrs"
  shows "fst (bindp (csv_open key (csv_lines rows) hdrs) (\<lambda>rd. csv_rows rd vs) st) =
    Ok (drop (if key then 0 else 1) rows)"
proof -
  have ne: "csv_lines rows \<noteq> []" using assms(2) by (cases rows) (simp_all add: csv_line_def)
  have f: "map (getlines COMMA) (getlines LF (csv_lines rows)) = rows"
    using fields_of_csv_lines [OF assms(1)] assms(3) by linarith
  have "clean_rows (length hdrs) (drop (if key then 0 else 1) rows)"
    using assms(1) by (auto simp: clean_rows_def dest: in_set_dropD)
  moreover from this have "concat (drop (if key then 0 else 1) rows) = [] \<Longrightarrow>
      drop (if key then 0 else 1) rows = []"
    using assms(3) by (cases "drop (if key then 0 else 1) rows") auto
  ultimately show ?thesis
    using csv_spec_clean [of "length hdrs" "drop (if key then 0 else 1) rows" vs] assms(4)
    unfolding csv_reads_lines [OF ne normalise_csv_lines [OF assms(1,2)] assms(3,4)]
    by (cases key) (auto simp: csv_text_spec_def drop_map [symmetric] f Let_def
        simp del: concat_eq_Nil_conv)
qed

lemma has_column_key: "cr_key rd \<Longrightarrow> has_column rd h = Inr (h \<in> set (cr_headers rd))"
  by (simp add: has_column_def)

lemma csv_open_headers:
  "csv_open key data hdrs st = (Ok rd, st') \<Longrightarrow> data \<noteq> [] \<Longrightarrow> cr_key rd = key \<and> cr_headers rd = hdrs"
  by (auto simp: csv_open_def parse_csv_def read_rows_def Let_def split: sum.splits if_splits)

text \<open>C9: Opening a reader on a text and reading all its rows gives what the specification says of
  the text's lines and fields, whatever the shared members held before.\<close>

theorem csv_reads_spec:
  assumes "data \<noteq> []" and "normalise_line_ends data = Inr txt"
    and "2 \<le> length hdrs" and "length vs = length hdrs"
  shows "fst (bindp (csv_open key data hdrs) (\<lambda>rd. csv_rows rd vs) st) =
    csv_text_spec key (length hdrs) txt vs"
  by (rule csv_reads_lines [OF assms])

theorem csv_reads_spec_witness:
  "fst (bindp (csv_open True (''a,,c'' @ [LF] @ ''d,e'' @ [LF]) [''x'', ''y'', ''z''])
      (\<lambda>rd. csv_rows rd [[], [], []]) \<lparr>st_rows_parsed = 3, st_ret_parsed_cols = 1, st_proc_cols = [(1, 1)]\<rparr>) =
   csv_text_spec True 3 (''a,,c'' @ [LF] @ ''d,e'' @ [LF]) [[], [], []]"
  using csv_reads_spec [of "''a,,c'' @ [LF] @ ''d,e'' @ [LF]" _ "[''x'', ''y'', ''z'']" "[[], [], []]" True]
  by (simp add: normalise_line_ends_def numeral_3_eq_3)

text \<open>C15: Clean rows (every row has all the columns, no field is empty or contains a comma, a line feed
  or a carriage return) come back from the reader exactly as they were written, less the header
  row if the reader was opened for a text with one.\<close>

theorem csv_roundtrip:
  assumes "clean_rows (length hdrs) rows" and "rows \<noteq> []"
    and "2 \<le> length hdrs" and "length vs = length hdrs"
  shows "fst (bindp (csv_open key (csv_lines rows) hdrs) (\<lambda>rd. csv_rows rd vs) st) =
    Ok (drop (if key then 0 else 1) rows)"
  by (rule csv_clean_roundtrip [OF assms])

theorem csv_roundtrip_witness:
  "fst (bindp (csv_open False (csv_lines [[''url'', ''tier''], [''http://t'', ''0'']]) [''url'', ''tier''])
      (\<lambda>rd. csv_rows rd [[], []]) \<lparr>st_rows_parsed = 0, st_ret_parsed_cols = 0, st_proc_cols = []\<rparr>) =
   Ok [[''http://t'', ''0'']]"
  using csv_roundtrip [of "[''url'', ''tier'']" "[[''url'', ''tier''], [''http://t'', ''0'']]" "[[], []]" False]
  by (simp add: clean_field_def)

text \<open>A row with fewer fields than the reader has columns is never read to its end: the call does
  not return. An item whose text holds a line feed or ends in an empty field is such a row.\<close>

theorem csv_short_row_hangs:
  assumes "data \<noteq> []" and "normalise_line_ends data = Inr txt" and "getlines LF txt = line # others"
    and "getlines COMMA line \<noteq> []" and "length (getlines COMMA line) < length hdrs"
    and "2 \<le> length hdrs" and "length vs = length hdrs"
  shows "fst (bindp (csv_open True data hdrs) (\<lambda>rd. csv_rows rd vs) st) = Hang"
  using csv_reads_lines [OF assms(1,2,6,7), of True st] assms(3-5)
  by (simp add: csv_text_spec_def)

theorem csv_short_row_hangs_witness:
  "fst (bindp (csv_open True (''1,/tmp/a'' @ [LF] @ ''b,0'' @ [LF]) [''i'', ''p'', ''t''])
      (\<lambda>rd. csv_rows rd [[], [], []]) \<lparr>st_rows_parsed = 0, st_ret_parsed_cols = 0, st_proc_cols = []\<rparr>) = Hang"
proof -
  have "getlines LF (''1,/tmp/a'' @ [LF] @ ''b,0'' @ [LF]) = [''1,/tmp/a'', ''b,0'']"
    by code_simp
  moreover have "getlines COMMA ''1,/tmp/a'' = [''1'', ''/tmp/a'']" by code_simp
  ultimately show ?thesis
    by (intro csv_short_row_hangs [of _ "''1,/tmp/a'' @ [LF] @ ''b,0'' @ [LF]" "''1,/tmp/a''" "[''b,0'']"])
      (simp_all add: normalise_line_ends_def)
qed

end
