(* ===== verification/Leveldb_Store.thy ===== *)
theory Leveldb_Store
  imports Csv_Reader "HOL-Library.Word" "HOL-Library.Multiset"
begin

text \<open>
  The history database as \<open>CmnRoutines\<close> uses it (\<open>src/cmnroutines.cpp\<close>): one LevelDB store with
  string keys and values. What the store promises is the locale \<open>kv_store\<close>; here it is a map
  with a schedule that says which calls fail. On it stand the joined keys and the three item
  operations, and \<open>createId\<close>.

  The record \<open>world\<close> is the state the operations of \<open>CmnRoutines\<close> run on: the store, the shared
  members of the CSV readers, the digits still to come from the random device, the order in
  which an \<open>unordered_map\<close> with the given keys is walked, the message boxes shown so far, the
  mutexes another thread holds (\<open>try_lock\<close> fails on them), the clock in seconds, and the values
  an uninitialised \<open>bool\<close> and an uninitialised integer happen to have.
  The mutexes \<open>db_mutex\<close> and \<open>create_id_mutex\<close> are taken and released inside each operation, so
  an operation is one step and they do not appear.
\<close>

section \<open>State\<close>

datatype db_status = DbOK | DbNotFound | DbIOError

datatype message_box =
    Information string
  | Warning string
  | Critical string

text \<open>The mutexes the item operations take with \<open>try_lock\<close>.\<close>

datatype item_mutex = R_curl | W_curl | R_torrent | W_torrent

record world =
  w_kv :: "string \<Rightarrow> string option"
  w_db_ok :: "nat \<Rightarrow> bool"
  w_db_calls :: nat
  w_csv :: csv_static
  w_random :: "nat \<Rightarrow> nat"
  w_drawn :: nat
  w_bucket_order :: "string list \<Rightarrow> string list"
  w_boxes :: "message_box list"
  w_held :: "item_mutex \<Rightarrow> bool"
  w_now :: int
  w_garbage :: bool
  w_garbage_int :: int

type_synonym ('z, 'a) action = "('z world_scheme, 'a) prog"

definition csvp :: "(csv_static, 'a) prog \<Rightarrow> ('z, 'a) action" where
  "csvp m = (\<lambda>w. let (r, c) = m (w_csv w) in (r, w\<lparr>w_csv := c\<rparr>))"

definition show_box :: "message_box \<Rightarrow> ('z, unit) action" where
  "show_box b = modifyp (\<lambda>w. w\<lparr>w_boxes := w_boxes w @ [b]\<rparr>)"

text \<open>No call to the database fails.\<close>

definition healthy :: "'z world_scheme \<Rightarrow> bool" where
  "healthy w \<longleftrightarrow> (\<forall>n. w_db_ok w n)"

text \<open>An \<open>unordered_map\<close> is walked in some order of its keys.\<close>

definition fair_order :: "'z world_scheme \<Rightarrow> bool" where
  "fair_order w \<longleftrightarrow> (\<forall>ks. mset (w_bucket_order w ks) = mset ks)"

text \<open>The world before anything is stored: an empty database that never fails, nobody holds a mutex.\<close>

definition fresh_world :: "int \<Rightarrow> world" where
  "fresh_world now =
     \<lparr>w_kv = (\<lambda>_. None), w_db_ok = (\<lambda>_. True), w_db_calls = 0,
      w_csv = \<lparr>st_rows_parsed = 0, st_ret_parsed_cols = 0, st_proc_cols = []\<rparr>,
      w_random = (\<lambda>n. n), w_drawn = 0, w_bucket_order = (\<lambda>ks. ks), w_boxes = [],
      w_held = (\<lambda>_. False), w_now = now, w_garbage = False, w_garbage_int = 0\<rparr>"

section \<open>The store\<close>

definition kv_get :: "'z world_scheme \<Rightarrow> string \<Rightarrow> string option" where
  "kv_get w k = w_kv w k"

definition kv_put :: "string \<Rightarrow> string \<Rightarrow> 'z world_scheme \<Rightarrow> 'z world_scheme" where
  "kv_put k v w = w\<lparr>w_kv := (w_kv w)(k \<mapsto> v)\<rparr>"

definition kv_del :: "string \<Rightarrow> 'z world_scheme \<Rightarrow> 'z world_scheme" where
  "kv_del k w = w\<lparr>w_kv := (w_kv w)(k := None)\<rparr>"

definition db_tick :: "'z world_scheme \<Rightarrow> 'z world_scheme" where
  "db_tick w = w\<lparr>w_db_calls := Suc (w_db_calls w)\<rparr>"

definition db_up :: "'z world_scheme \<Rightarrow> bool" where
  "db_up w = w_db_ok w (w_db_calls w)"

text \<open>\<open>DB::Get\<close> into an empty string: the string stays empty unless the call succeeds.\<close>

definition db_get :: "string \<Rightarrow> ('z, db_status \<times> string) action" where
  "db_get k = (\<lambda>w. if db_up w then
      (case kv_get w k of
         None \<Rightarrow> ret (DbNotFound, []) (db_tick w)
       | Some v \<Rightarrow> ret (DbOK, v) (db_tick w))
    else ret (DbIOError, []) (db_tick w))"

text \<open>\<open>WriteBatch\<close> and \<open>DB::Write\<close>: all of the batch, in its order, or nothing.\<close>

datatype batch_op = Delete string | Put string string

fun apply_op :: "batch_op \<Rightarrow> 'z world_scheme \<Rightarrow> 'z world_scheme" where
  "apply_op (Delete k) w = kv_del k w"
| "apply_op (Put k v) w = kv_put k v w"

definition db_write :: "batch_op list \<Rightarrow> ('z, db_status) action" where
  "db_write ops = (\<lambda>w. if db_up w then ret DbOK (db_tick (fold apply_op ops w))
     else ret DbIOError (db_tick w))"

section \<open>The contract of a store\<close>

locale kv_store =
  fixes get :: "'s \<Rightarrow> 'k \<Rightarrow> 'v option"
    and put :: "'k \<Rightarrow> 'v \<Rightarrow> 's \<Rightarrow> 's"
    and del :: "'k \<Rightarrow> 's \<Rightarrow> 's"
  assumes get_put: "get (put k v s) k' = (if k' = k then Some v else get s k')"
    and get_del: "get (del k s) k' = (if k' = k then None else get s k')"
begin

definition put_all :: "('k \<times> 'v) list \<Rightarrow> 's \<Rightarrow> 's" where
  "put_all kvs s = fold (\<lambda>(k, v). put k v) kvs s"

definition del_all :: "'k list \<Rightarrow> 's \<Rightarrow> 's" where
  "del_all ks s = fold del ks s"

text \<open>Deleting a key before it is written again changes nothing that can be read.\<close>

lemma get_put_del: "get (put k v (del k s)) k' = get (put k v s) k'"
  by (simp add: get_put get_del)

text \<open>After a sequence of writes a key has the value written last.\<close>

lemma get_put_all:
  "get (put_all kvs s) k = (case map_of (rev kvs) k of Some v \<Rightarrow> Some v | None \<Rightarrow> get s k)"
  by (induction kvs arbitrary: s) (auto simp: put_all_def get_put map_add_def split: option.splits)

lemma get_del_all: "get (del_all ks s) k = (if k \<in> set ks then None else get s k)"
  by (induction ks arbitrary: s) (auto simp: del_all_def get_del)

end

interpretation kv: kv_store kv_get kv_put kv_del
  by unfold_locales (auto simp: kv_get_def kv_put_def kv_del_def)

section \<open>The item operations\<close>

definition multipart_key :: "string list \<Rightarrow> string" where
  "multipart_key args = separated UNDERSCORE args"

definition add_item_db :: "string \<Rightarrow> string \<Rightarrow> string \<Rightarrow> ('z, unit) action" where
  "add_item_db download_id key value =
     (let key_joined = multipart_key [download_id, key]
      in bindp (db_write [Delete key_joined, Put key_joined value]) (\<lambda>s.
         if s \<noteq> DbOK then raise (Runtime_error ''add_item_db'') else ret ()))"

definition del_item_db :: "string \<Rightarrow> string \<Rightarrow> ('z, unit) action" where
  "del_item_db download_id key =
     bindp (db_write [Delete (multipart_key [download_id, key])]) (\<lambda>s.
     if s \<noteq> DbOK then raise (Runtime_error ''del_item_db'') else ret ())"

definition read_item_db :: "string \<Rightarrow> string \<Rightarrow> ('z, string) action" where
  "read_item_db download_id key =
     bindp (db_get (multipart_key [download_id, key])) (\<lambda>(s, read_data).
     if s \<noteq> DbOK then raise (Runtime_error ''read_item_db'') else ret read_data)"

section \<open>Unique identifiers\<close>

text \<open>\<open>dist10(rng)\<close>, a digit; and \<open>createId\<close>, whose loop bound is a \<open>size_t\<close>.\<close>

definition draw_digit :: "('z, nat) action" where
  "draw_digit = (\<lambda>w. ret (w_random w (w_drawn w) mod 10) (w\<lparr>w_drawn := Suc (w_drawn w)\<rparr>))"

primrec draw_digits :: "nat \<Rightarrow> ('z, string) action" where
  "draw_digits 0 = ret []"
| "draw_digits (Suc n) = bindp draw_digit (\<lambda>d. bindp (draw_digits n) (\<lambda>s. ret (show_nat d @ s)))"

definition createId :: "64 word \<Rightarrow> ('z, string) action" where
  "createId id_length =
     bindp (draw_digits (unat (id_length - 1))) (\<lambda>oss.
     if oss = [] then raise (Invalid_argument ''createId'') else ret oss)"

section \<open>Joined keys\<close>

lemma multipart_key_pair: "multipart_key [a, b] = a @ UNDERSCORE # b"
  by (simp add: multipart_key_def)

lemma multipart_key_inject:
  "UNDERSCORE \<notin> set a \<Longrightarrow> UNDERSCORE \<notin> set a' \<Longrightarrow>
     multipart_key [a, b] = multipart_key [a', b'] \<longleftrightarrow> a = a' \<and> b = b'"
proof -
  assume a: "UNDERSCORE \<notin> set a" and a': "UNDERSCORE \<notin> set a'"
  have "takeWhile (\<lambda>c. c \<noteq> UNDERSCORE) (s @ UNDERSCORE # t) = s" if "UNDERSCORE \<notin> set s" for s t
    using that by (subst takeWhile_append2) auto
  with a a' show ?thesis unfolding multipart_key_pair by (metis append_Cons same_append_eq list.inject)
qed

lemma multipart_key_not_registry: "multipart_key [a, b] \<noteq> STORE_UNIQUE_ID"
proof
  assume "multipart_key [a, b] = STORE_UNIQUE_ID"
  then have "UNDERSCORE \<in> set STORE_UNIQUE_ID" by (metis in_set_conv_decomp multipart_key_pair)
  then show False by (simp add: STORE_UNIQUE_ID_def)
qed

section \<open>What the operations do\<close>

lemma kv_simps [simp]:
  "kv_get (db_tick w) k = kv_get w k" "kv_get (w\<lparr>w_csv := c\<rparr>) k = kv_get w k"
  "kv_get (w\<lparr>w_drawn := n\<rparr>) k = kv_get w k" "kv_get (w\<lparr>w_boxes := bs\<rparr>) k = kv_get w k"
  by (simp_all add: kv_get_def db_tick_def)

lemma tick_simps [simp]:
  "w_csv (db_tick w) = w_csv w" "w_bucket_order (db_tick w) = w_bucket_order w"
  "w_drawn (db_tick w) = w_drawn w" "w_random (db_tick w) = w_random w"
  "w_boxes (db_tick w) = w_boxes w" "w_held (db_tick w) = w_held w" "w_now (db_tick w) = w_now w"
  "w_garbage (db_tick w) = w_garbage w" "w_garbage_int (db_tick w) = w_garbage_int w" "w_db_ok (db_tick w) = w_db_ok w"
  by (simp_all add: db_tick_def)

lemma put_del_simps [simp]:
  "w_csv (kv_put k v w) = w_csv w" "w_csv (kv_del k w) = w_csv w"
  "w_bucket_order (kv_put k v w) = w_bucket_order w" "w_bucket_order (kv_del k w) = w_bucket_order w"
  "w_boxes (kv_put k v w) = w_boxes w" "w_boxes (kv_del k w) = w_boxes w"
  "w_held (kv_put k v w) = w_held w" "w_held (kv_del k w) = w_held w"
  "w_now (kv_put k v w) = w_now w" "w_now (kv_del k w) = w_now w"
  "w_garbage_int (kv_put k v w) = w_garbage_int w" "w_garbage_int (kv_del k w) = w_garbage_int w"
  "w_garbage (kv_put k v w) = w_garbage w" "w_garbage (kv_del k w) = w_garbage w"
  by (simp_all add: kv_put_def kv_del_def)

lemma healthy_simps [simp]:
  "healthy (db_tick w) = healthy w" "healthy (kv_put k v w) = healthy w"
  "healthy (kv_del k w) = healthy w" "healthy (w\<lparr>w_csv := c\<rparr>) = healthy w"
  "healthy (w\<lparr>w_drawn := n\<rparr>) = healthy w" "healthy (w\<lparr>w_boxes := bs\<rparr>) = healthy w"
  by (simp_all add: healthy_def db_tick_def kv_put_def kv_del_def)

lemma healthy_up [simp]: "healthy w \<Longrightarrow> db_up w"
  by (simp add: healthy_def db_up_def)

lemma fair_simps [simp]:
  "fair_order (db_tick w) = fair_order w" "fair_order (kv_put k v w) = fair_order w"
  "fair_order (kv_del k w) = fair_order w" "fair_order (w\<lparr>w_csv := c\<rparr>) = fair_order w"
  "fair_order (w\<lparr>w_drawn := n\<rparr>) = fair_order w" "fair_order (w\<lparr>w_boxes := bs\<rparr>) = fair_order w"
  by (simp_all add: fair_order_def db_tick_def kv_put_def kv_del_def)

lemma kv_put_del [simp]: "kv_put k v (kv_del k w) = kv_put k v w"
  by (simp add: kv_put_def kv_del_def)

lemma fresh_world_simps [simp]:
  "healthy (fresh_world now)" "fair_order (fresh_world now)" "\<not> w_held (fresh_world now) m"
  "w_now (fresh_world now) = now" "w_boxes (fresh_world now) = []" "kv_get (fresh_world now) k = None"
  by (simp_all add: fresh_world_def healthy_def fair_order_def kv_get_def)

lemma csvp_run: "m (w_csv w) = (r, c) \<Longrightarrow> csvp m w = (r, w\<lparr>w_csv := c\<rparr>)"
  by (simp add: csvp_def)

lemma show_box_run [simp]: "show_box b w = (Ok (), w\<lparr>w_boxes := w_boxes w @ [b]\<rparr>)"
  by (simp add: show_box_def)

lemma db_get_up:
  "db_up w \<Longrightarrow> db_get k w =
     (Ok (case kv_get w k of None \<Rightarrow> (DbNotFound, []) | Some v \<Rightarrow> (DbOK, v)), db_tick w)"
  by (simp add: db_get_def split: option.splits)

lemma add_item_run:
  "add_item_db i k v w =
     (if db_up w then (Ok (), db_tick (kv_put (multipart_key [i, k]) v w))
      else (Throw (Runtime_error ''add_item_db''), db_tick w))"
  by (simp add: add_item_db_def db_write_def bindp_def Let_def)

lemma del_item_run:
  "del_item_db i k w =
     (if db_up w then (Ok (), db_tick (kv_del (multipart_key [i, k]) w))
      else (Throw (Runtime_error ''del_item_db''), db_tick w))"
  by (simp add: del_item_db_def db_write_def bindp_def)

lemma read_item_run:
  "read_item_db i k w =
     (case if db_up w then kv_get w (multipart_key [i, k]) else None of
        Some v \<Rightarrow> (Ok v, db_tick w) | None \<Rightarrow> (Throw (Runtime_error ''read_item_db''), db_tick w))"
  by (simp add: read_item_db_def db_get_def bindp_def split: option.splits)

lemma draw_digits_run:
  "draw_digits n w = (Ok (concat (map (\<lambda>i. show_nat (w_random w (w_drawn w + i) mod 10)) [0..<n])),
     w\<lparr>w_drawn := w_drawn w + n\<rparr>)"
proof (induction n arbitrary: w)
  case (Suc n)
  have "[0..<Suc n] = 0 # map Suc [0..<n]" by (simp add: map_Suc_upt upt_conv_Cons del: upt_Suc)
  then have up: "map (\<lambda>i. show_nat (w_random w (w_drawn w + i) mod 10)) [0..<Suc n] =
      show_nat (w_random w (w_drawn w) mod 10) #
      map (\<lambda>i. show_nat (w_random w (Suc (w_drawn w + i)) mod 10)) [0..<n]"
    by (simp add: o_def del: upt_Suc)
  show ?case unfolding up by (simp add: draw_digit_def bindp_def Suc)
qed simp

section \<open>The environment\<close>

text \<open>No operation changes what the world around the program decides, nor what other parts of the program
  add to the state.\<close>

definition same_env :: "'z world_scheme \<Rightarrow> 'z world_scheme \<Rightarrow> bool" where
  "same_env w w' \<longleftrightarrow> w_db_ok w' = w_db_ok w \<and> w_bucket_order w' = w_bucket_order w \<and>
     w_held w' = w_held w \<and> w_now w' = w_now w \<and> w_garbage w' = w_garbage w \<and>
     w_garbage_int w' = w_garbage_int w \<and> w_random w' = w_random w \<and> world.more w' = world.more w"

interpretation env: frame same_env
  by unfold_locales (auto simp: same_env_def reflp_def transp_def)

lemma same_envD:
  assumes "same_env w w'"
  shows "healthy w' = healthy w" "fair_order w' = fair_order w" "w_held w' = w_held w"
    "w_now w' = w_now w" "w_garbage w' = w_garbage w" "w_bucket_order w' = w_bucket_order w"
    "world.more w' = world.more w"
  using assms by (simp_all add: same_env_def healthy_def fair_order_def)

lemma same_env_simps [simp]:
  "same_env w (db_tick w') = same_env w w'" "same_env w (kv_put k v w') = same_env w w'"
  "same_env w (kv_del k w') = same_env w w'" "same_env w (w'\<lparr>w_csv := c\<rparr>) = same_env w w'"
  "same_env w (w'\<lparr>w_drawn := n\<rparr>) = same_env w w'" "same_env w (w'\<lparr>w_boxes := bs\<rparr>) = same_env w w'"
  "same_env w w"
  by (simp_all add: same_env_def db_tick_def kv_put_def kv_del_def)

lemma same_env_ops: "same_env w (fold apply_op ops w') = same_env w w'"
proof (induction ops arbitrary: w')
  case (Cons op ops)
  then show ?case by (cases op) simp_all
qed simp

named_theorems env_keeps \<open>operations that keep the environment\<close>

lemma env_basic [env_keeps]:
  "preserves same_env (csvp m)" "preserves same_env (show_box b)" "preserves same_env (db_get k)"
  "preserves same_env (db_write ops)" "preserves same_env (add_item_db i k v)"
  "preserves same_env (del_item_db i k)" "preserves same_env (read_item_db i k)"
  "preserves same_env (draw_digits n)" "preserves same_env (createId l)"
proof -
  show d: "preserves same_env (draw_digits n)" for n
    by (simp add: preserves_def draw_digits_run)
  show "preserves same_env (createId l)"
    by (simp add: createId_def env.keeps d)
qed (auto simp: preserves_def csvp_def db_get_def db_write_def add_item_run del_item_run read_item_run
  same_env_ops split: option.splits prod.splits)

lemma env_run: "preserves same_env m \<Longrightarrow> m w = (r, w') \<Longrightarrow> same_env w w'"
  by (rule preservesD)

end
