(* ===== verification/Enum_Conv.thy ===== *)
theory Enum_Conv
  imports Defaults
begin

text \<open>
  The conversions of \<open>CmnRoutines\<close> between the enumerations, the integers stored in the database
  and the texts shown in the table (\<open>src/cmnroutines.cpp\<close>). \<open>tr()\<close> is the identity: the sources
  install no translation.
\<close>

section \<open>Download status\<close>

fun convDlStat_toInt :: "download_status \<Rightarrow> int" where
  "convDlStat_toInt Downloading = 0"
| "convDlStat_toInt Completed = 1"
| "convDlStat_toInt Failed = 2"
| "convDlStat_toInt Paused = 3"
| "convDlStat_toInt Stopped = 4"
| "convDlStat_toInt Unknown = 5"
| "convDlStat_toInt Invalid = 6"

definition convDlStat_IntToEnum :: "int \<Rightarrow> download_status" where
  "convDlStat_IntToEnum s =
     (if s = 0 then Downloading
      else if s = 1 then Completed
      else if s = 2 then Failed
      else if s = 3 then Paused
      else if s = 4 then Stopped
      else if s = 5 then Unknown
      else if s = 6 then Invalid
      else Unknown)"

fun convDlStat_toString :: "download_status \<Rightarrow> string" where
  "convDlStat_toString Downloading = ''Downloading''"
| "convDlStat_toString Completed = ''Completed''"
| "convDlStat_toString Failed = ''Failed''"
| "convDlStat_toString Paused = ''Paused''"
| "convDlStat_toString Stopped = ''Stopped''"
| "convDlStat_toString Unknown = ''Unknown''"
| "convDlStat_toString Invalid = ''Invalid''"

definition convDlStat_StringToEnum :: "string \<Rightarrow> download_status" where
  "convDlStat_StringToEnum status =
     (if status = ''Downloading'' then Downloading
      else if status = ''Completed'' then Completed
      else if status = ''Failed'' then Failed
      else if status = ''Paused'' then Paused
      else if status = ''Stopped'' then Stopped
      else if status = ''Unknown'' then Unknown
      else Unknown)"

section \<open>Hash type\<close>

fun convHashType_toInt :: "hash_type \<Rightarrow> int" where
  "convHashType_toInt MD5 = 1"
| "convHashType_toInt SHA1 = 2"
| "convHashType_toInt SHA256 = 3"
| "convHashType_toInt SHA512 = 4"
| "convHashType_toInt SHA3_256 = 5"
| "convHashType_toInt SHA3_512 = 6"
| "convHashType_toInt HashNone = 0"
| "convHashType_toInt CannotDetermine = - 1"

definition convHashType_IntToEnum :: "int \<Rightarrow> hash_type" where
  "convHashType_IntToEnum t =
     (if t = 1 then MD5
      else if t = 2 then SHA1
      else if t = 3 then SHA256
      else if t = 4 then SHA512
      else if t = 5 then SHA3_256
      else if t = 6 then SHA3_512
      else if t = 0 then HashNone
      else if t = - 1 then CannotDetermine
      else CannotDetermine)"

definition convHashType_StringToEnum :: "string \<Rightarrow> hash_type" where
  "convHashType_StringToEnum hashType =
     (if hashType = ''MD5'' then MD5
      else if hashType = ''SHA-1'' then SHA1
      else if hashType = ''SHA-256'' then SHA256
      else if hashType = ''SHA-512'' then SHA512
      else if hashType = ''SHA3-256'' then SHA3_256
      else if hashType = ''SHA3-512'' then SHA3_512
      else if hashType = ''None'' then HashNone
      else if hashType = ''Unknown'' then CannotDetermine
      else CannotDetermine)"

fun convHashType_toString :: "hash_type \<Rightarrow> string" where
  "convHashType_toString MD5 = ''MD5''"
| "convHashType_toString SHA1 = ''SHA-1''"
| "convHashType_toString SHA256 = ''SHA-256''"
| "convHashType_toString SHA512 = ''SHA-512''"
| "convHashType_toString SHA3_256 = ''SHA3-512''"
| "convHashType_toString SHA3_512 = ''SHA3-512''"
| "convHashType_toString HashNone = ''None''"
| "convHashType_toString CannotDetermine = ''Unknown''"

text \<open>The algorithms of \<open>QCryptographicHash\<close> the program names.\<close>

datatype crypto_algorithm = Md4 | Md5 | Sha1 | Sha256 | Sha512 | Sha3_256 | Sha3_512

fun convHashType_toAlgo :: "hash_type \<Rightarrow> crypto_algorithm" where
  "convHashType_toAlgo MD5 = Md5"
| "convHashType_toAlgo SHA1 = Sha1"
| "convHashType_toAlgo SHA256 = Sha256"
| "convHashType_toAlgo SHA512 = Sha512"
| "convHashType_toAlgo SHA3_256 = Sha3_256"
| "convHashType_toAlgo SHA3_512 = Sha3_512"
| "convHashType_toAlgo HashNone = Md4"
| "convHashType_toAlgo CannotDetermine = Md4"

section \<open>Hash verification\<close>

fun convHashVerif_toInt :: "hash_verif \<Rightarrow> int" where
  "convHashVerif_toInt Analyzing = 1"
| "convHashVerif_toInt NotApplicable = 0"
| "convHashVerif_toInt Verified = 2"
| "convHashVerif_toInt Corrupt = - 1"

definition convHashVerif_IntToEnum :: "int \<Rightarrow> hash_verif" where
  "convHashVerif_IntToEnum v =
     (if v = 1 then Analyzing
      else if v = 0 then NotApplicable
      else if v = 2 then Verified
      else if v = - 1 then Corrupt
      else NotApplicable)"

section \<open>Download type\<close>

fun convDownType_toInt :: "download_type \<Rightarrow> int" where
  "convDownType_toInt HTTP = 0"
| "convDownType_toInt FTP = 1"
| "convDownType_toInt Torrent = 2"
| "convDownType_toInt TorrentMagnetLink = 3"

definition convDownType_StringToEnum :: "string \<Rightarrow> download_type" where
  "convDownType_StringToEnum down_type =
     (if down_type = ''HTTP(S)'' then HTTP
      else if down_type = ''FTP(S)'' then FTP
      else if down_type = ''.torrent'' then Torrent
      else if down_type = ''Magnet link (torrent)'' then TorrentMagnetLink
      else HTTP)"

text \<open>The conditions are the constants \<open>ENUM_GEKKOFYRE_DOWN_TYPE_*\<close> (0, 1, 2 and 3), not
  comparisons with the argument.\<close>

definition convDownType_IntToEnum :: "int \<Rightarrow> download_type" where
  "convDownType_IntToEnum down_int =
     (if convDownType_toInt HTTP \<noteq> 0 then HTTP
      else if convDownType_toInt FTP \<noteq> 0 then FTP
      else if convDownType_toInt Torrent \<noteq> 0 then Torrent
      else if convDownType_toInt TorrentMagnetLink \<noteq> 0 then TorrentMagnetLink
      else HTTP)"

text \<open>\<open>convertBool_fromInt\<close> reports a value that is neither 0 nor 1 on the error stream and reads
  it as false.\<close>

definition convertBool_fromInt :: "int \<Rightarrow> bool" where
  "convertBool_fromInt value = (if value = 0 then False else if value = 1 then True else False)"

lemma convertBool_simps [simp]:
  "convertBool_fromInt 0 = False" "convertBool_fromInt 1 = True"
  by (simp_all add: convertBool_fromInt_def)

lemma convertBool_of_bool [simp]: "convertBool_fromInt (if b then 1 else 0) = b"
  by simp

section \<open>The conversions as encodings\<close>

interpretation dl_stat: codec convDlStat_toInt convDlStat_IntToEnum "\<lambda>_. True"
  by unfold_locales (case_tac x; simp add: convDlStat_IntToEnum_def)

interpretation dl_stat_name: codec convDlStat_toString convDlStat_StringToEnum "\<lambda>s. s \<noteq> Invalid"
  by unfold_locales (case_tac x; simp add: convDlStat_StringToEnum_def)

interpretation hash_type_int: codec convHashType_toInt convHashType_IntToEnum "\<lambda>_. True"
  by unfold_locales (case_tac x; simp add: convHashType_IntToEnum_def)

interpretation hash_verif_int: codec convHashVerif_toInt convHashVerif_IntToEnum "\<lambda>_. True"
  by unfold_locales (case_tac x; simp add: convHashVerif_IntToEnum_def)

interpretation bool_text: codec to_string_bool "\<lambda>s. convertBool_fromInt (atoi s)" "\<lambda>_. True"
  by unfold_locales (case_tac x; simp)

lemma conv_fits32 [simp]:
  "fits32 (convDlStat_toInt s)" "fits32 (convHashType_toInt t)" "fits32 (convHashVerif_toInt v)"
  "fits32 (hash_type_index t)" "fits32 (hash_verif_index v)"
proof -
  show "fits32 (convDlStat_toInt s)" by (cases s) (simp_all add: fits32_def)
  show "fits32 (convHashType_toInt t)" by (cases t) (simp_all add: fits32_def)
  show "fits32 (convHashVerif_toInt v)" by (cases v) (simp_all add: fits32_def)
  show "fits32 (hash_type_index t)" by (cases t) (simp_all add: fits32_def)
  show "fits32 (hash_verif_index v)" by (cases v) (simp_all add: fits32_def)
qed

text \<open>As text in the database: an enumerator as an integer as decimal digits.\<close>

interpretation dl_stat_text: codec_chain convDlStat_toInt convDlStat_IntToEnum "\<lambda>_. True"
    to_string_int atoi fits32
  by unfold_locales simp

interpretation hash_type_text: codec_chain convHashType_toInt convHashType_IntToEnum "\<lambda>_. True"
    to_string_int atoi fits32
  by unfold_locales simp

interpretation hash_verif_text: codec_chain convHashVerif_toInt convHashVerif_IntToEnum "\<lambda>_. True"
    to_string_int atoi fits32
  by unfold_locales simp

end
