(* ===== verification/Id_Registry.thy ===== *)
theory Id_Registry
  imports Leveldb_Store Enum_Conv "HOL-Library.List_Lexorder" "HOL-Library.Char_ord"
begin

text \<open>
  The registry of download identifiers (\<open>src/cmnroutines.cpp\<close>): one database value, CSV rows of
  identifier, path and kind, that every operation reads and rewrites as a whole. The theory
  holds the four operations and what they do to the list of registered entries.
\<close>

section \<open>Containers\<close>

text \<open>\<open>QMap::insert\<close>, which replaces, on the entries in key order; \<open>unordered_map::insert\<close>, which
  does not replace, on the entries in the order they came.\<close>

fun qmap_insert :: "'k::linorder \<Rightarrow> 'v \<Rightarrow> ('k \<times> 'v) list \<Rightarrow> ('k \<times> 'v) list" where
  "qmap_insert k v [] = [(k, v)]"
| "qmap_insert k v ((k', v') # m) =
     (if k = k' then (k, v) # m
      else if k < k' then (k, v) # (k', v') # m
      else (k', v') # qmap_insert k v m)"

definition hash_insert :: "'k \<Rightarrow> 'v \<Rightarrow> ('k \<times> 'v) list \<Rightarrow> ('k \<times> 'v) list" where
  "hash_insert k v m = (if k \<in> fst ` set m then m else m @ [(k, v)])"

section \<open>The operations\<close>

text \<open>The rows of the registry's value, as each operation reads them: a value of 12 bytes or less
  is not parsed. \<open>determine_download_id\<close> first asks for the columns.\<close>

definition registry_rows :: "string list \<Rightarrow> string \<Rightarrow> ('z, string list list) action" where
  "registry_rows required csv_read_data =
     (if csv_read_data \<noteq> [] \<and> CSV_MIN_PARSE_SIZE < length csv_read_data then
        csvp (bindp (csv_open True csv_read_data uid_headers) (\<lambda>csv_reader.
              bindp (liftp (lacks_column csv_reader required)) (\<lambda>lacks.
              if lacks then raise (Invalid_argument ''Information provided from database is invalid!'')
              else csv_rows csv_reader [[], [], []])))
      else ret [])"

definition add_download_id :: "string \<Rightarrow> bool \<Rightarrow> string \<Rightarrow> ('z, string) action" where
  "add_download_id file_path is_torrent override_unique_id =
     bindp (if override_unique_id \<noteq> [] then ret override_unique_id
            else createId (of_nat UNIQUE_ID_DIGIT_COUNT)) (\<lambda>key.
     bindp (db_get STORE_UNIQUE_ID) (\<lambda>(_, csv_read_data).
     bindp (registry_rows [] csv_read_data) (\<lambda>rows.
     let csv_out = csv_lines (map (\<lambda>r. [r ! 0, r ! 1, r ! 2])
                     (filter (\<lambda>r. r ! 0 \<noteq> [] \<and> r ! 1 \<noteq> []) rows))
     in bindp (db_write [Delete STORE_UNIQUE_ID,
              Put STORE_UNIQUE_ID (csv_out @ csv_line [key, file_path, to_string_bool is_torrent])])
          (\<lambda>s. if s \<noteq> DbOK then raise (Runtime_error ''add_download_id'') else ret key))))"

text \<open>One round of the loop in \<open>extract_download_ids\<close>.\<close>

definition extract_step :: "bool \<Rightarrow> string list \<Rightarrow> (string \<times> string \<times> bool) list \<Rightarrow>
    (string \<times> string \<times> bool) list" where
  "extract_step torrentsOnly r cache =
     (let is_torrent_csv = convertBool_fromInt (atoi (r ! 2));
          entry = (r ! 1, convertBool_fromInt (if is_torrent_csv then 1 else 0));
          cache = (if torrentsOnly then
                     (if is_torrent_csv then hash_insert (r ! 0) entry cache else cache)
                   else cache)
      in if \<not> torrentsOnly then
           (if \<not> is_torrent_csv then hash_insert (r ! 0) entry cache else cache)
         else cache)"

definition extract_download_ids :: "bool \<Rightarrow> ('z, (string \<times> string \<times> bool) list) action" where
  "extract_download_ids torrentsOnly =
     bindp (db_get STORE_UNIQUE_ID) (\<lambda>(_, csv_read_data).
     bindp (registry_rows [] csv_read_data) (\<lambda>rows.
     let cache = fold (extract_step torrentsOnly) rows []
     in bindp (getp w_bucket_order) (\<lambda>order.
        ret (map (\<lambda>k. (k, the (map_of cache k))) (order (map fst cache))))))"

definition del_download_id :: "string \<Rightarrow> bool \<Rightarrow> ('z, bool) action" where
  "del_download_id unique_id is_torrent =
     bindp (extract_download_ids is_torrent) (\<lambda>download_ids.
     let csv_data = csv_lines (map (\<lambda>(i, p, t). [i, p, to_string_bool t])
                      (filter (\<lambda>(i, _). i \<noteq> unique_id) download_ids))
     in bindp (db_write [Delete STORE_UNIQUE_ID, Put STORE_UNIQUE_ID csv_data]) (\<lambda>s.
        if s \<noteq> DbOK then seqp (show_box (Warning ''issue while deleting Unique ID'')) (ret False)
        else ret True))"

definition determine_download_id :: "string \<Rightarrow> ('z, string \<times> bool) action" where
  "determine_download_id file_path =
     bindp (createId (of_nat UNIQUE_ID_DIGIT_COUNT)) (\<lambda>key.
     bindp (db_get STORE_UNIQUE_ID) (\<lambda>(s, csv_read_data).
     if s \<noteq> DbOK then raise (Runtime_error ''determine_download_id'') else
     bindp (registry_rows uid_headers csv_read_data) (\<lambda>rows.
     let cache = fold (\<lambda>r. qmap_insert (r ! 0) (r ! 1, convertBool_fromInt (atoi (r ! 2)))) rows []
     in ret (case find (\<lambda>(i, p, t). p = file_path) cache of
               Some (i, p, t) \<Rightarrow> (i, t) | None \<Rightarrow> ([], False)))))"

section \<open>The registered entries\<close>

text \<open>The registry as a list of entries; an entry is valid if CSV can hold it and its row makes the
  text long enough to be parsed.\<close>

type_synonym id_entry = "string \<times> string \<times> bool"

definition entry_row :: "id_entry \<Rightarrow> string list" where
  "entry_row e = (case e of (i, p, t) \<Rightarrow> [i, p, to_string_bool t])"

definition valid_entry :: "id_entry \<Rightarrow> bool" where
  "valid_entry e \<longleftrightarrow> (case e of (i, p, t) \<Rightarrow> clean_field i \<and> clean_field p \<and> 9 \<le> length i + length p)"

definition registry_text :: "'z world_scheme \<Rightarrow> string" where
  "registry_text w = (case kv_get w STORE_UNIQUE_ID of None \<Rightarrow> [] | Some t \<Rightarrow> t)"

definition registered :: "'z world_scheme \<Rightarrow> id_entry list \<Rightarrow> bool" where
  "registered w es \<longleftrightarrow> registry_text w = csv_lines (map entry_row es) \<and> list_all valid_entry es"

lemma entry_row_simps [simp]:
  "entry_row (i, p, t) = [i, p, to_string_bool t]"
  "entry_row e ! 0 = fst e" "entry_row e ! Suc 0 = fst (snd e)" "entry_row e ! 2 = to_string_bool (snd (snd e))"
  by (simp_all add: entry_row_def split: prod.splits)

lemma to_string_bool_clean [simp]: "clean_field (to_string_bool b)"
  by (simp add: to_string_bool_def)

lemma to_string_bool_length [simp]: "length (to_string_bool b) = 1"
  by (cases b) simp_all

lemma entry_rows_clean: "list_all valid_entry es \<Longrightarrow> clean_rows (length uid_headers) (map entry_row es)"
  by (induction es) (auto simp: valid_entry_def uid_headers_def entry_row_def)

lemma entry_text_long:
  "list_all valid_entry es \<Longrightarrow> es \<noteq> [] \<Longrightarrow> CSV_MIN_PARSE_SIZE < length (csv_lines (map entry_row es))"
  by (cases es) (auto simp: valid_entry_def CSV_MIN_PARSE_SIZE_def csv_line_length)

text \<open>What the operations get to work on.\<close>

lemma read_registry:
  assumes "list_all valid_entry es" and "set required \<subseteq> set uid_headers"
  shows "\<exists>c. registry_rows required (csv_lines (map entry_row es)) w =
    (Ok (map entry_row es), w\<lparr>w_csv := c\<rparr>)"
proof (cases "es = []")
  case True
  then show ?thesis by (simp add: registry_rows_def exI [of _ "w_csv w"])
next
  case False
  note long = entry_text_long [OF assms(1) False]
  then have ne: "csv_lines (map entry_row es) \<noteq> []" by (metis list.size(3) not_less_zero)
  obtain rd c where o: "csv_open True (csv_lines (map entry_row es)) uid_headers (w_csv w) = (Ok rd, c)"
    using csv_open_holds [OF ne normalise_csv_lines [OF entry_rows_clean [OF assms(1)]]] False
    by (metis map_is_Nil_conv)
  have "fst (csv_rows rd [[], [], []] c) = Ok (map entry_row es)"
    using csv_clean_roundtrip [OF entry_rows_clean [OF assms(1)], of "[[], [], []]" True "w_csv w"]
      False o by (simp add: uid_headers_def bindp_Ok)
  then obtain c' where rows: "csv_rows rd [[], [], []] c = (Ok (map entry_row es), c')"
    by (metis prod.collapse)
  have "lacks_column rd required = Inr False"
    using assms(2) csv_open_headers [OF o ne]
    by (induction required) (simp_all add: has_column_key)
  with o rows have "csvp (bindp (csv_open True (csv_lines (map entry_row es)) uid_headers) (\<lambda>rd.
      bindp (liftp (lacks_column rd required)) (\<lambda>lacks.
      if lacks then raise (Invalid_argument ''Information provided from database is invalid!'')
      else csv_rows rd [[], [], []]))) w =
    (Ok (map entry_row es), w\<lparr>w_csv := c'\<rparr>)"
    by (simp add: csvp_def bindp_Ok)
  with ne long show ?thesis by (auto simp: registry_rows_def)
qed

section \<open>What the operations do to the entries\<close>

lemma registry_text_simps [simp]:
  "registry_text (db_tick w) = registry_text w" "registry_text (w\<lparr>w_csv := c\<rparr>) = registry_text w"
  "registry_text (w\<lparr>w_drawn := n\<rparr>) = registry_text w" "registry_text (w\<lparr>w_boxes := bs\<rparr>) = registry_text w"
  "registry_text (kv_put STORE_UNIQUE_ID v w) = v"
  by (simp_all add: registry_text_def kv.get_put)

lemma csv_line_nonempty [simp]: "csv_line fs \<noteq> []"
  by (simp add: csv_line_def)

lemma registry_get:
  "registered w es \<Longrightarrow> healthy w \<Longrightarrow> \<exists>s. db_get STORE_UNIQUE_ID w =
     (Ok (s, csv_lines (map entry_row es)), db_tick w) \<and>
     s = (case kv_get w STORE_UNIQUE_ID of None \<Rightarrow> DbNotFound | Some _ \<Rightarrow> DbOK)"
  by (auto simp: db_get_up registered_def registry_text_def split: option.splits)

definition same_world :: "'z world_scheme \<Rightarrow> 'z world_scheme \<Rightarrow> bool" where
  "same_world w w' \<longleftrightarrow> same_env w w' \<and> w_boxes w' = w_boxes w \<and> w_kv w' = w_kv w"

lemma same_world_simps [simp]:
  "same_world w w" "same_world w (db_tick w') = same_world w w'"
  "same_world w (w'\<lparr>w_csv := c\<rparr>) = same_world w w'" "same_world w (w'\<lparr>w_drawn := n\<rparr>) = same_world w w'"
  by (simp_all add: same_world_def) (simp add: db_tick_def)

lemma same_worldD:
  assumes "same_world w w'"
  shows "registered w' es = registered w es" "healthy w' = healthy w" "fair_order w' = fair_order w"
    "w_bucket_order w' = w_bucket_order w" "w_boxes w' = w_boxes w" "kv_get w' k = kv_get w k"
    "w_garbage w' = w_garbage w" "w_held w' = w_held w" "w_now w' = w_now w" "same_env w w'"
  using assms same_envD [of w w']
  by (simp_all add: same_world_def registered_def registry_text_def kv_get_def)

lemma registered_simps [simp]:
  "registered (db_tick w) es = registered w es" "registered (w\<lparr>w_csv := c\<rparr>) es = registered w es"
  "registered (w\<lparr>w_drawn := n\<rparr>) es = registered w es" "registered (w\<lparr>w_boxes := bs\<rparr>) es = registered w es"
  "registered (kv_put STORE_UNIQUE_ID (csv_lines (map entry_row es)) w) es = list_all valid_entry es"
  by (simp_all add: registered_def)

text \<open>The common first half of the operations.\<close>

lemma with_registry:
  assumes "registered w es" and "healthy w" and "set required \<subseteq> set uid_headers"
  obtains s w' where "same_world w w'" and "es \<noteq> [] \<longrightarrow> s = DbOK"
    and "db_get STORE_UNIQUE_ID w = (Ok (s, csv_lines (map entry_row es)), db_tick w)"
    and "registry_rows required (csv_lines (map entry_row es)) (db_tick w) = (Ok (map entry_row es), w')"
proof -
  have v: "list_all valid_entry es" using assms(1) by (simp add: registered_def)
  obtain c where c: "registry_rows required (csv_lines (map entry_row es)) (db_tick w) =
      (Ok (map entry_row es), (db_tick w)\<lparr>w_csv := c\<rparr>)"
    using read_registry [OF v assms(3)] by blast
  obtain s where s: "db_get STORE_UNIQUE_ID w = (Ok (s, csv_lines (map entry_row es)), db_tick w)"
    and k: "s = (case kv_get w STORE_UNIQUE_ID of None \<Rightarrow> DbNotFound | Some _ \<Rightarrow> DbOK)"
    using registry_get [OF assms(1,2)] by blast
  have "es \<noteq> [] \<longrightarrow> s = DbOK"
    using assms(1) k by (cases es) (auto simp: registered_def registry_text_def split: option.splits)
  with c s that [of "(db_tick w)\<lparr>w_csv := c\<rparr>" s] show ?thesis by simp
qed

lemma no_columns: "set [] \<subseteq> set uid_headers"
  by simp

text \<open>Adding appends one entry; the rest of the database stays.\<close>

lemma filter_valid_rows:
  "list_all valid_entry es \<Longrightarrow> map (\<lambda>r. [r ! 0, r ! 1, r ! 2])
     (filter (\<lambda>r. r ! 0 \<noteq> [] \<and> r ! 1 \<noteq> []) (map entry_row es)) = map entry_row es"
proof -
  assume "list_all valid_entry es"
  then have "filter (\<lambda>r. r ! 0 \<noteq> [] \<and> r ! 1 \<noteq> []) (map entry_row es) = map entry_row es"
    by (intro filter_True) (auto simp: valid_entry_def clean_field_def list_all_iff)
  then show ?thesis by (simp add: entry_row_def split_def)
qed

lemma add_registered:
  assumes "registered w es" and "healthy w" and "i \<noteq> []" and "valid_entry (i, p, t)"
  shows "\<exists>w'. add_download_id p t i w = (Ok i, w') \<and> registered w' (es @ [(i, p, t)]) \<and> healthy w' \<and>
    w_bucket_order w' = w_bucket_order w \<and> w_boxes w' = w_boxes w \<and>
    (\<forall>k. k \<noteq> STORE_UNIQUE_ID \<longrightarrow> kv_get w' k = kv_get w k)"
proof -
  have v: "list_all valid_entry es" using assms(1) by (simp add: registered_def)
  obtain s w1 where same: "same_world w w1"
    and run: "db_get STORE_UNIQUE_ID w = (Ok (s, csv_lines (map entry_row es)), db_tick w)"
      "registry_rows [] (csv_lines (map entry_row es)) (db_tick w) = (Ok (map entry_row es), w1)"
    using with_registry [OF assms(1,2) no_columns] .
  note inv = same_worldD [OF same]
  have "add_download_id p t i w =
      (Ok i, db_tick (kv_put STORE_UNIQUE_ID (csv_lines (map entry_row (es @ [(i, p, t)]))) w1))"
    using assms(2,3) inv(2) filter_valid_rows [OF v]
    by (simp add: add_download_id_def bindp_Ok run Let_def db_write_def
        bindp_Ok)
  moreover have "list_all valid_entry (es @ [(i, p, t)])" using v assms(4) by simp
  ultimately show ?thesis
    using inv assms(2) by (simp add: kv.get_put del: map_append list_all_append)
qed

text \<open>Extracting: the entries of one kind, the first of each identifier, in the order of the
  hash table.\<close>

lemma extract_step_entry:
  "extract_step k (entry_row (i, p, t)) cache = (if t = k then hash_insert i (p, t) cache else cache)"
  by (cases t; cases k) (simp_all add: extract_step_def)

lemma hash_insert_new: "i \<notin> fst ` set cache \<Longrightarrow> hash_insert i x cache = cache @ [(i, x)]"
  by (simp add: hash_insert_def)

lemma extract_fold:
  "distinct (map fst es) \<Longrightarrow> fst ` set cache \<inter> fst ` set es = {} \<Longrightarrow>
     fold (extract_step k) (map entry_row es) cache = cache @ filter (\<lambda>(i, p, t). t = k) es"
proof (induction es arbitrary: cache)
  case (Cons e es)
  obtain i p t where e: "e = (i, p, t)" by (cases e) auto
  have "i \<notin> fst ` set cache" using Cons.prems(2) e by auto
  moreover have "fst ` set (if t = k then cache @ [(i, p, t)] else cache) \<inter> fst ` set es = {}"
    using Cons.prems e by auto
  ultimately show ?case
    using Cons e by (auto simp: extract_step_entry hash_insert_new simp del: entry_row_simps(1))
qed simp

lemma map_lookup_order:
  assumes "distinct (map fst es)" and "mset ks = mset (map fst es)"
  shows "mset (map (\<lambda>k. (k, the (map_of es k))) ks) = mset es"
proof -
  have "mset (map (\<lambda>k. (k, the (map_of es k))) ks) =
      image_mset (\<lambda>k. (k, the (map_of es k))) (image_mset fst (mset es))"
    using assms(2) by simp
  also have "\<dots> = image_mset (\<lambda>e. e) (mset es)"
    using assms(1) by (simp only: image_mset.compositionality o_def, intro image_mset_cong)
      (auto simp: map_of_eq_Some_iff)
  finally show ?thesis by simp
qed

lemma extract_registered:
  assumes "registered w es" and "healthy w" and "fair_order w" and "distinct (map fst es)"
  shows "\<exists>ids w'. extract_download_ids k w = (Ok ids, w') \<and> same_world w w' \<and>
    mset ids = mset (filter (\<lambda>(i, p, t). t = k) es)"
proof -
  obtain s w1 where same: "same_world w w1"
    and run: "db_get STORE_UNIQUE_ID w = (Ok (s, csv_lines (map entry_row es)), db_tick w)"
      "registry_rows [] (csv_lines (map entry_row es)) (db_tick w) = (Ok (map entry_row es), w1)"
    using with_registry [OF assms(1,2) no_columns] .
  define ids where "ids = map (\<lambda>i. (i, the (map_of (filter (\<lambda>(i, p, t). t = k) es) i)))
      (w_bucket_order w (map fst (filter (\<lambda>(i, p, t). t = k) es)))"
  have "extract_download_ids k w = (Ok ids, w1)"
    using extract_fold [OF assms(4), of "[]" k] same_worldD(4) [OF same]
    by (simp add: extract_download_ids_def bindp_Ok run Let_def ids_def)
  moreover have "mset ids = mset (filter (\<lambda>(i, p, t). t = k) es)"
    unfolding ids_def using assms(3,4)
    by (intro map_lookup_order) (simp_all add: fair_order_def distinct_map_filter)
  ultimately show ?thesis using same by blast
qed

text \<open>Deleting keeps the other entries of the same kind; those of the other kind are gone.\<close>

lemma filter_rows: "map (\<lambda>(i, p, t). [i, p, to_string_bool t]) es = map entry_row es"
  by (simp add: entry_row_def [abs_def])

lemma del_registered:
  assumes "registered w es" and "healthy w" and "fair_order w" and "distinct (map fst es)"
  shows "\<exists>es' w'. del_download_id i k w = (Ok True, w') \<and> registered w' es' \<and>
    mset es' = mset (filter (\<lambda>(j, p, t). t = k \<and> j \<noteq> i) es) \<and>
    healthy w' \<and> fair_order w' \<and> w_boxes w' = w_boxes w \<and>
    (\<forall>key. key \<noteq> STORE_UNIQUE_ID \<longrightarrow> kv_get w' key = kv_get w key)"
proof -
  obtain ids w1 where x: "extract_download_ids k w = (Ok ids, w1)" and same: "same_world w w1"
    and ids: "mset ids = mset (filter (\<lambda>(i, p, t). t = k) es)"
    using extract_registered [OF assms] by blast
  define es' where "es' = filter (\<lambda>(j, _). j \<noteq> i) ids"
  have m: "mset es' = mset (filter (\<lambda>(j, p, t). t = k \<and> j \<noteq> i) es)"
    unfolding es'_def mset_filter ids
    by (simp add: filter_filter_mset) (intro filter_mset_cong, auto)
  then have "set es' = set (filter (\<lambda>(j, p, t). t = k \<and> j \<noteq> i) es)" by (rule mset_eq_setD)
  then have "set es' \<subseteq> set es" by auto
  with assms(1) have v: "list_all valid_entry es'" by (auto simp: registered_def list_all_iff)
  note inv = same_worldD [OF same]
  have "del_download_id i k w = (Ok True, db_tick (kv_put STORE_UNIQUE_ID (csv_lines (map entry_row es')) w1))"
    using assms(2) inv(2)
    by (simp add: del_download_id_def x bindp_Ok Let_def db_write_def es'_def filter_rows)
  then show ?thesis using m v inv assms(2,3)
    by (intro exI [of _ es'] exI [of _ "db_tick (kv_put STORE_UNIQUE_ID (csv_lines (map entry_row es')) w1)"])
      (simp add: kv.get_put)
qed

text \<open>Looking a path up: the entry with that path whose identifier comes first.\<close>

lemma map_of_qmap_insert: "map_of (qmap_insert k v m) = (map_of m)(k \<mapsto> v)"
  by (induction k v m rule: qmap_insert.induct) auto

lemma set_qmap_insert: "set (qmap_insert k v m) \<subseteq> insert (k, v) (set m)"
  by (induction k v m rule: qmap_insert.induct) auto

lemma qmap_sorted:
  "sorted_wrt (<) (map fst m) \<Longrightarrow> sorted_wrt (<) (map fst (qmap_insert k v m))"
proof (induction k v m rule: qmap_insert.induct)
  case (2 k v k' v' m)
  have sub: "fst ` set (qmap_insert k v m) \<subseteq> insert k (fst ` set m)"
    using set_qmap_insert [of k v m] by force
  show ?case using 2 sub by (auto simp: set_map) (fastforce)+
qed simp

definition uid_cache :: "id_entry list \<Rightarrow> id_entry list" where
  "uid_cache es = fold (\<lambda>e. qmap_insert (fst e) (snd e)) es []"

lemma uid_cache_rows:
  "fold (\<lambda>r. qmap_insert (r ! 0) (r ! 1, convertBool_fromInt (atoi (r ! 2)))) (map entry_row es) [] =
     uid_cache es"
proof -
  have "convertBool_fromInt (atoi (to_string_bool b)) = b" for b by (rule bool_text.dec_enc) simp
  then show ?thesis by (simp add: uid_cache_def fold_map o_def split_def)
qed

lemma uid_cache_fold:
  fixes es m :: "('a::linorder \<times> 'b) list"
  shows "distinct (map fst es) \<Longrightarrow> sorted_wrt (<) (map fst m) \<Longrightarrow> fst ` set m \<inter> fst ` set es = {} \<Longrightarrow>
     set (fold (\<lambda>e. qmap_insert (fst e) (snd e)) es m) = set m \<union> set es \<and>
     sorted_wrt (<) (map fst (fold (\<lambda>e. qmap_insert (fst e) (snd e)) es m))"
proof (induction es arbitrary: m)
  case (Cons e es)
  have ins: "set (qmap_insert k v m) = insert (k, v) (set m)" if "k \<notin> fst ` set m"
    for k :: "'a::linorder" and v :: 'b and m
    using that by (induction k v m rule: qmap_insert.induct) auto
  show ?case
    using Cons.prems Cons.IH [of "qmap_insert (fst e) (snd e) m"] qmap_sorted [of m] ins [of "fst e" m "snd e"]
    by auto
qed simp

lemma uid_cache:
  assumes "distinct (map fst es)"
  shows "set (uid_cache es) = set es" and "sorted_wrt (<) (map fst (uid_cache es))"
  using uid_cache_fold [OF assms, of "[]"] by (simp_all add: uid_cache_def)

lemma createId_digits:
  "\<exists>s n. createId (of_nat UNIQUE_ID_DIGIT_COUNT) w = (Ok s, w\<lparr>w_drawn := n\<rparr>) \<and>
     length s = 31 \<and> (\<forall>c \<in> set s. is_digit c)"
proof -
  define s where "s = concat (map (\<lambda>i. show_nat (w_random w (w_drawn w + i) mod 10)) [0..<31])"
  have one: "length (show_nat (d mod 10)) = 1" for d
    by (subst show_nat.simps) simp
  have len: "length s = 31"
    unfolding s_def length_concat map_map o_def one by (simp add: sum_list_triv)
  moreover have "\<forall>c \<in> set s. is_digit c" by (auto simp: s_def dest: show_nat_digits)
  moreover have "unat (word_of_nat UNIQUE_ID_DIGIT_COUNT - 1 :: 64 word) = 31"
    by (simp add: UNIQUE_ID_DIGIT_COUNT_def)
  moreover have "s \<noteq> []" using len by auto
  ultimately show ?thesis
    by (intro exI [of _ s] exI [of _ "w_drawn w + 31"])
      (simp add: createId_def draw_digits_run bindp_Ok s_def [symmetric])
qed

lemma determine_registered:
  assumes "registered w es" and "healthy w" and "es \<noteq> []" and "distinct (map fst es)"
  shows "\<exists>w'. determine_download_id p w =
      (Ok (case find (\<lambda>(i, q, t). q = p) (uid_cache es) of
             Some (i, q, t) \<Rightarrow> (i, t) | None \<Rightarrow> ([], False)), w') \<and> same_world w w'"
proof -
  obtain n key where c: "createId (of_nat UNIQUE_ID_DIGIT_COUNT) w = (Ok key, w\<lparr>w_drawn := n\<rparr>)"
    using createId_digits by blast
  have "registered (w\<lparr>w_drawn := n\<rparr>) es" "healthy (w\<lparr>w_drawn := n\<rparr>)" using assms by simp_all
  from with_registry [OF this order_refl] obtain s w1 where same: "same_world (w\<lparr>w_drawn := n\<rparr>) w1"
    and s: "es \<noteq> [] \<longrightarrow> s = DbOK"
    and run: "db_get STORE_UNIQUE_ID (w\<lparr>w_drawn := n\<rparr>) =
        (Ok (s, csv_lines (map entry_row es)), db_tick (w\<lparr>w_drawn := n\<rparr>))"
      "registry_rows uid_headers (csv_lines (map entry_row es)) (db_tick (w\<lparr>w_drawn := n\<rparr>)) =
        (Ok (map entry_row es), w1)" .
  have "determine_download_id p w =
      (Ok (case find (\<lambda>(i, q, t). q = p) (uid_cache es) of
             Some (i, q, t) \<Rightarrow> (i, t) | None \<Rightarrow> ([], False)), w1)"
    using c s run assms(3) uid_cache_rows [of es]
    by (simp add: determine_download_id_def bindp_Ok Let_def)
  moreover have "same_world w w1" using same by (simp add: same_world_def same_env_def)
  ultimately show ?thesis by blast
qed

lemma find_cache:
  assumes "distinct (map fst es)" and "(i, p, t) \<in> set es" and "\<And>j u. (j, p, u) \<in> set es \<Longrightarrow> j = i"
  shows "find (\<lambda>(i, q, t). q = p) (uid_cache es) = Some (i, p, t)"
proof -
  have "find (\<lambda>(i, q, t). q = p) (uid_cache es) \<noteq> None"
    using assms(2) uid_cache(1) [OF assms(1)] by (auto simp: find_None_iff)
  then obtain j q u where f: "find (\<lambda>(i, q, t). q = p) (uid_cache es) = Some (j, q, u)" by auto
  then obtain n where "n < length (uid_cache es)" "uid_cache es ! n = (j, q, u)" and q: "q = p"
    by (auto simp: find_Some_iff)
  then have "(j, q, u) \<in> set (uid_cache es)" by (metis nth_mem)
  with q have in_es: "(j, p, u) \<in> set es" using uid_cache(1) [OF assms(1)] by simp
  then have "j = i" by (rule assms(3))
  moreover from this have "(p, u) = (p, t)" using in_es assms(1,2) by (metis eq_key_imp_eq_value)
  ultimately show ?thesis using f q by simp
qed

text \<open>An entry whose path no other entry has is the one a lookup by path finds.\<close>

lemma determine_unique:
  assumes "registered w es" and "healthy w" and "distinct (map fst es)"
    and "(i, p, t) \<in> set es" and "\<And>j u. (j, p, u) \<in> set es \<Longrightarrow> j = i"
  obtains w' where "determine_download_id p w = (Ok (i, t), w')" and "same_world w w'"
proof -
  have "es \<noteq> []" using assms(4) by auto
  from determine_registered [OF assms(1,2) this assms(3), of p] show ?thesis
    using that find_cache [OF assms(3,4,5)] by auto
qed

section \<open>The environment\<close>

lemma env_registry [env_keeps]:
  "preserves same_env (registry_rows required data)"
  "preserves same_env (add_download_id p t i)" "preserves same_env (extract_download_ids k)"
  "preserves same_env (del_download_id i k)" "preserves same_env (determine_download_id p)"
proof -
  show rows: "preserves same_env (registry_rows required data)" for required data
    by (simp add: registry_rows_def env_keeps env.keeps)
  show "preserves same_env (add_download_id p t i)"
    unfolding add_download_id_def Let_def by (intro env.keeps env_keeps rows)
  show ids: "preserves same_env (extract_download_ids k)" for k
    unfolding extract_download_ids_def Let_def by (intro env.keeps env_keeps rows)
  show "preserves same_env (del_download_id i k)"
    unfolding del_download_id_def Let_def by (intro env.keeps env_keeps ids)
  show "preserves same_env (determine_download_id p)"
    unfolding determine_download_id_def Let_def by (intro env.keeps env_keeps rows)
qed

section \<open>Properties\<close>

text \<open>\<open>add_download_id\<close> with a given identifier appends one entry to the registry and changes no
  other key of the database.\<close>

theorem add_download_id_appends:
  assumes "registered w es" and "healthy w" and "i \<noteq> []" and "valid_entry (i, p, t)"
  shows "\<exists>w'. add_download_id p t i w = (Ok i, w') \<and> registered w' (es @ [(i, p, t)]) \<and> healthy w' \<and>
    w_bucket_order w' = w_bucket_order w \<and> w_boxes w' = w_boxes w \<and>
    (\<forall>k. k \<noteq> STORE_UNIQUE_ID \<longrightarrow> kv_get w' k = kv_get w k)"
  by (rule add_registered [OF assms])

lemma fresh_registered: "registered (fresh_world now) []"
  by (simp add: registered_def registry_text_def)

theorem add_download_id_appends_witness:
  "\<exists>w'. add_download_id ''/tmp/file'' True ''12345'' (fresh_world 7) = (Ok ''12345'', w') \<and>
     registered w' [(''12345'', ''/tmp/file'', True)]"
  using add_download_id_appends [OF fresh_registered, of 7 "''12345''" "''/tmp/file''" True]
  by (auto simp: valid_entry_def clean_field_def)

text \<open>\<open>determine_download_id\<close> finds the identifier and the kind of an entry whose path is its own,
  and leaves the database alone.\<close>

theorem determine_download_id_finds:
  assumes "registered w es" and "healthy w" and "distinct (map fst es)"
    and "(i, p, t) \<in> set es" and "\<And>j u. (j, p, u) \<in> set es \<Longrightarrow> j = i"
  shows "\<exists>w'. determine_download_id p w = (Ok (i, t), w') \<and> same_world w w'"
proof -
  obtain w' where "determine_download_id p w = (Ok (i, t), w')" "same_world w w'"
    by (rule determine_unique [OF assms(1-4), of thesis]) (simp_all add: assms(5))
  then show ?thesis by blast
qed

lemma one_entry:
  obtains w :: world where "registered w [(''12345'', ''/tmp/file'', True)]" and "healthy w" and "fair_order w"
proof -
  have v: "valid_entry (''12345'', ''/tmp/file'', True)" by (simp add: valid_entry_def clean_field_def)
  from add_registered [OF fresh_registered _ _ v, of 7] obtain w where
    w: "add_download_id ''/tmp/file'' True ''12345'' (fresh_world 7) = (Ok ''12345'', w)"
      "registered w [(''12345'', ''/tmp/file'', True)]" "healthy w" by auto
  have "same_env (fresh_world 7) w" using env_registry(2) w(1) by (metis preservesD)
  from same_envD(2) [OF this] have "fair_order w" by simp
  with that [OF w(2,3)] show ?thesis .
qed

theorem determine_download_id_finds_witness:
  "\<exists>(w :: world) w'. determine_download_id ''/tmp/file'' w = (Ok (''12345'', True), w')"
proof -
  obtain w :: world where "registered w [(''12345'', ''/tmp/file'', True)]" "healthy w" by (rule one_entry)
  from determine_download_id_finds [OF this, of "''12345''" "''/tmp/file''" True] show ?thesis by auto
qed

text \<open>\<open>del_download_id\<close> keeps the entries of the kind it is called for, less the one named, and
  loses all entries of the other kind.\<close>

theorem del_download_id_keeps_one_kind:
  assumes "registered w es" and "healthy w" and "fair_order w" and "distinct (map fst es)"
  shows "\<exists>es' w'. del_download_id i k w = (Ok True, w') \<and> registered w' es' \<and>
    mset es' = mset (filter (\<lambda>(j, p, t). t = k \<and> j \<noteq> i) es) \<and>
    healthy w' \<and> fair_order w' \<and> w_boxes w' = w_boxes w \<and>
    (\<forall>key. key \<noteq> STORE_UNIQUE_ID \<longrightarrow> kv_get w' key = kv_get w key)"
  by (rule del_registered [OF assms])

theorem del_download_id_keeps_one_kind_witness:
  "\<exists>(w :: world) w'. registered w [(''12345'', ''/tmp/file'', True)] \<and>
     del_download_id ''999'' False w = (Ok True, w') \<and> registered w' []"
proof -
  obtain w :: world where w: "registered w [(''12345'', ''/tmp/file'', True)]" "healthy w" "fair_order w"
    by (rule one_entry)
  from del_download_id_keeps_one_kind [OF w, of "''999''" False] w(1) show ?thesis by auto
qed

text \<open>A generated identifier has 31 decimal digits (one less than \<open>FYREDL_UNIQUE_ID_DIGIT_COUNT\<close>), so
  it is a clean CSV field without the key separator.\<close>

theorem createId_31_digits:
  "\<exists>s n. createId (of_nat UNIQUE_ID_DIGIT_COUNT) w = (Ok s, w\<lparr>w_drawn := n\<rparr>) \<and>
     length s = 31 \<and> list_all is_digit s"
  unfolding list_all_iff by (rule createId_digits)

end
