(* ===== verification/Curl_History.thy ===== *)
theory Curl_History
  imports Id_Registry
begin

text \<open>
  The history of HTTP and FTP downloads (\<open>addCurlItem\<close>, \<open>readCurlItems\<close>, \<open>modifyCurlItem\<close> and
  \<open>delCurlItem\<close> of \<open>src/cmnroutines.cpp\<close>): eleven database values per item and one registry row.
  The history is abstracted to the list of items it reads back as, and each operation is shown to
  be an operation on that list.
\<close>

section \<open>The operations\<close>

text \<open>\<open>std::unique_lock locker(m, std::defer_lock); if (locker.try_lock())\<close>.\<close>

definition try_lock :: "item_mutex \<Rightarrow> ('z, 'a) action \<Rightarrow> ('z, 'a) action \<Rightarrow> ('z, 'a) action" where
  "try_lock m body otherwise = bindp (getp (\<lambda>w. w_held w m)) (\<lambda>held. if \<not> held then body else otherwise)"

text \<open>\<open>catch (const std::exception &e)\<close> with a message box.\<close>

definition with_warning :: "('z, 'a) action \<Rightarrow> 'a \<Rightarrow> ('z, 'a) action" where
  "with_warning m failed = catchp m (\<lambda>e.
     if std_exception e then seqp (show_box (Warning ''Error!'')) (ret failed) else raise e)"

text \<open>One item of \<open>readCurlItems\<close>, from its texts.\<close>

definition decode_curl :: "bool \<Rightarrow> string \<Rightarrow> string \<Rightarrow> string list \<Rightarrow> exn + curl_dl_info" where
  "decode_curl garbage i p ts =
     (case ts of
        [curl_stat, insert_date, complt_date, stat_msg, effec_url, resp_code, cont_lgnth,
         hash_type, hash_val_given, hash_val_rtrnd, hash_succ_type] \<Rightarrow>
          let ret_code = atoll resp_code
          in (case stod cont_lgnth of
                Inl e \<Rightarrow> Inl e
              | Inr content_length \<Rightarrow>
                  Inr \<lparr>cd_file_loc = p, cd_insert_timestamp = atoll insert_date,
                       cd_complt_timestamp = atoll complt_date,
                       cd_dlStatus = convDlStat_IntToEnum (atoi curl_stat),
                       cd_ext_info = \<lparr>ce_status_ok = (if 200 \<le> ret_code \<and> ret_code < 300 then True else garbage),
                         ce_status_msg = stat_msg, ce_response_code = ret_code,
                         ce_elapsed = Finite (- 1), ce_effective_url = effec_url,
                         ce_content_length = content_length\<rparr>,
                       cd_unique_id = i,
                       cd_hash_type = convHashType_IntToEnum (atoi hash_type),
                       cd_hash_val_given = hash_val_given, cd_hash_val_rtrnd = hash_val_rtrnd,
                       cd_hash_succ_type = convHashVerif_IntToEnum (atoi hash_succ_type)\<rparr>)
      | _ \<Rightarrow> Inl (Out_of_range ''decode_curl''))"

definition read_curl_item :: "string \<times> string \<times> bool \<Rightarrow> ('z, curl_dl_info) action" where
  "read_curl_item entry =
     (case entry of (i, p, _) \<Rightarrow>
        bindp (collect (read_item_db i) curl_item_keys) (\<lambda>ts.
        bindp (getp w_garbage) (\<lambda>garbage. liftp (decode_curl garbage i p ts))))"

definition readCurlItems :: "('z, curl_dl_info list) action" where
  "readCurlItems =
     with_warning
       (bindp (extract_download_ids False) (\<lambda>download_ids.
        if download_ids \<noteq> [] then
          try_lock R_curl
            (collect read_curl_item (filter (\<lambda>(i, p, t). \<not> t \<and> p \<noteq> []) download_ids))
            (ret [])
        else ret [])) []"

definition add_items :: "string \<Rightarrow> (string \<times> string) list \<Rightarrow> ('z, unit) action" where
  "add_items download_key kvs = each (\<lambda>(k, v). add_item_db download_key k v) kvs"

text \<open>What \<open>addCurlItem\<close> makes of the item it is given, and the values it writes.\<close>

definition stamp_curl :: "int \<Rightarrow> curl_dl_info \<Rightarrow> curl_dl_info" where
  "stamp_curl now dl = dl\<lparr>cd_dlStatus := Unknown, cd_insert_timestamp := now, cd_complt_timestamp := 0,
     cd_ext_info := (cd_ext_info dl)\<lparr>ce_status_msg := []\<rparr>\<rparr>"

definition curl_values :: "curl_dl_info \<Rightarrow> (string \<times> string) list" where
  "curl_values dl =
     [(KEY_CURL_STAT, to_string_int (convDlStat_toInt (cd_dlStatus dl))),
      (KEY_CURL_INSERT_DATE, to_string_int (cd_insert_timestamp dl)),
      (KEY_CURL_COMPLT_DATE, to_string_int (cd_complt_timestamp dl)),
      (KEY_CURL_STATMSG, ce_status_msg (cd_ext_info dl)),
      (KEY_CURL_EFFEC_URL, ce_effective_url (cd_ext_info dl)),
      (KEY_CURL_RESP_CODE, to_string_int (ce_response_code (cd_ext_info dl))),
      (KEY_CURL_CONT_LNGTH, to_string_double (ce_content_length (cd_ext_info dl))),
      (KEY_CURL_HASH_TYPE, to_string_int (hash_type_index (cd_hash_type dl))),
      (KEY_CURL_HASH_VAL_GIVEN, cd_hash_val_given dl),
      (KEY_CURL_HASH_VAL_RTRND, cd_hash_val_rtrnd dl),
      (KEY_CURL_HASH_SUCC_TYPE, to_string_int (hash_verif_index (cd_hash_succ_type dl)))]"

definition addCurlItem :: "curl_dl_info \<Rightarrow> ('z, bool \<times> curl_dl_info) action" where
  "addCurlItem dl_info =
     (if ce_status_ok (cd_ext_info dl_info) then
        (if cd_dlStatus dl_info = Stopped \<or> cd_dlStatus dl_info = Invalid \<or> cd_dlStatus dl_info = Unknown then
           try_lock W_curl
             (bindp (getp w_now) (\<lambda>now.
              let dl_info = stamp_curl now dl_info
              in with_warning
                   (bindp (add_download_id (cd_file_loc dl_info) False (cd_unique_id dl_info)) (\<lambda>download_key.
                    seqp (add_items download_key (curl_values dl_info)) (ret (True, dl_info))))
                   (False, dl_info)))
             (ret (False, dl_info))
         else ret (False, dl_info))
      else ret (False, dl_info))"

definition delCurlItem :: "string \<Rightarrow> string \<Rightarrow> ('z, bool) action" where
  "delCurlItem file_dest unique_id_backup =
     with_warning
       (try_lock W_curl
          (bindp (if unique_id_backup = [] \<and> file_dest \<noteq> [] then
                    bindp (determine_download_id file_dest) (\<lambda>identifier. ret (fst identifier))
                  else ret unique_id_backup) (\<lambda>download_id.
           if download_id = [] then
             raise (Invalid_argument ''An invalid Unique ID has been provided.'')
           else seqp (each (del_item_db download_id) curl_item_keys)
                  (del_download_id download_id False)))
          (ret False)) False"

definition modifyCurlItem :: "string \<Rightarrow> download_status \<Rightarrow> int \<Rightarrow> string \<Rightarrow> hash_type \<Rightarrow> string \<Rightarrow>
    hash_verif \<Rightarrow> ('z, bool) action" where
  "modifyCurlItem file_loc status complt_timestamp hash_given hash_type hash_rtrnd ret_succ_type =
     with_warning
       (bindp (determine_download_id file_loc) (\<lambda>identifier.
        if fst identifier \<noteq> [] then
          try_lock W_curl
            (let dl_id = fst identifier
             in seqp (add_item_db dl_id KEY_CURL_STAT (to_string_int (convDlStat_toInt status)))
                (seqp (if 0 < complt_timestamp
                       then add_item_db dl_id KEY_CURL_COMPLT_DATE (to_string_int complt_timestamp)
                       else ret ())
                (seqp (if ret_succ_type \<noteq> NotApplicable then
                         add_items dl_id
                           [(KEY_CURL_HASH_TYPE, to_string_int (convHashType_toInt hash_type)),
                            (KEY_CURL_HASH_VAL_GIVEN, hash_given),
                            (KEY_CURL_HASH_VAL_RTRND, hash_rtrnd),
                            (KEY_CURL_HASH_SUCC_TYPE, to_string_int (convHashVerif_toInt ret_succ_type))]
                       else ret ())
                (ret True))))
            (ret False)
        else raise (Invalid_argument ''An invalid Unique ID has been provided.''))) False"

section \<open>The combinators\<close>

lemma try_lock_free: "\<not> w_held w m \<Longrightarrow> try_lock m body otherwise w = body w"
  by (simp add: try_lock_def)

lemma try_lock_held: "w_held w m \<Longrightarrow> try_lock m body otherwise w = otherwise w"
  by (simp add: try_lock_def)

lemma with_warning_Ok [prog_simps]: "m w = (Ok a, w') \<Longrightarrow> with_warning m x w = (Ok a, w')"
  by (simp add: with_warning_def catchp_Ok)

lemma with_warning_Throw [prog_simps]:
  "m w = (Throw e, w') \<Longrightarrow> std_exception e \<Longrightarrow> with_warning m x w = (Ok x, w'\<lparr>w_boxes := w_boxes w' @ [Warning ''Error!'']\<rparr>)"
  by (simp add: with_warning_def catchp_Throw seqp_Ok)

definition item_get :: "'z world_scheme \<Rightarrow> string \<Rightarrow> string \<Rightarrow> string option" where
  "item_get w i k = kv_get w (multipart_key [i, k])"

text \<open>Writing the values of one item leaves the other items and the registry alone.\<close>

lemma map_of_item_keys:
  assumes "UNDERSCORE \<notin> set i" and "UNDERSCORE \<notin> set j"
  shows "map_of (map (\<lambda>(k, v). (multipart_key [i, k], v)) kvs) (multipart_key [j, k]) =
    (if i = j then map_of kvs k else None)"
  by (induction kvs) (use assms in \<open>auto simp: multipart_key_inject\<close>)

lemma map_of_item_registry:
  "map_of (map (\<lambda>(k, v). (multipart_key [i, k], v)) kvs) STORE_UNIQUE_ID = None"
  by (induction kvs) (auto simp: multipart_key_not_registry [symmetric])

lemma add_items_run:
  "healthy w \<Longrightarrow> \<exists>w'. add_items i kvs w = (Ok (), w') \<and> w_boxes w' = w_boxes w \<and>
     (\<forall>k. kv_get w' k = kv_get (kv.put_all (map (\<lambda>(k, v). (multipart_key [i, k], v)) kvs) w) k)"
proof (induction kvs arbitrary: w)
  case (Cons kv kvs)
  obtain k v where kv: "kv = (k, v)" by (cases kv)
  define w1 where "w1 = db_tick (kv_put (multipart_key [i, k]) v w)"
  have h: "healthy w1" using Cons.prems by (simp add: w1_def)
  obtain w' where w': "add_items i kvs w1 = (Ok (), w')" "w_boxes w' = w_boxes w1"
    "\<forall>k. kv_get w' k = kv_get (kv.put_all (map (\<lambda>(k, v). (multipart_key [i, k], v)) kvs) w1) k"
    using Cons.IH [OF h] by blast
  have "add_items i (kv # kvs) w = (Ok (), w')"
    using w'(1) Cons.prems by (simp add: add_items_def kv seqp_Ok add_item_run w1_def)
  moreover have "kv_get w' k' =
      kv_get (kv.put_all (map (\<lambda>(k, v). (multipart_key [i, k], v)) (kv # kvs)) w) k'" for k'
    unfolding w'(3) [rule_format] kv.get_put_all
    by (simp add: kv w1_def kv.get_put map_add_def split: option.split)
  ultimately show ?case using w'(2) by (simp add: w1_def)
qed (simp add: add_items_def kv.put_all_def)

lemma add_items_healthy:
  assumes "healthy w" and "UNDERSCORE \<notin> set i"
  obtains w' where "add_items i kvs w = (Ok (), w')" and "w_boxes w' = w_boxes w"
    and "registry_text w' = registry_text w" and "same_env w w'"
    and "\<And>j k. UNDERSCORE \<notin> set j \<Longrightarrow> item_get w' j k =
      (if j = i then case map_of (rev kvs) k of Some v \<Rightarrow> Some v | None \<Rightarrow> item_get w j k
       else item_get w j k)"
proof -
  obtain w' where w': "add_items i kvs w = (Ok (), w')" "w_boxes w' = w_boxes w"
    "\<forall>k. kv_get w' k = kv_get (kv.put_all (map (\<lambda>(k, v). (multipart_key [i, k], v)) kvs) w) k"
    using add_items_run [OF assms(1)] by blast
  have "preserves same_env (add_items i kvs)"
    unfolding add_items_def by (intro env.keeps env_keeps)
  then have "same_env w w'" using w'(1) by (metis preservesD)
  moreover have "registry_text w' = registry_text w"
    using w'(3) by (simp add: registry_text_def kv.get_put_all rev_map map_of_item_registry)
  moreover have "item_get w' j k =
      (if j = i then case map_of (rev kvs) k of Some v \<Rightarrow> Some v | None \<Rightarrow> item_get w j k
       else item_get w j k)" if "UNDERSCORE \<notin> set j" for j k
    using w'(3) assms(2) that
    by (auto simp: item_get_def kv.get_put_all rev_map map_of_item_keys split: option.split)
  ultimately show ?thesis using that [OF w'(1,2)] by blast
qed

section \<open>The history as a list of items\<close>

definition decoded_curl :: "'z world_scheme \<Rightarrow> id_entry \<Rightarrow> exn + curl_dl_info" where
  "decoded_curl w e =
     (case e of (i, p, _) \<Rightarrow>
        if list_all (\<lambda>k. item_get w i k \<noteq> None) curl_item_keys
        then decode_curl (w_garbage w) i p (map (\<lambda>k. the (item_get w i k)) curl_item_keys)
        else Inl (Runtime_error ''read_item_db''))"

text \<open>A well-formed history: the registry lists entries with distinct identifiers free of the key
  separator, and every HTTP or FTP entry has its eleven values.\<close>

definition history :: "'z world_scheme \<Rightarrow> id_entry list \<Rightarrow> bool" where
  "history w es \<longleftrightarrow> registered w es \<and> distinct (map fst es) \<and>
     (\<forall>(i, p, t) \<in> set es. UNDERSCORE \<notin> set i \<and> (\<not> t \<longrightarrow> (\<exists>d. decoded_curl w (i, p, t) = Inr d)))"

definition curl_items :: "'z world_scheme \<Rightarrow> id_entry list \<Rightarrow> curl_dl_info list" where
  "curl_items w es = map (\<lambda>e. projr (decoded_curl w e)) (filter (\<lambda>(i, p, t). \<not> t) es)"

lemma historyD:
  assumes "history w es"
  shows "registered w es" and "distinct (map fst es)" and "list_all valid_entry es"
    and "(i, p, t) \<in> set es \<Longrightarrow> UNDERSCORE \<notin> set i"
    and "(i, p, False) \<in> set es \<Longrightarrow> \<exists>d. decoded_curl w (i, p, False) = Inr d"
  using assms by (auto simp: history_def registered_def)

text \<open>An item depends on its own values only.\<close>

lemma decoded_curl_cong:
  "(\<And>k. k \<in> set curl_item_keys \<Longrightarrow> item_get w' i k = item_get w i k) \<Longrightarrow> w_garbage w' = w_garbage w \<Longrightarrow>
     decoded_curl w' (i, p, t) = decoded_curl w (i, p, t)"
  by (auto simp: decoded_curl_def list_all_iff intro!: arg_cong [where f = "decode_curl _ _ _"])

lemma decoded_curl_id: "decoded_curl w (i, p, t) = Inr d \<Longrightarrow> cd_unique_id d = i \<and> cd_file_loc d = p"
  by (auto simp: decoded_curl_def decode_curl_def Let_def split: if_splits list.splits sum.splits)

section \<open>Reading the history\<close>

lemma collect_quiet:
  assumes "\<And>x u. x \<in> set xs \<Longrightarrow> same_world w u \<Longrightarrow> \<exists>u'. f x u = (Ok (g x), u') \<and> same_world w u'"
    and "same_world w u"
  shows "\<exists>u'. collect f xs u = (Ok (map g xs), u') \<and> same_world w u'"
  using assms
proof (induction xs arbitrary: u)
  case (Cons x xs)
  obtain u1 where u1: "f x u = (Ok (g x), u1)" "same_world w u1" using Cons.prems by force
  obtain u2 where "collect f xs u1 = (Ok (map g xs), u2)" "same_world w u2"
    using Cons.IH [OF _ u1(2)] Cons.prems(1) by (meson list.set_intros(2))
  with u1 show ?case by (simp add: bindp_Ok)
qed simp

lemma same_world_item: "same_world w u \<Longrightarrow> item_get u i k = item_get w i k"
  by (simp add: item_get_def same_worldD)

lemma read_curl_item_run:
  assumes "healthy w" and "decoded_curl w (i, p, t) = Inr d" and "same_world w u"
  shows "\<exists>u'. read_curl_item (i, p, t) u = (Ok d, u') \<and> same_world w u'"
proof -
  have all: "list_all (\<lambda>k. item_get w i k \<noteq> None) curl_item_keys"
    and d: "decode_curl (w_garbage w) i p (map (\<lambda>k. the (item_get w i k)) curl_item_keys) = Inr d"
    using assms(2) by (auto simp: decoded_curl_def split: if_splits)
  have step: "\<exists>u'. read_item_db i k u = (Ok (the (item_get w i k)), u') \<and> same_world w u'"
    if "k \<in> set curl_item_keys" and "same_world w u" for k u
  proof -
    have "item_get w i k \<noteq> None" using bspec [OF all [unfolded list_all_iff] that(1)] .
    then obtain v where "item_get w i k = Some v" by (cases "item_get w i k") simp_all
    moreover have "healthy u" using same_worldD(2) [OF that(2)] assms(1) by simp
    ultimately show ?thesis
      using that(2) same_world_item [OF that(2), of i k]
      by (simp add: read_item_run item_get_def)
  qed
  from collect_quiet [of curl_item_keys w "read_item_db i", OF step assms(3)]
  obtain u' where "collect (read_item_db i) curl_item_keys u =
      (Ok (map (\<lambda>k. the (item_get w i k)) curl_item_keys), u')" and u': "same_world w u'" by blast
  then show ?thesis
    using d same_worldD(7) [OF u'] by (simp add: read_curl_item_def bindp_Ok)
qed

lemma read_curl_history:
  assumes "history w es" and "healthy w" and "fair_order w" and "\<not> w_held w R_curl"
  shows "\<exists>out w'. readCurlItems w = (Ok out, w') \<and> mset out = mset (curl_items w es) \<and> same_world w w'"
proof -
  note h = historyD [OF assms(1)]
  obtain ids w1 where x: "extract_download_ids False w = (Ok ids, w1)" and same: "same_world w w1"
    and ids: "mset ids = mset (filter (\<lambda>(i, p, t). t = False) es)"
    using extract_registered [OF h(1) assms(2,3) h(2)] by blast
  from ids have set: "set ids = set (filter (\<lambda>(i, p, t). t = False) es)" by (rule mset_eq_setD)
  have all: "filter (\<lambda>(i, p, t). \<not> t \<and> p \<noteq> []) ids = ids"
  proof (rule filter_True)
    show "\<forall>e \<in> set ids. case e of (i, p, t) \<Rightarrow> \<not> t \<and> p \<noteq> []"
      using h(3) unfolding set by (auto simp: list_all_iff valid_entry_def clean_field_def)
  qed
  have step: "\<exists>u'. read_curl_item e u = (Ok (projr (decoded_curl w e)), u') \<and> same_world w u'"
    if e: "e \<in> set ids" and u: "same_world w u" for e u
  proof -
    obtain i p t where "e = (i, p, t)" by (rule prod_cases3)
    with e have ip: "e = (i, p, False)" "(i, p, False) \<in> set es" by (auto simp: set)
    then obtain d where "decoded_curl w (i, p, False) = Inr d" using h(5) by blast
    with read_curl_item_run [OF assms(2) this u] ip show ?thesis by simp
  qed
  from collect_quiet [of ids w read_curl_item, OF step same] obtain w2
    where c: "collect read_curl_item ids w1 = (Ok (map (\<lambda>e. projr (decoded_curl w e)) ids), w2)"
      and w2: "same_world w w2" by blast
  have "\<not> w_held w1 R_curl" using assms(4) same_worldD(8) [OF same] by simp
  then have "readCurlItems w = (Ok (map (\<lambda>e. projr (decoded_curl w e)) ids), if ids = [] then w1 else w2)"
    unfolding readCurlItems_def using c
    by (intro with_warning_Ok) (simp add: bindp_Ok x all try_lock_free)
  moreover have "mset (map (\<lambda>e. projr (decoded_curl w e)) ids) = mset (curl_items w es)"
    by (simp add: curl_items_def ids)
  ultimately show ?thesis using same w2 by auto
qed

section \<open>Adding an item\<close>

text \<open>How an item that was added reads back: its hash enumerators went through the raw enumerator
  value on the way in and through \<open>convHashType_IntToEnum\<close> and \<open>convHashVerif_IntToEnum\<close> on the
  way out.\<close>

definition curl_readback :: "bool \<Rightarrow> curl_dl_info \<Rightarrow> curl_dl_info" where
  "curl_readback garbage dl = dl\<lparr>
     cd_ext_info := (cd_ext_info dl)\<lparr>ce_elapsed := Finite (- 1),
       ce_status_ok := (if 200 \<le> ce_response_code (cd_ext_info dl) \<and> ce_response_code (cd_ext_info dl) < 300
                        then True else garbage)\<rparr>,
     cd_hash_type := convHashType_IntToEnum (hash_type_index (cd_hash_type dl)),
     cd_hash_succ_type := convHashVerif_IntToEnum (hash_verif_index (cd_hash_succ_type dl))\<rparr>"

definition storable_curl :: "curl_dl_info \<Rightarrow> bool" where
  "storable_curl dl \<longleftrightarrow> fits64 (cd_insert_timestamp dl) \<and> fits64 (cd_complt_timestamp dl) \<and>
     fits64 (ce_response_code (cd_ext_info dl)) \<and>
     (\<exists>n. \<bar>n\<bar> < 2 ^ 53 \<and> ce_content_length (cd_ext_info dl) = Finite (of_int n))"

lemma decode_curl_values:
  assumes "storable_curl dl"
  shows "decode_curl g (cd_unique_id dl) (cd_file_loc dl) (map snd (curl_values dl)) =
    Inr (curl_readback g dl)"
proof -
  obtain n where "\<bar>n\<bar> < 2 ^ 53" "ce_content_length (cd_ext_info dl) = Finite (of_int n)"
    using assms by (auto simp: storable_curl_def)
  then have "stod (to_string_double (ce_content_length (cd_ext_info dl))) =
      Inr (ce_content_length (cd_ext_info dl))"
    by (simp add: stod_to_string_lemma del: to_string_double.simps)
  with assms show ?thesis
    by (simp add: decode_curl_def curl_values_def Let_def curl_readback_def storable_curl_def
        dl_stat.dec_enc)
qed

lemma keys_of_curl_values: "map fst (curl_values dl) = curl_item_keys"
  by (simp add: curl_values_def curl_item_keys_def)

lemma map_of_rev_values:
  "distinct (map fst kvs) \<Longrightarrow> map_of (rev kvs) = map_of kvs"
proof
  fix k
  assume d: "distinct (map fst kvs)"
  then have d': "distinct (map fst (rev kvs))" by (simp add: rev_map [symmetric])
  show "map_of (rev kvs) k = map_of kvs k"
  proof (cases "map_of kvs k")
    case None
    then show ?thesis by (metis map_of_eq_None_iff set_rev)
  next
    case (Some v)
    with d d' show ?thesis by (simp add: map_of_eq_Some_iff)
  qed
qed

lemma decoded_after_values:
  assumes "storable_curl dl" and "i = cd_unique_id dl" and "p = cd_file_loc dl"
    and "\<And>k. k \<in> set curl_item_keys \<Longrightarrow> item_get w i k = map_of (curl_values dl) k"
  shows "decoded_curl w (i, p, t) = Inr (curl_readback (w_garbage w) dl)"
proof -
  have d: "distinct (map fst (curl_values dl))" by (simp add: keys_of_curl_values)
  have "map (\<lambda>k. the (item_get w i k)) curl_item_keys = map (\<lambda>k. the (map_of (curl_values dl) k)) (map fst (curl_values dl))"
    using assms(4) by (simp add: keys_of_curl_values)
  also have "\<dots> = map snd (curl_values dl)"
    using d by (auto simp: o_def map_of_eq_Some_iff intro!: map_cong)
  finally have t: "map (\<lambda>k. the (item_get w i k)) curl_item_keys = map snd (curl_values dl)" .
  have "item_get w i k \<noteq> None" if "k \<in> set curl_item_keys" for k
    using assms(4) [OF that] that unfolding keys_of_curl_values [of dl, symmetric]
    by (simp add: map_of_eq_None_iff)
  then have "list_all (\<lambda>k. item_get w i k \<noteq> None) curl_item_keys" by (simp add: list_all_iff)
  then show ?thesis
    using decode_curl_values [OF assms(1)] t assms(2,3) by (simp add: decoded_curl_def)
qed

lemma decoded_other:
  "(\<And>k. item_get w' i k = item_get w i k) \<Longrightarrow> w_garbage w' = w_garbage w \<Longrightarrow>
     decoded_curl w' (i, p, t) = decoded_curl w (i, p, t)"
  by (rule decoded_curl_cong)

lemma curl_items_cong:
  "(\<And>i p. (i, p, False) \<in> set es \<Longrightarrow> decoded_curl w' (i, p, False) = decoded_curl w (i, p, False)) \<Longrightarrow>
     curl_items w' es = curl_items w es"
  by (auto simp: curl_items_def intro!: map_cong)

text \<open>Adding an item to a well-formed history appends its read-back form.\<close>

lemma add_curl_history:
  assumes "history w es" and "healthy w" and "\<not> w_held w W_curl"
    and "ce_status_ok (cd_ext_info dl)" and "cd_dlStatus dl \<in> {Stopped, Invalid, Unknown}"
    and "valid_entry (cd_unique_id dl, cd_file_loc dl, False)"
    and "UNDERSCORE \<notin> set (cd_unique_id dl)" and "cd_unique_id dl \<notin> fst ` set es"
    and "storable_curl (stamp_curl (w_now w) dl)"
  shows "\<exists>w'. addCurlItem dl w = (Ok (True, stamp_curl (w_now w) dl), w') \<and>
    history w' (es @ [(cd_unique_id dl, cd_file_loc dl, False)]) \<and>
    curl_items w' (es @ [(cd_unique_id dl, cd_file_loc dl, False)]) =
      curl_items w es @ [curl_readback (w_garbage w) (stamp_curl (w_now w) dl)] \<and>
    w_boxes w' = w_boxes w \<and> same_env w w'"
proof -
  define dl' where "dl' = stamp_curl (w_now w) dl"
  define i where "i = cd_unique_id dl"
  define p where "p = cd_file_loc dl"
  have dl': "cd_unique_id dl' = i" "cd_file_loc dl' = p"
    by (simp_all add: dl'_def i_def p_def stamp_curl_def)
  note h = historyD [OF assms(1)]
  have ne: "i \<noteq> []" using assms(6) by (simp add: i_def valid_entry_def clean_field_def)
  have v: "valid_entry (i, p, False)" using assms(6) by (simp add: i_def p_def)
  from add_registered [OF h(1) assms(2) ne v] obtain w1 where
    w1: "add_download_id p False i w = (Ok i, w1)" "registered w1 (es @ [(i, p, False)])" "healthy w1"
      "w_boxes w1 = w_boxes w" "\<And>k. k \<noteq> STORE_UNIQUE_ID \<Longrightarrow> kv_get w1 k = kv_get w k" by blast
  have e1: "same_env w w1" using env_registry(2) w1(1) by (metis preservesD)
  have i: "UNDERSCORE \<notin> set i" using assms(7) by (simp add: i_def)
  obtain w2 where w2: "add_items i (curl_values dl') w1 = (Ok (), w2)" "w_boxes w2 = w_boxes w1"
    "registry_text w2 = registry_text w1" "same_env w1 w2"
    and get: "\<And>j k. UNDERSCORE \<notin> set j \<Longrightarrow> item_get w2 j k =
      (if j = i then case map_of (rev (curl_values dl')) k of Some v \<Rightarrow> Some v | None \<Rightarrow> item_get w1 j k
       else item_get w1 j k)"
    using add_items_healthy [OF w1(3) i] by blast
  have env: "same_env w w2" using e1 w2(4) env.trans by (meson transpD)
  have run: "addCurlItem dl w = (Ok (True, dl'), w2)"
    using w1(1) w2(1) assms(3,4,5)
    by (auto simp: addCurlItem_def try_lock_free Let_def dl'_def [symmetric] dl' prog_simps)
  have other: "decoded_curl w2 (j, q, t) = decoded_curl w (j, q, t)" if "(j, q, t) \<in> set es" for j q t
  proof (rule decoded_other)
    have "j \<noteq> i" using that assms(8) by (force simp: i_def)
    moreover have "UNDERSCORE \<notin> set j" using h(4) that by blast
    ultimately show "item_get w2 j k = item_get w j k" for k
      using w1(5) [OF multipart_key_not_registry] by (simp add: get) (simp add: item_get_def)
    show "w_garbage w2 = w_garbage w" using same_envD [OF env] by simp
  qed
  have new: "decoded_curl w2 (i, p, False) = Inr (curl_readback (w_garbage w) dl')"
  proof -
    have d: "distinct (map fst (curl_values dl'))" by (simp add: keys_of_curl_values)
    have "item_get w2 i k = map_of (curl_values dl') k" if "k \<in> set curl_item_keys" for k
      using that keys_of_curl_values [of dl'] i
      by (auto simp: get map_of_rev_values [OF d] map_of_eq_None_iff split: option.splits)
        (metis list.set_map map_of_eq_None_iff option.distinct(1))
    from decoded_after_values [where t = False and p = p, OF _ _ _ this] assms(9) same_envD [OF env]
    show ?thesis by (simp add: dl'_def [symmetric] dl')
  qed
  have "registered w2 (es @ [(i, p, False)])"
    using w1(2) w2(3) by (simp add: registered_def)
  moreover have "distinct (map fst (es @ [(i, p, False)]))" using h(2) assms(8) by (simp add: i_def)
  ultimately have "history w2 (es @ [(i, p, False)])"
    using assms(1) other new i by (auto simp: history_def)
  moreover have "curl_items w2 (es @ [(i, p, False)]) = curl_items w es @ [curl_readback (w_garbage w) dl']"
    using curl_items_cong [of es w2 w] other new by (simp add: curl_items_def)
  ultimately show ?thesis
    using run w1(4) w2(2) env unfolding i_def p_def dl'_def by auto
qed

section \<open>Modifying an item\<close>

definition modify_values :: "download_status \<Rightarrow> int \<Rightarrow> string \<Rightarrow> hash_type \<Rightarrow> string \<Rightarrow> hash_verif \<Rightarrow>
    (string \<times> string) list" where
  "modify_values status complt given ty rtrnd succ =
     (KEY_CURL_STAT, to_string_int (convDlStat_toInt status)) #
     (if 0 < complt then [(KEY_CURL_COMPLT_DATE, to_string_int complt)] else []) @
     (if succ \<noteq> NotApplicable then
        [(KEY_CURL_HASH_TYPE, to_string_int (convHashType_toInt ty)),
         (KEY_CURL_HASH_VAL_GIVEN, given), (KEY_CURL_HASH_VAL_RTRND, rtrnd),
         (KEY_CURL_HASH_SUCC_TYPE, to_string_int (convHashVerif_toInt succ))]
      else [])"

text \<open>What the modification is on the item as it reads back: here the hash enumerators survive,
  and they are left alone unless a verification result comes with them.\<close>

definition modified_curl :: "download_status \<Rightarrow> int \<Rightarrow> string \<Rightarrow> hash_type \<Rightarrow> string \<Rightarrow> hash_verif \<Rightarrow>
    curl_dl_info \<Rightarrow> curl_dl_info" where
  "modified_curl status complt given ty rtrnd succ d =
     (let d = d\<lparr>cd_dlStatus := status\<rparr>;
          d = (if 0 < complt then d\<lparr>cd_complt_timestamp := complt\<rparr> else d)
      in if succ \<noteq> NotApplicable then
           d\<lparr>cd_hash_type := ty, cd_hash_val_given := given, cd_hash_val_rtrnd := rtrnd,
             cd_hash_succ_type := succ\<rparr>
         else d)"

lemma decode_modified:
  assumes "decode_curl g i p (map f curl_item_keys) = Inr d" and "fits64 complt"
    and "\<And>k. k \<in> set curl_item_keys \<Longrightarrow> f' k =
      (case map_of (modify_values status complt given ty rtrnd succ) k of Some v \<Rightarrow> v | None \<Rightarrow> f k)"
  shows "decode_curl g i p (map f' curl_item_keys) =
    Inr (modified_curl status complt given ty rtrnd succ d)"
proof -
  have keys: "map f' curl_item_keys = map (\<lambda>k. case map_of (modify_values status complt given ty rtrnd succ) k of
      Some v \<Rightarrow> v | None \<Rightarrow> f k) curl_item_keys"
    using assms(3) by (rule map_cong [OF HOL.refl])
  show ?thesis
    using assms(1,2) unfolding keys
    by (auto simp: modify_values_def curl_item_keys_def decode_curl_def Let_def modified_curl_def
        dl_stat.dec_enc hash_type_int.dec_enc hash_verif_int.dec_enc split: sum.splits)
qed

lemma add_items_append:
  "seqp (add_items i kvs) (seqp (add_items i kvs') m) = seqp (add_items i (kvs @ kvs')) m"
proof (induction kvs)
  case (Cons kv kvs)
  have assoc: "seqp (seqp a b) c = seqp a (seqp b c)" for a b :: "('z, unit) action" and c :: "('z, 'b) action"
    by (simp add: seqp_def bindp_def fun_eq_iff split: outcome.split prod.split)
  show ?case using Cons by (simp add: add_items_def assoc)
qed (simp only: add_items_def each.simps seqp_ret append.simps)

lemma add_items_single: "add_item_db i k v = add_items i [(k, v)]"
  by (simp add: add_items_def fun_eq_iff seqp_def bindp_def split: outcome.split prod.split)

lemma add_items_none: "ret () = add_items i []"
  by (simp add: add_items_def)

lemma modify_body:
  "seqp (add_item_db i KEY_CURL_STAT (to_string_int (convDlStat_toInt status)))
     (seqp (if 0 < complt then add_item_db i KEY_CURL_COMPLT_DATE (to_string_int complt) else ret ())
     (seqp (if succ \<noteq> NotApplicable then
              add_items i [(KEY_CURL_HASH_TYPE, to_string_int (convHashType_toInt ty)),
                (KEY_CURL_HASH_VAL_GIVEN, given), (KEY_CURL_HASH_VAL_RTRND, rtrnd),
                (KEY_CURL_HASH_SUCC_TYPE, to_string_int (convHashVerif_toInt succ))]
            else ret ()) m)) =
   seqp (add_items i (modify_values status complt given ty rtrnd succ)) m"
  by (simp add: add_items_single add_items_none [of i] add_items_append modify_values_def)

lemma modify_curl_history:
  assumes "history w es" and "healthy w" and "\<not> w_held w W_curl" and "fits64 complt"
    and "(i, p, False) \<in> set es" and "\<And>j u. (j, p, u) \<in> set es \<Longrightarrow> j = i"
  shows "\<exists>w'. modifyCurlItem p status complt given ty rtrnd succ w = (Ok True, w') \<and> history w' es \<and>
    curl_items w' es = map (\<lambda>d. if cd_unique_id d = i
      then modified_curl status complt given ty rtrnd succ d else d) (curl_items w es) \<and>
    w_boxes w' = w_boxes w \<and> same_env w w'"
proof -
  note h = historyD [OF assms(1)]
  obtain w1 where w1: "determine_download_id p w = (Ok (i, False), w1)" and same: "same_world w w1"
    using determine_unique [OF h(1) assms(2) h(2) assms(5,6)] .
  note s = same_worldD [OF same]
  have i: "UNDERSCORE \<notin> set i" using h(4) assms(5) by blast
  have ne: "i \<noteq> []" using h(3) assms(5) by (auto simp: list_all_iff valid_entry_def clean_field_def)
  define kvs where "kvs = modify_values status complt given ty rtrnd succ"
  have "healthy w1" using s assms(2) by simp
  then obtain w2 where w2: "add_items i kvs w1 = (Ok (), w2)" "w_boxes w2 = w_boxes w1"
    "registry_text w2 = registry_text w1" "same_env w1 w2"
    and get: "\<And>j k. UNDERSCORE \<notin> set j \<Longrightarrow> item_get w2 j k =
      (if j = i then case map_of (rev kvs) k of Some v \<Rightarrow> Some v | None \<Rightarrow> item_get w1 j k
       else item_get w1 j k)"
    using add_items_healthy [OF _ i] by blast
  have dist: "distinct (map fst kvs)" by (auto simp: kvs_def modify_values_def)
  have env: "same_env w w2" using s(10) w2(4) env.trans by (meson transpD)
  have run: "modifyCurlItem p status complt given ty rtrnd succ w = (Ok True, w2)"
    using w1 w2(1) ne assms(3) s(8) unfolding modifyCurlItem_def modify_body Let_def kvs_def
    by (simp add: prog_simps try_lock_free)
  have other: "decoded_curl w2 (j, q, t) = decoded_curl w (j, q, t)"
    if "(j, q, t) \<in> set es" and "j \<noteq> i" for j q t
    using get [of j] h(4) that same_world_item [OF same] same_envD(5) [OF env]
    by (intro decoded_other) auto
  obtain d where d: "decoded_curl w (i, p, False) = Inr d" using h(5) assms(5) by blast
  have new: "decoded_curl w2 (i, p, False) = Inr (modified_curl status complt given ty rtrnd succ d)"
  proof -
    have all: "list_all (\<lambda>k. item_get w i k \<noteq> None) curl_item_keys"
      and dec: "decode_curl (w_garbage w) i p (map (\<lambda>k. the (item_get w i k)) curl_item_keys) = Inr d"
      using d by (auto simp: decoded_curl_def split: if_splits)
    have g: "item_get w2 i k = (case map_of kvs k of Some v \<Rightarrow> Some v | None \<Rightarrow> item_get w i k)" for k
      using get [OF i] map_of_rev_values [OF dist] same_world_item [OF same]
      by (simp split: option.split)
    have "list_all (\<lambda>k. item_get w2 i k \<noteq> None) curl_item_keys"
      using all by (auto simp: list_all_iff g split: option.splits)
    moreover have "decode_curl (w_garbage w) i p (map (\<lambda>k. the (item_get w2 i k)) curl_item_keys) =
        Inr (modified_curl status complt given ty rtrnd succ d)"
      by (rule decode_modified [OF dec assms(4)]) (simp add: g kvs_def split: option.splits)
    ultimately show ?thesis using same_envD(5) [OF env] by (simp add: decoded_curl_def)
  qed
  have same_entry: "(j, q, t) = (i, p, False)" if "(j, q, t) \<in> set es" and "j = i" for j q t
    using that assms(5) h(2) by (metis eq_key_imp_eq_value)
  have "registered w1 es" using h(1) s(1) by simp
  then have "registered w2 es" using w2(3) by (simp add: registered_def)
  moreover have "UNDERSCORE \<notin> set j \<and> (\<not> u \<longrightarrow> (\<exists>d. decoded_curl w2 (j, q, u) = Inr d))"
    if "(j, q, u) \<in> set es" for j q u
    using that h(4,5) other [OF that] new same_entry [OF that] by (cases "j = i") auto
  ultimately have "history w2 es" using h(2) by (auto simp: history_def)
  moreover have "curl_items w2 es = map (\<lambda>d. if cd_unique_id d = i
      then modified_curl status complt given ty rtrnd succ d else d) (curl_items w es)"
    unfolding curl_items_def map_map o_def
  proof (rule map_cong [OF HOL.refl])
    fix e
    assume "e \<in> set (filter (\<lambda>(i, p, t). \<not> t) es)"
    then obtain j q where e: "e = (j, q, False)" "(j, q, False) \<in> set es" by auto
    then obtain d' where d': "decoded_curl w (j, q, False) = Inr d'" using h(5) by blast
    show "projr (decoded_curl w2 e) = (if cd_unique_id (projr (decoded_curl w e)) = i
        then modified_curl status complt given ty rtrnd succ (projr (decoded_curl w e))
        else projr (decoded_curl w e))"
      using e d' decoded_curl_id [OF d'] other [of j q False] new d same_entry [of j q False]
      by (cases "j = i") auto
  qed
  ultimately show ?thesis using run w2(2) s(5) env by auto
qed

section \<open>Deleting an item\<close>

lemma del_items_run:
  "healthy w \<Longrightarrow> \<exists>w'. each (del_item_db i) ks w = (Ok (), w') \<and> w_boxes w' = w_boxes w \<and>
     (\<forall>k. kv_get w' k = kv_get (kv.del_all (map (\<lambda>k. multipart_key [i, k]) ks) w) k)"
proof (induction ks arbitrary: w)
  case (Cons k ks)
  define w1 where "w1 = db_tick (kv_del (multipart_key [i, k]) w)"
  have h: "healthy w1" using Cons.prems by (simp add: w1_def)
  obtain w' where w': "each (del_item_db i) ks w1 = (Ok (), w')" "w_boxes w' = w_boxes w1"
    "\<forall>k. kv_get w' k = kv_get (kv.del_all (map (\<lambda>k. multipart_key [i, k]) ks) w1) k"
    using Cons.IH [OF h] by blast
  have "each (del_item_db i) (k # ks) w = (Ok (), w')"
    using w'(1) Cons.prems by (simp add: seqp_Ok del_item_run w1_def)
  moreover have "kv_get w' k' = kv_get (kv.del_all (map (\<lambda>k. multipart_key [i, k]) (k # ks)) w) k'" for k'
    unfolding w'(3) [rule_format] kv.get_del_all by (simp add: w1_def kv.get_del)
  ultimately show ?case using w'(2) by (simp add: w1_def)
qed (simp add: kv.del_all_def)

lemma del_items_healthy:
  assumes "healthy w" and "UNDERSCORE \<notin> set i"
  obtains w' where "each (del_item_db i) ks w = (Ok (), w')" and "w_boxes w' = w_boxes w"
    and "registry_text w' = registry_text w" and "same_env w w'"
    and "\<And>j k. UNDERSCORE \<notin> set j \<Longrightarrow>
      item_get w' j k = (if j = i \<and> k \<in> set ks then None else item_get w j k)"
proof -
  obtain w' where w': "each (del_item_db i) ks w = (Ok (), w')" "w_boxes w' = w_boxes w"
    "\<forall>k. kv_get w' k = kv_get (kv.del_all (map (\<lambda>k. multipart_key [i, k]) ks) w) k"
    using del_items_run [OF assms(1)] by blast
  have "preserves same_env (each (del_item_db i) ks)" by (intro env.keeps env_keeps)
  then have "same_env w w'" using w'(1) by (metis preservesD)
  moreover have "registry_text w' = registry_text w"
    using w'(3) by (auto simp: registry_text_def kv.get_del_all multipart_key_not_registry [symmetric])
  moreover have "item_get w' j k = (if j = i \<and> k \<in> set ks then None else item_get w j k)"
    if "UNDERSCORE \<notin> set j" for j k
    using w'(3) assms(2) that by (auto simp: item_get_def kv.get_del_all multipart_key_inject)
  ultimately show ?thesis using that [OF w'(1,2)] by blast
qed

text \<open>Deleting by identifier: the item is gone with all its values, the other HTTP and FTP items
  are as they were, and the registry has lost every torrent.\<close>

lemma del_curl_history:
  assumes "history w es" and "healthy w" and "fair_order w" and "\<not> w_held w W_curl"
    and "i \<noteq> []" and "UNDERSCORE \<notin> set i"
  shows "\<exists>w' es'. delCurlItem p i w = (Ok True, w') \<and> history w' es' \<and>
    mset es' = mset (filter (\<lambda>(j, q, t). \<not> t \<and> j \<noteq> i) es) \<and>
    mset (curl_items w' es') = mset (filter (\<lambda>d. cd_unique_id d \<noteq> i) (curl_items w es)) \<and>
    (\<forall>k \<in> set curl_item_keys. item_get w' i k = None) \<and> w_boxes w' = w_boxes w"
proof -
  note h = historyD [OF assms(1)]
  obtain w1 where w1: "each (del_item_db i) curl_item_keys w = (Ok (), w1)" "w_boxes w1 = w_boxes w"
    "registry_text w1 = registry_text w" "same_env w w1"
    and get: "\<And>j k. UNDERSCORE \<notin> set j \<Longrightarrow>
      item_get w1 j k = (if j = i \<and> k \<in> set curl_item_keys then None else item_get w j k)"
    using del_items_healthy [OF assms(2,6)] by blast
  have r1: "registered w1 es" using h(1) w1(3) by (simp add: registered_def)
  have env1: "healthy w1" "fair_order w1" "\<not> w_held w1 W_curl"
    using same_envD [OF w1(4)] assms(2,3,4) by simp_all
  obtain es' w2 where w2: "del_download_id i False w1 = (Ok True, w2)" "registered w2 es'"
      "mset es' = mset (filter (\<lambda>(j, p, t). t = False \<and> j \<noteq> i) es)" "w_boxes w2 = w_boxes w1"
    and get2: "\<And>k. k \<noteq> STORE_UNIQUE_ID \<Longrightarrow> kv_get w2 k = kv_get w1 k"
    using del_registered [OF r1 env1(1,2) h(2), of i False] by blast
  have env2: "same_env w1 w2" using env_registry(4) w2(1) by (metis preservesD)
  have env: "same_env w w2" using w1(4) env2 env.trans by (meson transpD)
  have item2: "item_get w2 j k = item_get w1 j k" for j k
    using get2 [OF multipart_key_not_registry] by (simp add: item_get_def)
  have run: "delCurlItem p i w = (Ok True, w2)"
    using w1(1) w2(1) assms(4,5) by (simp add: delCurlItem_def try_lock_free prog_simps)
  from w2(3) have set: "set es' = set (filter (\<lambda>(j, p, t). t = False \<and> j \<noteq> i) es)" by (rule mset_eq_setD)
  have kept: "decoded_curl w2 (j, q, t) = decoded_curl w (j, q, t)"
    if "(j, q, t) \<in> set es" and "j \<noteq> i" for j q t
    using get [of j] h(4) that same_envD(5) [OF env] item2 by (intro decoded_other) auto
  have "distinct (map fst (filter (\<lambda>(j, p, t). t = False \<and> j \<noteq> i) es))"
    using h(2) by (simp add: distinct_map_filter)
  then have dist: "distinct (map fst es')"
    using w2(3) by (metis mset_eq_imp_distinct_iff mset_map)
  have "history w2 es'"
    using w2(2) dist assms(1) kept unfolding history_def set by auto
  moreover have "mset (curl_items w2 es') = mset (filter (\<lambda>d. cd_unique_id d \<noteq> i) (curl_items w es))"
  proof -
    have all: "filter (\<lambda>(i, p, t). \<not> t) es' = es'" by (rule filter_True) (auto simp: set)
    have id: "cd_unique_id (projr (decoded_curl w e)) = fst e" if "e \<in> set es" "\<not> snd (snd e)" for e
    proof -
      obtain j q t where e: "e = (j, q, t)" by (rule prod_cases3)
      with that obtain d where "decoded_curl w e = Inr d" using h(5) by auto
      with decoded_curl_id e show ?thesis by fastforce
    qed
    have "mset (curl_items w2 es') = image_mset (\<lambda>e. projr (decoded_curl w2 e)) (mset es')"
      by (simp add: curl_items_def all)
    also have "\<dots> = image_mset (\<lambda>e. projr (decoded_curl w e)) (mset es')"
      by (rule image_mset_cong) (auto simp: set kept)
    also have "\<dots> = mset (map (\<lambda>e. projr (decoded_curl w e)) (filter (\<lambda>(j, p, t). t = False \<and> j \<noteq> i) es))"
      by (simp add: w2(3))
    also have "map (\<lambda>e. projr (decoded_curl w e)) (filter (\<lambda>(j, p, t). t = False \<and> j \<noteq> i) es) =
        filter (\<lambda>d. cd_unique_id d \<noteq> i) (curl_items w es)"
      unfolding curl_items_def filter_map o_def filter_filter
      by (intro arg_cong [where f = "map _"] filter_cong) (auto simp: id)
    finally show ?thesis .
  qed
  moreover have "\<forall>k \<in> set curl_item_keys. item_get w2 i k = None" using get assms(6) item2 by simp
  moreover have "mset es' = mset (filter (\<lambda>(j, q, t). \<not> t \<and> j \<noteq> i) es)" using w2(3) by simp
  ultimately show ?thesis using run w1(2) w2(4) by auto
qed

section \<open>Damaged histories\<close>

text \<open>One registered item without all its values makes the whole history unreadable: reading ends
  with a message box and no items.\<close>

definition finished :: "'a outcome \<Rightarrow> bool" where
  "finished r \<longleftrightarrow> (case r of Ok _ \<Rightarrow> True | Throw e \<Rightarrow> std_exception e | _ \<Rightarrow> False)"

lemma finished_simps [simp]:
  "finished (Ok a)" "finished (Throw e) \<longleftrightarrow> std_exception e" "\<not> finished Hang" "\<not> finished Undefined"
  by (simp_all add: finished_def)

lemma collect_throws:
  assumes "\<And>x u. x \<in> set xs \<Longrightarrow> same_world w u \<Longrightarrow> \<exists>r u'. f x u = (r, u') \<and> same_world w u' \<and> finished r"
    and "x \<in> set xs" and "\<And>u. same_world w u \<Longrightarrow> \<exists>e u'. f x u = (Throw e, u')" and "same_world w u"
  shows "\<exists>e u'. collect f xs u = (Throw e, u') \<and> same_world w u' \<and> std_exception e"
  using assms
proof (induction xs arbitrary: u)
  case (Cons y ys)
  obtain r u1 where r: "f y u = (r, u1)" "same_world w u1" "finished r"
    using Cons.prems(1) [of y u] Cons.prems(4) by auto
  show ?case
  proof (cases r)
    case (Ok a)
    then have "x \<noteq> y" using Cons.prems(3) [OF Cons.prems(4)] r(1) by auto
    then have "x \<in> set ys" using Cons.prems(2) by simp
    with Cons.IH [OF Cons.prems(1) this Cons.prems(3) r(2)] r(1) Ok show ?thesis
      by (fastforce simp: prog_simps)
  qed (use r in \<open>auto simp: prog_simps\<close>)
qed simp

lemma read_item_cases:
  "same_world w u \<Longrightarrow> \<exists>r u'. read_item_db i k u = (r, u') \<and> same_world w u' \<and> finished r"
  by (simp add: read_item_run split: option.splits if_splits)

lemma collect_cases:
  assumes "\<And>x u. same_world w u \<Longrightarrow> \<exists>r u'. f x u = (r, u') \<and> same_world w u' \<and> finished r"
    and "same_world w u"
  shows "\<exists>r u'. collect f xs u = (r, u') \<and> same_world w u' \<and> finished r"
  using assms(2)
proof (induction xs arbitrary: u)
  case (Cons y ys)
  obtain r u1 where r: "f y u = (r, u1)" "same_world w u1" "finished r"
    using assms(1) [OF Cons.prems] by blast
  obtain r' u2 where r': "collect f ys u1 = (r', u2)" "same_world w u2" "finished r'"
    using Cons.IH [OF r(2)] by blast
  show ?case using r r' by (cases r; cases r') (simp_all add: prog_simps)
qed simp

lemma decode_curl_exn: "decode_curl g i p ts = Inl e \<Longrightarrow> std_exception e"
  by (auto simp: decode_curl_def Let_def split: list.splits sum.splits dest: stod_exn)

lemma read_curl_item_cases:
  assumes "same_world w u"
  shows "\<exists>r u'. read_curl_item e u = (r, u') \<and> same_world w u' \<and> finished r"
proof -
  obtain i p t where e: "e = (i, p, t)" by (rule prod_cases3)
  obtain r u' where "collect (read_item_db i) curl_item_keys u = (r, u')" "same_world w u'" "finished r"
    using collect_cases [of w "read_item_db i", OF read_item_cases assms] by blast
  then show ?thesis
    by (cases r) (auto simp: read_curl_item_def e prog_simps liftp_def split: sum.splits
        dest: decode_curl_exn)
qed

lemma read_curl_item_damaged:
  assumes "healthy w" and "k \<in> set curl_item_keys" and "item_get w i k = None" and "same_world w u"
  shows "\<exists>e u'. read_curl_item (i, p, t) u = (Throw e, u')"
proof -
  have "\<exists>e u'. read_item_db i k v = (Throw e, u')" if "same_world w v" for v
    using assms(3) same_worldD(6) [OF that] by (simp add: read_item_run item_get_def)
  from collect_throws [of curl_item_keys w "read_item_db i", OF read_item_cases assms(2) this assms(4)]
  show ?thesis by (auto simp: read_curl_item_def prog_simps)
qed

lemma read_curl_damaged:
  assumes "registered w es" and "distinct (map fst es)" and "healthy w" and "fair_order w"
    and "\<not> w_held w R_curl" and "(i, p, False) \<in> set es"
    and "k \<in> set curl_item_keys" and "item_get w i k = None"
  shows "\<exists>w'. readCurlItems w = (Ok [], w') \<and> w_boxes w' = w_boxes w @ [Warning ''Error!'']"
proof -
  obtain ids w1 where x: "extract_download_ids False w = (Ok ids, w1)" and same: "same_world w w1"
    and ids: "mset ids = mset (filter (\<lambda>(i, p, t). t = False) es)"
    using extract_registered [OF assms(1,3,4,2)] by blast
  from ids have set: "set ids = set (filter (\<lambda>(i, p, t). t = False) es)" by (rule mset_eq_setD)
  then have i: "(i, p, False) \<in> set ids" using assms(6) by auto
  have "valid_entry (i, p, False)" using assms(1,6) by (auto simp: registered_def list_all_iff)
  then have "(i, p, False) \<in> set (filter (\<lambda>(i, p, t). \<not> t \<and> p \<noteq> []) ids)"
    using i by (simp add: valid_entry_def clean_field_def)
  from collect_throws [of _ w read_curl_item, OF read_curl_item_cases this
      read_curl_item_damaged [OF assms(3,7,8)] same]
  obtain e w2 where c: "collect read_curl_item (filter (\<lambda>(i, p, t). \<not> t \<and> p \<noteq> []) ids) w1 = (Throw e, w2)"
    and w2: "same_world w w2" and std: "std_exception e" by blast
  have "\<not> w_held w1 R_curl" using assms(5) same_worldD(8) [OF same] by simp
  moreover have "ids \<noteq> []" using i by auto
  ultimately have "readCurlItems w = (Ok [], w2\<lparr>w_boxes := w_boxes w2 @ [Warning ''Error!'']\<rparr>)"
    using c x std by (simp add: readCurlItems_def prog_simps try_lock_free)
  then show ?thesis using same_worldD(5) [OF w2] by simp
qed

section \<open>Properties\<close>

text \<open>An item as the main window hands it over, and a history with that one item.\<close>

definition sample_curl :: curl_dl_info where
  "sample_curl =
     \<lparr>cd_file_loc = ''/home/u/disc.iso'', cd_insert_timestamp = 0, cd_complt_timestamp = 0,
      cd_dlStatus = Invalid,
      cd_ext_info = \<lparr>ce_status_ok = True, ce_status_msg = ''OK'', ce_response_code = 200,
        ce_elapsed = Finite 0, ce_effective_url = ''http://h/disc.iso'', ce_content_length = Finite 2048\<rparr>,
      cd_unique_id = ''0123456789'', cd_hash_type = SHA256, cd_hash_val_given = ''ab'',
      cd_hash_val_rtrnd = [], cd_hash_succ_type = NotApplicable\<rparr>"

lemma sample_facts:
  "history (fresh_world 7) []" "curl_items (fresh_world 7) [] = []"
  "ce_status_ok (cd_ext_info sample_curl)" "cd_dlStatus sample_curl \<in> {Stopped, Invalid, Unknown}"
  "valid_entry (cd_unique_id sample_curl, cd_file_loc sample_curl, False)"
  "UNDERSCORE \<notin> set (cd_unique_id sample_curl)"
  "storable_curl (stamp_curl (w_now (fresh_world 7)) sample_curl)"
proof -
  have "(2048 :: rat) = of_int 2048" by simp
  then have "\<exists>n :: int. \<bar>n\<bar> < 2 ^ 53 \<and> (2048 :: rat) = of_int n"
    by (intro exI [of _ 2048]) simp
  then show "storable_curl (stamp_curl (w_now (fresh_world 7)) sample_curl)"
    by (simp add: storable_curl_def stamp_curl_def sample_curl_def fits64_def int64_min_def int64_max_def)
qed (simp_all add: history_def registered_def registry_text_def curl_items_def sample_curl_def
  valid_entry_def clean_field_def)

lemma sample_history:
  obtains w :: world where "history w [(''0123456789'', ''/home/u/disc.iso'', False)]" and "same_env (fresh_world 7) w"
    and "curl_items w [(''0123456789'', ''/home/u/disc.iso'', False)] =
      [curl_readback False (stamp_curl 7 sample_curl)]"
  using add_curl_history [OF sample_facts(1) _ _ sample_facts(3-6) _ sample_facts(7)] sample_facts(2)
  by (auto simp: sample_curl_def fresh_world_def healthy_def)

text \<open>C6: \<open>addCurlItem\<close> on a well-formed history: the registry and the history grow by the new item,
  every other item reads back as before, and what reads back for the new one is \<open>curl_readback\<close>
  of it: status Unknown, the time of insertion, and its hash enumerators recoded.\<close>

theorem addCurlItem_appends:
  assumes "history w es" and "healthy w" and "\<not> w_held w W_curl"
    and "ce_status_ok (cd_ext_info dl)" and "cd_dlStatus dl \<in> {Stopped, Invalid, Unknown}"
    and "valid_entry (cd_unique_id dl, cd_file_loc dl, False)"
    and "UNDERSCORE \<notin> set (cd_unique_id dl)" and "cd_unique_id dl \<notin> fst ` set es"
    and "storable_curl (stamp_curl (w_now w) dl)"
  shows "\<exists>w'. addCurlItem dl w = (Ok (True, stamp_curl (w_now w) dl), w') \<and>
    history w' (es @ [(cd_unique_id dl, cd_file_loc dl, False)]) \<and>
    curl_items w' (es @ [(cd_unique_id dl, cd_file_loc dl, False)]) =
      curl_items w es @ [curl_readback (w_garbage w) (stamp_curl (w_now w) dl)] \<and>
    w_boxes w' = w_boxes w \<and> same_env w w'"
  by (rule add_curl_history [OF assms])

theorem addCurlItem_appends_witness:
  "\<exists>w'. addCurlItem sample_curl (fresh_world 7) = (Ok (True, stamp_curl 7 sample_curl), w') \<and>
     curl_items w' [(''0123456789'', ''/home/u/disc.iso'', False)] =
       [curl_readback False (stamp_curl 7 sample_curl)]"
  using addCurlItem_appends [OF sample_facts(1) _ _ sample_facts(3-6) _ sample_facts(7)] sample_facts(2)
  by (auto simp: sample_curl_def fresh_world_def healthy_def)

text \<open>C7: \<open>readCurlItems\<close> on a well-formed history returns every item once, in the order of the hash
  table, and changes nothing.\<close>

theorem readCurlItems_complete:
  assumes "history w es" and "healthy w" and "fair_order w" and "\<not> w_held w R_curl"
  shows "\<exists>out w'. readCurlItems w = (Ok out, w') \<and> mset out = mset (curl_items w es) \<and> same_world w w'"
  by (rule read_curl_history [OF assms])

theorem readCurlItems_complete_witness:
  "\<exists>(w :: world) w'. curl_items w [(''0123456789'', ''/home/u/disc.iso'', False)] =
       [curl_readback False (stamp_curl 7 sample_curl)] \<and>
     readCurlItems w = (Ok [curl_readback False (stamp_curl 7 sample_curl)], w')"
proof -
  obtain w :: world where w: "history w [(''0123456789'', ''/home/u/disc.iso'', False)]" "same_env (fresh_world 7) w"
    and c: "curl_items w [(''0123456789'', ''/home/u/disc.iso'', False)] =
      [curl_readback False (stamp_curl 7 sample_curl)]"
    by (rule sample_history)
  from same_envD [OF w(2)] have "healthy w" "fair_order w" "\<not> w_held w R_curl" by simp_all
  from readCurlItems_complete [OF w(1) this] c show ?thesis by auto
qed

text \<open>C8: \<open>modifyCurlItem\<close> on an item whose path is its own changes that item's status, its time of
  completion when one is given, and its hash data when a verification result is given, and
  nothing else of the history.\<close>

theorem modifyCurlItem_updates:
  assumes "history w es" and "healthy w" and "\<not> w_held w W_curl" and "fits64 complt"
    and "(i, p, False) \<in> set es" and "\<And>j u. (j, p, u) \<in> set es \<Longrightarrow> j = i"
  shows "\<exists>w'. modifyCurlItem p status complt given ty rtrnd succ w = (Ok True, w') \<and> history w' es \<and>
    curl_items w' es = map (\<lambda>d. if cd_unique_id d = i
      then modified_curl status complt given ty rtrnd succ d else d) (curl_items w es) \<and>
    w_boxes w' = w_boxes w \<and> same_env w w'"
  by (rule modify_curl_history [OF assms])

theorem modifyCurlItem_updates_witness:
  "\<exists>(w :: world) w'. modifyCurlItem ''/home/u/disc.iso'' Completed 9 [] HashNone [] NotApplicable w = (Ok True, w') \<and>
     curl_items w' [(''0123456789'', ''/home/u/disc.iso'', False)] =
       [modified_curl Completed 9 [] HashNone [] NotApplicable (curl_readback False (stamp_curl 7 sample_curl))]"
proof -
  obtain w :: world where w: "history w [(''0123456789'', ''/home/u/disc.iso'', False)]" "same_env (fresh_world 7) w"
    and c: "curl_items w [(''0123456789'', ''/home/u/disc.iso'', False)] =
      [curl_readback False (stamp_curl 7 sample_curl)]"
    by (rule sample_history)
  from same_envD [OF w(2)] have "healthy w" "\<not> w_held w W_curl" by simp_all
  moreover have "cd_unique_id (curl_readback False (stamp_curl 7 sample_curl)) = ''0123456789''"
    by (simp add: curl_readback_def stamp_curl_def sample_curl_def)
  moreover have "fits64 9" by (simp add: fits64_def int64_min_def int64_max_def)
  ultimately show ?thesis
    using modifyCurlItem_updates [of w _ 9 "''0123456789''" "''/home/u/disc.iso''", OF w(1)] c by fastforce
qed

text \<open>C26: \<open>delCurlItem\<close> by identifier removes the item with its eleven values and keeps the other HTTP and
  FTP items; but the registry it writes back has no torrent entry left, whatever torrents were
  registered.\<close>

theorem delCurlItem_drops_torrents:
  assumes "history w es" and "healthy w" and "fair_order w" and "\<not> w_held w W_curl"
    and "i \<noteq> []" and "UNDERSCORE \<notin> set i"
  shows "\<exists>w' es'. delCurlItem p i w = (Ok True, w') \<and> history w' es' \<and>
    mset es' = mset (filter (\<lambda>(j, q, t). \<not> t \<and> j \<noteq> i) es) \<and>
    mset (curl_items w' es') = mset (filter (\<lambda>d. cd_unique_id d \<noteq> i) (curl_items w es)) \<and>
    (\<forall>k \<in> set curl_item_keys. item_get w' i k = None) \<and> w_boxes w' = w_boxes w"
  by (rule del_curl_history [OF assms])

theorem delCurlItem_drops_torrents_witness:
  "\<exists>(w :: world) w'. delCurlItem [] ''0123456789'' w = (Ok True, w') \<and> history w' []"
proof -
  obtain w :: world where w: "history w [(''0123456789'', ''/home/u/disc.iso'', False)]" "same_env (fresh_world 7) w"
    by (rule sample_history)
  from same_envD [OF w(2)] have "healthy w" "fair_order w" "\<not> w_held w W_curl" by simp_all
  from delCurlItem_drops_torrents [OF w(1) this, of "''0123456789''" "[]"] show ?thesis by auto
qed

text \<open>A registered HTTP or FTP item that lacks one of its values (an \<open>addCurlItem\<close> whose writes
  failed half-way leaves one) makes \<open>readCurlItems\<close> return no item at all, with a message box.\<close>

theorem readCurlItems_damaged:
  assumes "registered w es" and "distinct (map fst es)" and "healthy w" and "fair_order w"
    and "\<not> w_held w R_curl" and "(i, p, False) \<in> set es"
    and "k \<in> set curl_item_keys" and "item_get w i k = None"
  shows "\<exists>w'. readCurlItems w = (Ok [], w') \<and> w_boxes w' = w_boxes w @ [Warning ''Error!'']"
  by (rule read_curl_damaged [OF assms])

theorem readCurlItems_damaged_witness:
  "\<exists>(w :: world) w'. add_download_id ''/tmp/file'' False ''12345'' (fresh_world 7) = (Ok ''12345'', w) \<and>
     readCurlItems w = (Ok [], w') \<and> w_boxes w' = [Warning ''Error!'']"
proof -
  have v: "valid_entry (''12345'', ''/tmp/file'', False)" by (simp add: valid_entry_def clean_field_def)
  obtain w where w: "add_download_id ''/tmp/file'' False ''12345'' (fresh_world 7) = (Ok ''12345'', w)"
    "registered w ([] @ [(''12345'', ''/tmp/file'', False)])" "w_boxes w = []"
    and kv: "\<forall>k. k \<noteq> STORE_UNIQUE_ID \<longrightarrow> kv_get w k = None"
    using add_registered [OF _ _ _ v, of "fresh_world 7" "[]"] sample_facts(1) by (auto simp: history_def)
  have "same_env (fresh_world 7) w" using env_registry(2) w(1) by (metis preservesD)
  from same_envD [OF this] have "healthy w" "fair_order w" "\<not> w_held w R_curl" by simp_all
  moreover have "item_get w ''12345'' KEY_CURL_STAT = None"
    using kv multipart_key_not_registry by (simp add: item_get_def)
  ultimately show ?thesis
    using readCurlItems_damaged [OF w(2), of "''12345''" "''/tmp/file''" KEY_CURL_STAT] w(1,3)
    by (auto simp: curl_item_keys_def)
qed

text \<open>Whatever hash type an item is added with, it reads back with another one: \<open>addCurlItem\<close> writes the
  enumerator's position and \<open>readCurlItems\<close> decodes it with \<open>convHashType_IntToEnum\<close>.\<close>

theorem hash_type_lost:
  "cd_hash_type (curl_readback garbage dl) \<noteq> cd_hash_type dl"
  by (cases "cd_hash_type dl") (simp_all add: curl_readback_def convHashType_IntToEnum_def)

end
