(* ===== verification/File_Hash.thy ===== *)
theory File_Hash
  imports Enum_Conv
begin

text \<open>
  Checking a finished file against a checksum (\<open>cryptoFileHash\<close>) and loading a torrent file
  (\<open>load_file\<close>), both of \<open>src/cmnroutines.cpp\<close>. The hash functions are Qt's: \<open>hex_digest\<close>, from an
  algorithm and the bytes to the hexadecimal digest, is an argument.
\<close>

section \<open>A file that is being read\<close>

text \<open>What the program can see of the path; \<open>dev_rest\<close> is what is left to read of an open file and
  \<open>dev_reads\<close> says whether reading gets to its end.\<close>

record file_on_disk =
  fd_exists :: bool
  fd_is_directory :: bool
  fd_opens :: bool
  fd_bytes :: string

record device =
  dev_rest :: string
  dev_reads :: bool

text \<open>\<open>QCryptographicHash::addData(QIODevice *)\<close> on a new hash object: it consumes the device.\<close>

definition hash_device :: "(crypto_algorithm \<Rightarrow> string \<Rightarrow> string) \<Rightarrow> crypto_algorithm \<Rightarrow> device \<Rightarrow>
    string option \<times> device" where
  "hash_device hex_digest algo d =
     (if dev_reads d then (Some (hex_digest algo (dev_rest d)), d\<lparr>dev_rest := []\<rparr>) else (None, d))"

section \<open>cryptoFileHash\<close>

definition searched_types :: "hash_type list" where
  "searched_types = [MD5, SHA1, SHA256, SHA512, SHA3_256, SHA3_512]"

fun search_hashes :: "(crypto_algorithm \<Rightarrow> string \<Rightarrow> string) \<Rightarrow> hash_type list \<Rightarrow> device \<Rightarrow> string list" where
  "search_hashes hex_digest [] d = []"
| "search_hashes hex_digest (t # ts) d =
     (let (r, d') = hash_device hex_digest (convHashType_toAlgo t) d
      in (case r of Some h \<Rightarrow> [h] | None \<Rightarrow> []) @ search_hashes hex_digest ts d')"

definition no_hash :: file_hash where
  "no_hash = \<lparr>fh_hash_type = HashNone, fh_hash_verif = NotApplicable, fh_checksum = []\<rparr>"

definition cryptoFileHash :: "(crypto_algorithm \<Rightarrow> string \<Rightarrow> string) \<Rightarrow> bool \<Rightarrow> file_on_disk \<Rightarrow> hash_type \<Rightarrow>
    string \<Rightarrow> exn + file_hash" where
  "cryptoFileHash hex_digest reads f hash_type given =
     (if fd_exists f \<and> \<not> fd_is_directory f then
        (if \<not> fd_opens f then Inl (Runtime_error ''already opened by another application'')
         else
           let d = \<lparr>dev_rest = fd_bytes f, dev_reads = reads\<rparr>
           in if hash_type \<in> {MD5, SHA1, SHA256, SHA512, SHA3_256, SHA3_512} then
                (case fst (hash_device hex_digest (convHashType_toAlgo hash_type) d) of
                   Some result \<Rightarrow>
                     Inr \<lparr>fh_hash_type = hash_type,
                          fh_hash_verif = (if given \<noteq> [] then (if result = given then Verified else Corrupt)
                                           else NotApplicable),
                          fh_checksum = result\<rparr>
                 | None \<Rightarrow> Inr no_hash)
              else if hash_type = HashNone then Inr no_hash
              else
                (case find (\<lambda>h. given \<noteq> [] \<and> h = given) (search_hashes hex_digest searched_types d) of
                   Some h \<Rightarrow> Inr \<lparr>fh_hash_type = CannotDetermine, fh_hash_verif = Verified, fh_checksum = h\<rparr>
                 | None \<Rightarrow> Inr \<lparr>fh_hash_type = CannotDetermine, fh_hash_verif = NotApplicable, fh_checksum = []\<rparr>))
      else Inr no_hash)"

section \<open>load_file\<close>

text \<open>The C stream on the file: which calls fail, what \<open>ftell\<close> and \<open>fread\<close> return.\<close>

record c_file =
  cf_opens :: bool
  cf_seeks_end :: bool
  cf_tell :: int
  cf_seeks_start :: bool
  cf_fread :: int
  cf_data :: string

text \<open>The result code, whether the error code is set, and the buffer.\<close>

definition load_file :: "c_file \<Rightarrow> string \<Rightarrow> int \<Rightarrow> int \<times> bool \<times> string" where
  "load_file f v limit =
     (if \<not> cf_opens f then (- 1, True, v)
      else if \<not> cf_seeks_end f then (- 1, True, v)
      else let s = cf_tell f
        in if s < 0 then (- 1, True, v)
           else if limit < s then (- 2, False, v)
           else if \<not> cf_seeks_start f then (- 1, True, v)
           else let v = take (nat s) (v @ replicate (nat s - length v) (CHR 0x00))
             in if s = 0 then (0, False, v)
                else let r = cf_fread f;
                         v = take (nat r) (cf_data f) @ drop (nat r) v
                  in if r < 0 then (- 1, True, v)
                     else if r \<noteq> s then (- 3, False, v)
                     else (0, False, v))"

section \<open>Properties\<close>

lemma search_hashes_drained:
  "dev_reads d \<Longrightarrow> dev_rest d = [] \<Longrightarrow>
     search_hashes hex_digest ts d = map (\<lambda>t. hex_digest (convHashType_toAlgo t) []) ts"
  by (induction ts arbitrary: d) (simp_all add: hash_device_def Let_def)

lemma search_hashes_first:
  "dev_reads d \<Longrightarrow> search_hashes hex_digest searched_types d =
     hex_digest Md5 (dev_rest d) # map (\<lambda>t. hex_digest (convHashType_toAlgo t) []) (tl searched_types)"
  by (simp add: searched_types_def hash_device_def Let_def)

text \<open>For a file that can be read and a named hash type, the verdict is Verified exactly if the given
  checksum is the digest of the whole file, Corrupt if another one was given, and NotApplicable if
  none was.\<close>

theorem cryptoFileHash_verdict:
  assumes "fd_exists f" and "\<not> fd_is_directory f" and "fd_opens f"
    and "t \<notin> {HashNone, CannotDetermine}"
  shows "cryptoFileHash hex_digest True f t given =
    Inr \<lparr>fh_hash_type = t,
         fh_hash_verif = (if given = [] then NotApplicable
           else if hex_digest (convHashType_toAlgo t) (fd_bytes f) = given then Verified else Corrupt),
         fh_checksum = hex_digest (convHashType_toAlgo t) (fd_bytes f)\<rparr>"
  using assms by (cases t) (simp_all add: cryptoFileHash_def hash_device_def Let_def)

theorem cryptoFileHash_verdict_witness:
  "cryptoFileHash (\<lambda>a s. s) True \<lparr>fd_exists = True, fd_is_directory = False, fd_opens = True, fd_bytes = ''ab''\<rparr>
     SHA1 ''ac'' = Inr \<lparr>fh_hash_type = SHA1, fh_hash_verif = Corrupt, fh_checksum = ''ab''\<rparr>"
  using cryptoFileHash_verdict [of "\<lparr>fd_exists = True, fd_is_directory = False, fd_opens = True,
      fd_bytes = ''ab''\<rparr>" SHA1 "\<lambda>a s. s" "''ac''"] by simp

text \<open>The search for an unknown hash type verifies a file by its MD5 digest only: the other algorithms
  read on where MD5 stopped, at the end of the file, and digest nothing, so a right SHA-256 digest
  is not recognised unless it happens to be one of those.\<close>

theorem hash_search_sees_md5_only:
  assumes "fd_exists f" and "\<not> fd_is_directory f" and "fd_opens f" and "given \<noteq> []"
    and "given \<notin> (\<lambda>a. hex_digest a []) ` {Sha1, Sha256, Sha512, Sha3_256, Sha3_512}"
  shows "cryptoFileHash hex_digest True f CannotDetermine given =
    (if hex_digest Md5 (fd_bytes f) = given
     then Inr \<lparr>fh_hash_type = CannotDetermine, fh_hash_verif = Verified, fh_checksum = given\<rparr>
     else Inr \<lparr>fh_hash_type = CannotDetermine, fh_hash_verif = NotApplicable, fh_checksum = []\<rparr>)"
  using assms
  by (auto simp: cryptoFileHash_def search_hashes_first Let_def) (simp_all add: searched_types_def)

theorem hash_search_sees_md5_only_witness:
  "cryptoFileHash (\<lambda>a s. if a = Sha256 then s else ''-'') True
     \<lparr>fd_exists = True, fd_is_directory = False, fd_opens = True, fd_bytes = ''ab''\<rparr> CannotDetermine ''ab'' =
   Inr \<lparr>fh_hash_type = CannotDetermine, fh_hash_verif = NotApplicable, fh_checksum = []\<rparr>"
  using hash_search_sees_md5_only [of "\<lparr>fd_exists = True, fd_is_directory = False, fd_opens = True,
      fd_bytes = ''ab''\<rparr>" "''ab''" "\<lambda>a s. if a = Sha256 then s else ''-''"] by simp

lemma load_file_bytes:
  assumes "cf_opens f" and "cf_seeks_end f" and "cf_seeks_start f"
    and "cf_tell f = int (length (cf_data f))" and "cf_fread f = cf_tell f" and "cf_tell f \<le> limit"
  shows "load_file f [] limit = (0, False, cf_data f)"
  using assms by (simp add: load_file_def Let_def)

end
