(* ===== verification/Unordered_Map.thy ===== *)
theory Unordered_Map
  imports Id_Registry "HOL-Library.AList"
begin

text \<open>
  \<open>std::unordered_map\<close> and \<open>boost::ptr_unordered_map\<close> as \<open>src/curl_multi.cpp\<close> uses them: association
  lists with \<open>AList.update\<close> for \<open>operator[]\<close> and \<open>AList.delete\<close> for \<open>erase\<close>, walked in an order of the
  keys that the implementation chooses. The loops over these maps look for an entry by a part of
  its value; in a well-keyed map, where no two entries agree on that part, they find the one.
\<close>

definition walk :: "(string list \<Rightarrow> string list) \<Rightarrow> (string \<times> 'v) list \<Rightarrow> (string \<times> 'v) list" where
  "walk order m = map (\<lambda>k. (k, the (map_of m k))) (order (map fst m))"

section \<open>Walking a map\<close>

lemma set_walk: "fair_order w \<Longrightarrow> distinct (map fst m) \<Longrightarrow> set (walk (w_bucket_order w) m) = set m"
proof -
  assume "fair_order w" and d: "distinct (map fst m)"
  then have "mset (w_bucket_order w (map fst m)) = mset (map fst m)" by (simp add: fair_order_def)
  from map_lookup_order [OF d this] show ?thesis unfolding walk_def by (rule mset_eq_setD)
qed

lemma find_SomeD: "find P xs = Some x \<Longrightarrow> x \<in> set xs \<and> P x"
  by (auto simp: find_Some_iff)

lemma find_the:
  assumes "x \<in> set xs" and "P x" and "\<And>y. y \<in> set xs \<Longrightarrow> P y \<Longrightarrow> y = x"
  shows "find P xs = Some x"
proof (cases "find P xs")
  case None
  then show ?thesis using assms(1,2) by (simp add: find_None_iff)
next
  case (Some y)
  then show ?thesis using find_SomeD [OF Some] assms(3) by simp
qed

text \<open>An entry found by a value that no other entry has.\<close>

lemma find_value:
  assumes "fair_order w" and "distinct (map fst m)" and "distinct (map (g \<circ> snd) m)" and "(k, v) \<in> set m"
  shows "find (\<lambda>(_, u). g v = g u) (walk (w_bucket_order w) m) = Some (k, v)"
proof (rule find_the)
  fix y assume y: "y \<in> set (walk (w_bucket_order w) m)" "case y of (_, u) \<Rightarrow> g v = g u"
  have inj: "inj_on (g \<circ> snd) (set m)" using assms(3) by (simp add: distinct_map)
  have "y \<in> set m" "(g \<circ> snd) y = (g \<circ> snd) (k, v)"
    using y by (simp_all add: set_walk [OF assms(1,2)] split_def)
  then show "y = (k, v)" using assms(4) by (intro inj_onD [OF inj])
qed (use assms in \<open>simp_all add: set_walk\<close>)

lemma find_missing:
  "fair_order w \<Longrightarrow> distinct (map fst m) \<Longrightarrow> x \<notin> (g \<circ> snd) ` set m \<Longrightarrow>
     find (\<lambda>(_, u). x = g u) (walk (w_bucket_order w) m) = None"
  by (force simp: find_None_iff set_walk)

lemma find_entry:
  assumes "fair_order w" and "distinct (map fst m)"
    and "find (\<lambda>(_, u). x = g u) (walk (w_bucket_order w) m) = Some (k, v)"
  shows "(k, v) \<in> set m" and "g v = x"
  using find_SomeD [OF assms(3)] by (simp_all add: set_walk [OF assms(1,2)])

lemma update_present:
  "distinct (map fst m) \<Longrightarrow> (k, v) \<in> set m \<Longrightarrow>
     AList.update k v' m = map (\<lambda>(i, x). if i = k then (k, v') else (i, x)) m"
proof (induction m)
  case (Cons e m)
  obtain i x where e: "e = (i, x)" by (cases e)
  show ?case
  proof (cases "i = k")
    case True
    then have "k \<notin> fst ` set m" using Cons.prems by (simp add: e)
    then have "map (\<lambda>(i, x). if i = k then (k, v') else (i, x)) m = m"
      by (intro map_idI) force
    then show ?thesis using True by (simp add: e)
  next
    case False
    then show ?thesis using Cons by (auto simp: e)
  qed
qed simp

lemma update_new: "k \<notin> fst ` set m \<Longrightarrow> AList.update k v m = m @ [(k, v)]"
  by (induction m) auto

lemma delete_filter: "AList.delete k m = filter (\<lambda>(i, x). i \<noteq> k) m"
  by (simp add: AList.delete_eq split_def eq_commute)

definition well_keyed :: "(string \<times> 'v) list \<Rightarrow> ('v \<Rightarrow> string) \<Rightarrow> bool" where
  "well_keyed m g \<longleftrightarrow> distinct (map fst m) \<and> distinct (map (g \<circ> snd) m) \<and> [] \<notin> fst ` set m"

lemma well_keyed_same:
  "well_keyed m g \<Longrightarrow> (k, v) \<in> set m \<Longrightarrow> (k', v') \<in> set m \<Longrightarrow> g v = g v' \<longleftrightarrow> k = k'"
proof
  assume w: "well_keyed m g" and m: "(k, v) \<in> set m" "(k', v') \<in> set m"
  then have inj: "inj_on (g \<circ> snd) (set m)" "distinct (map fst m)" by (simp_all add: well_keyed_def distinct_map)
  { assume "g v = g v'"
    then show "k = k'" using inj_onD [OF inj(1), of "(k, v)" "(k', v')"] m by simp }
  { assume "k = k'"
    then show "g v = g v'" using eq_key_imp_eq_value [OF inj(2)] m by metis }
qed

lemma well_keyed_update:
  assumes "well_keyed m g" and "(k, v) \<in> set m" and "g v' = g v"
  shows "well_keyed (AList.update k v' m) g"
    and "set (AList.update k v' m) = insert (k, v') (set m - {(k, v)})"
proof -
  note u = update_present [OF _ assms(2)]
  have d: "distinct (map fst m)" using assms(1) by (simp add: well_keyed_def)
  have one: "x = v" if "(k, x) \<in> set m" for x
    using d that assms(2) by (metis eq_key_imp_eq_value)
  have f: "map fst (AList.update k v' m) = map fst m"
    by (simp add: u [OF d] split_def)
  moreover have "map (g \<circ> snd) (AList.update k v' m) = map (g \<circ> snd) m"
    using one assms(3) by (auto simp: u [OF d] split_def)
  moreover have "fst ` set (AList.update k v' m) = fst ` set m" using arg_cong [OF f, of set] by simp
  ultimately show "well_keyed (AList.update k v' m) g"
    using assms(1) by (simp add: well_keyed_def)
  have "{e \<in> set m. fst e = k} = {(k, v)}"
    using assms(2) by (auto dest: one)
  moreover have "set (AList.update k v' m) =
      (\<lambda>e. (k, v')) ` {e \<in> set m. fst e = k} \<union> {e \<in> set m. fst e \<noteq> k}"
    unfolding u [OF d] set_map by (auto simp: split_def)
  ultimately show "set (AList.update k v' m) = insert (k, v') (set m - {(k, v)})" by auto
qed

lemma well_keyed_image:
  assumes "well_keyed m g" and "(k, v) \<in> set m"
  shows "(g \<circ> snd) ` ({e \<in> set m. P e} - {(k, v)}) = (g \<circ> snd) ` {e \<in> set m. P e} - {g v}"
proof -
  have inj: "inj_on (g \<circ> snd) (set m)" using assms(1) by (simp add: well_keyed_def distinct_map)
  have "(g \<circ> snd) ` ({e \<in> set m. P e} - {(k, v)}) = (g \<circ> snd) ` {e \<in> set m. P e} - (g \<circ> snd) ` {(k, v)}"
    by (rule inj_on_image_set_diff [OF inj]) (use assms(2) in auto)
  then show ?thesis by simp
qed

lemma well_keyed_delete_set:
  assumes "well_keyed m g" and "(k, v) \<in> set m"
  shows "set (AList.delete k m) = set m - {(k, v)}"
proof -
  have "distinct (map fst m)" using assms(1) by (simp add: well_keyed_def)
  then have "x = v" if "(k, x) \<in> set m" for x using eq_key_imp_eq_value that assms(2) by metis
  then show ?thesis by (auto simp: delete_filter)
qed

lemma well_keyed_delete: "well_keyed m g \<Longrightarrow> well_keyed (AList.delete k m) g"
  by (auto simp: well_keyed_def delete_filter distinct_map_filter)

lemma well_keyed_add:
  "well_keyed m g \<Longrightarrow> k \<noteq> [] \<Longrightarrow> k \<notin> fst ` set m \<Longrightarrow> g v \<notin> (g \<circ> snd) ` set m \<Longrightarrow>
     well_keyed (m @ [(k, v)]) g"
  by (auto simp: well_keyed_def)

end
