(* ===== verification/Curl_Multi.thy ===== *)
theory Curl_Multi
  imports Curl_History File_Hash Unordered_Map
begin

text \<open>
  The HTTP and FTP downloads in progress, \<open>GekkoFyre::CurlMulti\<close> (\<open>src/curl_multi.cpp\<close>). The state is
  the static members of the class, the \<open>CurlInit\<close> objects libcurl holds pointers to, and what
  libcurl itself keeps: the handles attached to the multi handle and the messages it has queued.
  What the network does is a schedule: for each call of \<open>curl_multi_perform\<close> and \<open>curl_multi_wait\<close>,
  the code it returns and the events that happen meanwhile. An event is a callback libcurl makes, a
  \<open>recvStopDl\<close> that the window sends from its own thread, or the clock moving on.
\<close>

section \<open>State\<close>

text \<open>The file system, and the value of an uninitialised \<open>double\<close>.\<close>

record host = world +
  h_disk :: "string \<Rightarrow> file_on_disk"
  h_writable :: "string \<Rightarrow> bool"
  h_garbage_double :: double

text \<open>\<open>CMNROUTINES::getFileSize\<close>.\<close>

definition getFileSize :: "string \<Rightarrow> ('z host_scheme, int) prog" where
  "getFileSize file_name =
     getp (\<lambda>w. let f = h_disk w file_name in if fd_exists f then int (length (fd_bytes f)) else - 1)"

datatype curlm_code =
    CURLM_OK | CURLM_CALL_MULTI_PERFORM | CURLM_BAD_HANDLE | CURLM_BAD_EASY_HANDLE
  | CURLM_OUT_OF_MEMORY | CURLM_INTERNAL_ERROR | CURLM_UNKNOWN_OPTION | CURLM_LAST
  | CURLM_BAD_SOCKET | CURLM_other

record curl_init =
  cu_easy :: nat
  cu_url :: string
  cu_file_loc :: string
  cu_prog :: curl_progress

datatype net_event =
    Progress nat int int double double
  | Data nat "64 word" "64 word" string
  | Stop string
  | Clock int

record perform_answer =
  pf_code :: curlm_code
  pf_running :: int
  pf_events :: "net_event list"
  pf_done :: "nat list"

record wait_answer =
  wt_code :: curlm_code
  wt_events :: "net_event list"

datatype multi_signal =
    Xfer_stats curl_progress
  | Dl_finished dl_status_msg

record multi = host +
  mu_gi :: bool
  mu_multi_ok :: bool
  mu_still_running :: int
  mu_eh_vec :: "(string \<times> curl_init) list"
  mu_monitoring :: "(string \<times> active_download) list"
  mu_active :: "16 word"
  mu_last_time :: int
  mu_progs :: "nat \<Rightarrow> curl_progress"
  mu_streams :: "nat \<Rightarrow> string option"
  mu_signals :: "multi_signal list"
  mu_attached :: "nat list"
  mu_resume_from :: "nat \<Rightarrow> int"
  mu_messages :: "nat list"
  mu_next_easy :: nat
  mu_easy_ok :: "nat \<Rightarrow> bool"
  mu_add_code :: "nat \<Rightarrow> curlm_code"
  mu_calls :: nat
  mu_perform :: "nat \<Rightarrow> perform_answer"
  mu_wait :: "nat \<Rightarrow> wait_answer"
  mu_content_length :: "nat \<Rightarrow> double"

type_synonym ('z, 'a) net = "('z multi_scheme, 'a) prog"

text \<open>The first entry the loops over the maps stop at.\<close>

definition handle_of_file :: "string \<Rightarrow> 'z multi_scheme \<Rightarrow> (string \<times> curl_init) option" where
  "handle_of_file fileLoc w =
     find (\<lambda>(_, ci). fileLoc = cu_file_loc ci) (walk (w_bucket_order w) (mu_eh_vec w))"

definition entry_of_handle :: "nat \<Rightarrow> 'z multi_scheme \<Rightarrow> (string \<times> curl_init) option" where
  "entry_of_handle easy w =
     find (\<lambda>(_, ci). easy = cu_easy ci) (walk (w_bucket_order w) (mu_eh_vec w))"

definition monitored :: "string \<Rightarrow> 'z multi_scheme \<Rightarrow> (string \<times> active_download) option" where
  "monitored fileLoc w =
     find (\<lambda>(_, d). fileLoc = ad_file_dest d) (walk (w_bucket_order w) (mu_monitoring w))"

section \<open>libcurl\<close>

text \<open>\<open>curl_multi_remove_handle\<close> also drops the messages queued for the handle.\<close>

definition curl_multi_remove_handle :: "nat \<Rightarrow> ('z, unit) net" where
  "curl_multi_remove_handle e = modifyp (\<lambda>w.
     w\<lparr>mu_attached := filter (\<lambda>x. x \<noteq> e) (mu_attached w),
       mu_messages := filter (\<lambda>x. x \<noteq> e) (mu_messages w)\<rparr>)"

definition curl_multi_add_handle :: "nat \<Rightarrow> ('z, curlm_code) net" where
  "curl_multi_add_handle e =
     bindp (getp (\<lambda>w. mu_add_code w e)) (\<lambda>code.
     seqp (modifyp (\<lambda>w. if code = CURLM_OK then w\<lparr>mu_attached := mu_attached w @ [e]\<rparr> else w)) (ret code))"

definition mcode_or_die :: "curlm_code \<Rightarrow> ('z, unit) net" where
  "mcode_or_die code =
     (if CURLM_OK \<noteq> code then
        (case code of
           CURLM_CALL_MULTI_PERFORM \<Rightarrow> raise (Runtime_error ''CURLM_CALL_MULTI_PERFORM'')
         | CURLM_BAD_HANDLE \<Rightarrow> raise (Runtime_error ''CURLM_BAD_HANDLE'')
         | CURLM_BAD_EASY_HANDLE \<Rightarrow> raise (Runtime_error ''CURLM_BAD_EASY_HANDLE'')
         | CURLM_OUT_OF_MEMORY \<Rightarrow> raise (Runtime_error ''CURLM_OUT_OF_MEMORY'')
         | CURLM_INTERNAL_ERROR \<Rightarrow> raise (Runtime_error ''CURLM_INTERNAL_ERROR'')
         | CURLM_UNKNOWN_OPTION \<Rightarrow> raise (Runtime_error ''CURLM_UNKNOWN_OPTION'')
         | CURLM_LAST \<Rightarrow> raise (Runtime_error ''CURLM_LAST'')
         | CURLM_BAD_SOCKET \<Rightarrow> ret ()
         | _ \<Rightarrow> raise (Runtime_error ''CURLM_unknown''))
      else ret ())"

section \<open>The callbacks\<close>

text \<open>\<open>lastTime\<close> is one variable for all transfers.\<close>

definition curl_xferinfo :: "nat \<Rightarrow> int \<Rightarrow> int \<Rightarrow> double \<Rightarrow> double \<Rightarrow> ('z, int) net" where
  "curl_xferinfo p dlnow ulnow dlspeed upspeed = (\<lambda>w.
     if w_now w - mu_last_time w < 1 then ret 0 w
     else if sint (mu_active w) < 1 then ret (- 1) w
     else
       let dl_stat = \<lparr>cs_dltotal = dlnow, cs_uptotal = ulnow, cs_dlnow = dlspeed, cs_upnow = upspeed,
             cs_cur_time = w_garbage_int w\<rparr>;
           prog = (mu_progs w p)\<lparr>cp_stat := cp_stat (mu_progs w p) @ [dl_stat]\<rparr>
       in ret 0 (w\<lparr>mu_last_time := w_now w, mu_progs := (mu_progs w)(p := prog),
                   mu_signals := mu_signals w @ [Xfer_stats prog]\<rparr>))"

text \<open>The stream swallows what it cannot write; the product of the sizes is a \<open>size_t\<close>.\<close>

definition curl_write_file_callback :: "string \<Rightarrow> 64 word \<Rightarrow> 64 word \<Rightarrow> nat \<Rightarrow> ('z, 64 word) net" where
  "curl_write_file_callback buffer sz nmemb userdata = (\<lambda>w.
     let buf_size = sz * nmemb
     in ret buf_size (case mu_streams w userdata of
          Some file_loc \<Rightarrow>
            w\<lparr>h_disk := (h_disk w)(file_loc :=
               (h_disk w file_loc)\<lparr>fd_bytes := fd_bytes (h_disk w file_loc) @ take (unat buf_size) buffer\<rparr>)\<rparr>
        | None \<Rightarrow> w))"

section \<open>Stopping\<close>

definition recvStopDl :: "string \<Rightarrow> ('z, unit) net" where
  "recvStopDl fileLoc = (\<lambda>w.
     case (handle_of_file fileLoc w, monitored fileLoc w) of
       (Some (ptr_uuid, curl_struct), Some (stat_uuid, dl_stat)) \<Rightarrow>
         if ptr_uuid = [] \<or> stat_uuid = [] then raise (Runtime_error ''uuid is empty'') w
         else if ad_isActive dl_stat then
           seqp (modifyp (\<lambda>w. w\<lparr>mu_monitoring := AList.update stat_uuid (dl_stat\<lparr>ad_isActive := False\<rparr>) (mu_monitoring w),
                   mu_active := mu_active w - 1\<rparr>))
             (curl_multi_remove_handle (cu_easy curl_struct)) w
         else ret () w
     | _ \<Rightarrow> raise (Runtime_error ''uuid is empty'') w)"

section \<open>Driving the transfers\<close>

text \<open>libcurl calls back for attached handles only; an exception of \<open>recvStopDl\<close> ends up in the thread
  of the window.\<close>

fun net_event_step :: "net_event \<Rightarrow> ('z, unit) net" where
  "net_event_step (Progress e dlnow ulnow dlspeed upspeed) = (\<lambda>w.
     if e \<in> set (mu_attached w) then seqp (curl_xferinfo e dlnow ulnow dlspeed upspeed) (ret ()) w else ret () w)"
| "net_event_step (Data e sz nmemb buffer) = (\<lambda>w.
     if e \<in> set (mu_attached w) then seqp (curl_write_file_callback buffer sz nmemb e) (ret ()) w else ret () w)"
| "net_event_step (Stop fileLoc) = catchp (recvStopDl fileLoc) (\<lambda>_. ret ())"
| "net_event_step (Clock t) = modifyp (\<lambda>w. w\<lparr>w_now := t\<rparr>)"

definition tick_call :: "('z, nat) net" where
  "tick_call = (\<lambda>w. ret (mu_calls w) (w\<lparr>mu_calls := Suc (mu_calls w)\<rparr>))"

definition curl_multi_perform :: "('z, curlm_code) net" where
  "curl_multi_perform =
     bindp tick_call (\<lambda>n.
     bindp (getp (\<lambda>w. mu_perform w n)) (\<lambda>a.
     seqp (each net_event_step (pf_events a))
     (seqp (modifyp (\<lambda>w. w\<lparr>mu_still_running := pf_running a,
               mu_messages := mu_messages w @ filter (\<lambda>e. e \<in> set (mu_attached w)) (pf_done a)\<rparr>))
      (ret (pf_code a)))))"

definition curl_multi_wait :: "('z, curlm_code) net" where
  "curl_multi_wait =
     bindp tick_call (\<lambda>n.
     bindp (getp (\<lambda>w. mu_wait w n)) (\<lambda>a.
     seqp (each net_event_step (wt_events a)) (ret (wt_code a))))"

definition going_on :: "'z multi_scheme \<Rightarrow> bool" where
  "going_on w = ((0 < mu_still_running w \<and> 0 < sint (mu_active w)) \<or> mu_still_running w \<noteq> 0)"

text \<open>One round of the loop of \<open>fileStream\<close>.\<close>

definition stream_step :: "unit \<Rightarrow> ('z, unit + unit) net" where
  "stream_step _ =
     bindp (getp going_on) (\<lambda>go.
     if \<not> go then ret (Inr ())
     else
       bindp curl_multi_wait (\<lambda>mc.
       if mc \<noteq> CURLM_OK then raise (Runtime_error ''curl_multi_wait() failed!'')
       else
         bindp (getp mu_active) (\<lambda>active_downloads.
         if 0 < sint active_downloads then seqp curl_multi_perform (ret (Inl ()))
         else ret (Inr ()))))"

text \<open>\<open>curl_multi_info_read\<close> takes the next message; the only messages there are say that a transfer is
  done, so the loop over them ends with the first.\<close>

definition curl_multi_info_read :: "('z, nat option) net" where
  "curl_multi_info_read = (\<lambda>w. case mu_messages w of
      [] \<Rightarrow> ret None w
    | e # es \<Rightarrow> ret (Some e) (w\<lparr>mu_messages := es\<rparr>))"

definition finish_transfer :: "nat \<Rightarrow> ('z, bool) net" where
  "finish_transfer easy_handle = (\<lambda>w.
     case entry_of_handle easy_handle w of
       None \<Rightarrow> raise (Runtime_error ''ptr_uuid is empty!'') w
     | Some (ptr_uuid, curl_struct) \<Rightarrow>
         if ptr_uuid = [] then raise (Runtime_error ''ptr_uuid is empty!'') w
         else
           (case monitored (cu_file_loc curl_struct) w of
              None \<Rightarrow> raise (Runtime_error ''stat_uuid is empty!'') w
            | Some (stat_uuid, _) \<Rightarrow>
                if stat_uuid = [] then raise (Runtime_error ''stat_uuid is empty!'') w
                else
                  seqp (curl_multi_remove_handle (cu_easy curl_struct))
                  (seqp (modifyp (\<lambda>w. w\<lparr>mu_eh_vec := AList.delete ptr_uuid (mu_eh_vec w),
                      mu_monitoring := AList.delete stat_uuid (mu_monitoring w),
                      mu_active := mu_active w - 1,
                      mu_signals := mu_signals w @ [Dl_finished
                        \<lparr>dm_content_len = mu_content_length w (cu_easy curl_struct),
                         dm_url = cu_url curl_struct, dm_file_loc = cp_file_dest (cu_prog curl_struct)\<rparr>]\<rparr>))
                   (ret True)) w))"

definition fileStream :: "('z, bool) net" where
  "fileStream =
     catchp
       (bindp (getp mu_multi_ok) (\<lambda>ok.
        if ok then
          bindp curl_multi_perform (\<lambda>multi_res.
          seqp (if multi_res \<noteq> CURLM_OK then mcode_or_die multi_res else ret ())
          (seqp (loopp stream_step ())
          (bindp curl_multi_info_read (\<lambda>msg.
           case msg of Some e \<Rightarrow> finish_transfer e | None \<Rightarrow> ret False))))
        else raise (Runtime_error ''multi-handle is NULL!'')))
       (\<lambda>e. if std_exception e then ret False else raise e)"

section \<open>Starting\<close>

definition multi_createId :: "('z, string) net" where
  "multi_createId =
     bindp (draw_digits 23) (\<lambda>oss.
     bindp (getp mu_eh_vec) (\<lambda>eh_vec.
     if oss \<in> fst ` set eh_vec then raise (Invalid_argument ''A given ID already exists!'') else ret oss))"

definition curl_easy_init :: "('z, nat option) net" where
  "curl_easy_init = (\<lambda>w. let e = mu_next_easy w
     in ret (if mu_easy_ok w e then Some e else None) (w\<lparr>mu_next_easy := Suc e\<rparr>))"

text \<open>Opening for appending creates the file; a failure to open goes unnoticed.\<close>

definition open_stream :: "nat \<Rightarrow> string \<Rightarrow> ('z, unit) net" where
  "open_stream easy file_loc = modifyp (\<lambda>w.
     if h_writable w file_loc \<and> \<not> fd_is_directory (h_disk w file_loc) then
       w\<lparr>mu_streams := (mu_streams w)(easy \<mapsto> file_loc),
         h_disk := (if fd_exists (h_disk w file_loc) then h_disk w
                    else (h_disk w)(file_loc := \<lparr>fd_exists = True, fd_is_directory = False, fd_opens = True, fd_bytes = []\<rparr>))\<rparr>
     else w)"

definition new_conn :: "string \<Rightarrow> string \<Rightarrow> int \<Rightarrow> ('z, string) net" where
  "new_conn url fileLoc file_offset =
     bindp multi_createId (\<lambda>uuid.
     bindp curl_easy_init (\<lambda>easy.
     case easy of
       None \<Rightarrow> raise (Runtime_error ''curl_easy_init() failed, exiting!'')
     | Some easy \<Rightarrow>
         if fileLoc = [] then raise (Invalid_argument ''An invalid file location has been given'')
         else
           seqp (if 0 \<le> file_offset then open_stream easy fileLoc
                 else raise (Invalid_argument ''An invalid (negative) file-offset has been given!''))
           (let prog = \<lparr>cp_stat = [], cp_url = url, cp_file_dest = fileLoc, cp_timer_set = False,
                        cp_content_length = Finite 0\<rparr>;
                ci = \<lparr>cu_easy = easy, cu_url = url, cu_file_loc = fileLoc, cu_prog = prog\<rparr>
            in seqp (modifyp (\<lambda>w. w\<lparr>mu_progs := (mu_progs w)(easy := prog),
                        mu_resume_from := (mu_resume_from w)(easy := if 0 < file_offset then file_offset else 0)\<rparr>))
               (bindp (curl_multi_add_handle easy) (\<lambda>curl_res.
                seqp (mcode_or_die curl_res)
                (bindp (getp (monitored fileLoc)) (\<lambda>entry.
                 case entry of
                   None \<Rightarrow> raise (Runtime_error ''stat_uuid is empty!'')
                 | Some (stat_uuid, dl_stat) \<Rightarrow>
                     if stat_uuid = [] then raise (Runtime_error ''stat_uuid is empty!'')
                     else
                       seqp (modifyp (\<lambda>w. w\<lparr>mu_monitoring := AList.update stat_uuid (dl_stat\<lparr>ad_isActive := True\<rparr>) (mu_monitoring w),
                               mu_eh_vec := AList.update uuid ci (mu_eh_vec w)\<rparr>))
                       (ret uuid))))))))"

text \<open>The part of \<open>recvNewDl\<close> before \<open>fileStream\<close>; it says whether a connection was made.\<close>

definition begin_download :: "string \<Rightarrow> string \<Rightarrow> bool \<Rightarrow> ('z, bool) net" where
  "begin_download url fileLoc resumeDl =
     seqp (modifyp (\<lambda>w. if mu_gi w then w else w\<lparr>mu_gi := True\<rparr>))
     (bindp (getp (monitored fileLoc)) (\<lambda>entry.
      if fileLoc = [] \<or> url = [] then raise (Invalid_argument ''An invalid file location and/or URL has been given!'')
      else
        let known = (case entry of Some (stat_uuid, _) \<Rightarrow> stat_uuid \<noteq> [] | None \<Rightarrow> False)
        in seqp (if \<not> known then
                   bindp multi_createId (\<lambda>new_uuid.
                   modifyp (\<lambda>w. w\<lparr>mu_monitoring := AList.update new_uuid
                     \<lparr>ad_file_dest = fileLoc, ad_isActive = False\<rparr> (mu_monitoring w)\<rparr>))
                 else ret ())
           (if known \<longrightarrow> (case entry of Some (_, dl_stat) \<Rightarrow> \<not> ad_isActive dl_stat | None \<Rightarrow> True) then
              seqp (modifyp (\<lambda>w. w\<lparr>mu_active := mu_active w + 1\<rparr>))
              (bindp (if resumeDl then getFileSize fileLoc else ret 0) (\<lambda>byte_offset.
               seqp (new_conn url fileLoc byte_offset) (ret True)))
            else ret False)))"

definition recvNewDl :: "string \<Rightarrow> string \<Rightarrow> bool \<Rightarrow> ('z, unit) net" where
  "recvNewDl url fileLoc resumeDl =
     with_warning
       (bindp (begin_download url fileLoc resumeDl) (\<lambda>started.
        if started then seqp fileStream (ret ()) else ret ())) ()"

section \<open>Which transfers run\<close>

definition act :: "(string \<times> active_download) list \<Rightarrow> string set" where
  "act mon = {ad_file_dest d | k d. (k, d) \<in> set mon \<and> ad_isActive d}"

definition live :: "(string \<times> curl_init) list \<Rightarrow> (string \<times> active_download) list \<Rightarrow> nat set" where
  "live eh mon = {cu_easy ci | u ci. (u, ci) \<in> set eh \<and> cu_file_loc ci \<in> act mon}"

lemma finite_act [simp]: "finite (act mon)"
proof -
  have "act mon \<subseteq> (\<lambda>(k, d). ad_file_dest d) ` set mon" by (force simp: act_def)
  then show ?thesis by (rule finite_subset) simp
qed

lemma act_image: "act mon = (ad_file_dest \<circ> snd) ` {e \<in> set mon. ad_isActive (snd e)}"
  by (force simp: act_def)

lemma act_update:
  assumes "well_keyed mon ad_file_dest" and "(k, d) \<in> set mon"
  shows "act (AList.update k (d\<lparr>ad_isActive := b\<rparr>) mon) =
    (if b then insert (ad_file_dest d) (act mon) else act mon - {ad_file_dest d})"
proof -
  have eq: "set (AList.update k (d\<lparr>ad_isActive := b\<rparr>) mon) = insert (k, d\<lparr>ad_isActive := b\<rparr>) (set mon - {(k, d)})"
    by (rule well_keyed_update(2) [OF assms]) simp
  have "{e \<in> insert (k, d\<lparr>ad_isActive := b\<rparr>) (set mon - {(k, d)}). ad_isActive (snd e)} =
      (if b then {(k, d\<lparr>ad_isActive := b\<rparr>)} else {}) \<union> ({e \<in> set mon. ad_isActive (snd e)} - {(k, d)})"
    by (cases b) (auto dest: arg_cong [where f = ad_isActive])
  then have "act (AList.update k (d\<lparr>ad_isActive := b\<rparr>) mon) =
      (if b then {ad_file_dest d} else {}) \<union> (act mon - {ad_file_dest d})"
    unfolding act_image eq by (simp only: image_Un well_keyed_image [OF assms]) simp
  then show ?thesis by auto
qed

lemma act_delete:
  assumes "well_keyed mon ad_file_dest" and "(k, d) \<in> set mon"
  shows "act (AList.delete k mon) = act mon - {ad_file_dest d}"
proof -
  have "{e \<in> set (AList.delete k mon). ad_isActive (snd e)} = {e \<in> set mon. ad_isActive (snd e)} - {(k, d)}"
    using well_keyed_delete_set [OF assms] by auto
  then show ?thesis unfolding act_image by (simp only: well_keyed_image [OF assms])
qed

end
