(* ===== verification/Curl_Transfers.thy ===== *)
theory Curl_Transfers
  imports Curl_Multi
begin

text \<open>
  What keeps the bookkeeping of \<open>CurlMulti\<close> right, and what breaks it. The counter of active downloads,
  the flags in \<open>transfer_monitoring\<close>, the handles in \<open>eh_vec\<close> and the handles attached to the multi handle
  tell the same story as long as every file has one handle: \<open>multi_inv\<close>. Stopping a transfer and
  driving the transfers to the end of one keep it, whatever the network does.
\<close>

section \<open>The invariant\<close>

definition multi_inv :: "'z multi_scheme \<Rightarrow> bool" where
  "multi_inv w \<longleftrightarrow>
     well_keyed (mu_eh_vec w) cu_file_loc \<and> well_keyed (mu_monitoring w) ad_file_dest \<and>
     distinct (map (cu_easy \<circ> snd) (mu_eh_vec w)) \<and>
     (\<forall>(u, ci) \<in> set (mu_eh_vec w). cu_easy ci < mu_next_easy w) \<and>
     act (mu_monitoring w) \<subseteq> (cu_file_loc \<circ> snd) ` set (mu_eh_vec w) \<and>
     (cu_file_loc \<circ> snd) ` set (mu_eh_vec w) \<subseteq> (ad_file_dest \<circ> snd) ` set (mu_monitoring w) \<and>
     mu_active w = of_nat (card (act (mu_monitoring w))) \<and>
     set (mu_attached w) = live (mu_eh_vec w) (mu_monitoring w) \<and>
     set (mu_messages w) \<subseteq> set (mu_attached w)"

lemma multi_invD:
  assumes "multi_inv w"
  shows "well_keyed (mu_eh_vec w) cu_file_loc" "well_keyed (mu_monitoring w) ad_file_dest"
    "distinct (map (cu_easy \<circ> snd) (mu_eh_vec w))"
    "\<And>u ci. (u, ci) \<in> set (mu_eh_vec w) \<Longrightarrow> cu_easy ci < mu_next_easy w"
    "act (mu_monitoring w) \<subseteq> (cu_file_loc \<circ> snd) ` set (mu_eh_vec w)"
    "(cu_file_loc \<circ> snd) ` set (mu_eh_vec w) \<subseteq> (ad_file_dest \<circ> snd) ` set (mu_monitoring w)"
    "mu_active w = of_nat (card (act (mu_monitoring w)))"
    "set (mu_attached w) = live (mu_eh_vec w) (mu_monitoring w)"
    "set (mu_messages w) \<subseteq> set (mu_attached w)"
  using assms by (auto simp: multi_inv_def)

text \<open>A step keeps the invariant in a world whose hash order is an order of the keys.\<close>

definition keeps_inv :: "'z multi_scheme \<Rightarrow> 'z multi_scheme \<Rightarrow> bool" where
  "keeps_inv w w' \<longleftrightarrow> w_bucket_order w' = w_bucket_order w \<and>
     (multi_inv w \<longrightarrow> fair_order w \<longrightarrow> multi_inv w')"

interpretation inv: frame keeps_inv
  by unfold_locales (auto simp: keeps_inv_def reflp_def transp_def fair_order_def)

text \<open>What the invariant looks at.\<close>

definition bookkeeping where
  "bookkeeping w = (mu_eh_vec w, mu_monitoring w, mu_active w, mu_attached w, mu_messages w, mu_next_easy w, w_bucket_order w)"

lemma same_bookkeeping: "bookkeeping w' = bookkeeping w \<Longrightarrow> keeps_inv w w'"
proof -
  assume "bookkeeping w' = bookkeeping w"
  then have eqs: "mu_eh_vec w' = mu_eh_vec w" "mu_monitoring w' = mu_monitoring w" "mu_active w' = mu_active w"
    "mu_attached w' = mu_attached w" "mu_messages w' = mu_messages w" "mu_next_easy w' = mu_next_easy w"
    "w_bucket_order w' = w_bucket_order w" by (simp_all add: bookkeeping_def)
  show ?thesis unfolding keeps_inv_def multi_inv_def eqs by blast
qed

lemma quiet_step: "(\<And>w. bookkeeping (snd (m w)) = bookkeeping w) \<Longrightarrow> preserves keeps_inv m"
  by (simp add: preserves_def same_bookkeeping)

section \<open>Stopping\<close>

lemma handle_of_entry:
  assumes "multi_inv w" and "fair_order w" and "(u, ci) \<in> set (mu_eh_vec w)"
  shows "handle_of_file (cu_file_loc ci) w = Some (u, ci)" and "entry_of_handle (cu_easy ci) w = Some (u, ci)"
proof -
  note wk = multi_invD(1) [OF assms(1), unfolded well_keyed_def]
  show "handle_of_file (cu_file_loc ci) w = Some (u, ci)"
    unfolding handle_of_file_def by (rule find_value [OF assms(2) _ _ assms(3)]) (use wk in auto)
  show "entry_of_handle (cu_easy ci) w = Some (u, ci)"
    unfolding entry_of_handle_def
    by (rule find_value [OF assms(2) _ multi_invD(3) [OF assms(1)] assms(3)]) (use wk in auto)
qed

lemma monitored_entry:
  assumes "well_keyed (mu_monitoring w) ad_file_dest" and "fair_order w" and "(k, d) \<in> set (mu_monitoring w)"
  shows "monitored (ad_file_dest d) w = Some (k, d)"
  unfolding monitored_def
  by (rule find_value [OF assms(2) _ _ assms(3)]) (use assms(1) in \<open>auto simp: well_keyed_def\<close>)

lemma not_monitored:
  "well_keyed (mu_monitoring w) ad_file_dest \<Longrightarrow> fair_order w \<Longrightarrow>
     f \<notin> (ad_file_dest \<circ> snd) ` set (mu_monitoring w) \<Longrightarrow> monitored f w = None"
  unfolding monitored_def by (rule find_missing) (auto simp: well_keyed_def)

lemma handle_of_file_in:
  "multi_inv w \<Longrightarrow> fair_order w \<Longrightarrow> handle_of_file f w = Some (u, ci) \<Longrightarrow>
     (u, ci) \<in> set (mu_eh_vec w) \<and> cu_file_loc ci = f"
  using find_entry [of w "mu_eh_vec w" f cu_file_loc u ci] multi_invD(1) [of w]
  by (simp add: handle_of_file_def well_keyed_def)

lemma monitored_in:
  "well_keyed (mu_monitoring w) ad_file_dest \<Longrightarrow> fair_order w \<Longrightarrow> monitored f w = Some (k, d) \<Longrightarrow>
     (k, d) \<in> set (mu_monitoring w) \<and> ad_file_dest d = f"
  using find_entry [of w "mu_monitoring w" f ad_file_dest k d]
  by (simp add: monitored_def well_keyed_def)

text \<open>Taking one file out of the running ones.\<close>

lemma live_without:
  assumes "well_keyed eh cu_file_loc" and "distinct (map (cu_easy \<circ> snd) eh)" and "(u, ci) \<in> set eh"
    and "act mon' = act mon - {cu_file_loc ci}"
  shows "live eh mon' = live eh mon - {cu_easy ci}"
proof -
  have inj: "inj_on (cu_easy \<circ> snd) (set eh)" using assms(2) by (simp add: distinct_map)
  have same: "cu_easy c = cu_easy ci \<longleftrightarrow> cu_file_loc c = cu_file_loc ci" if "(v, c) \<in> set eh" for v c
  proof
    assume "cu_easy c = cu_easy ci"
    then show "cu_file_loc c = cu_file_loc ci" using inj_onD [OF inj, of "(v, c)" "(u, ci)"] that assms(3) by simp
  next
    have inj': "inj_on (cu_file_loc \<circ> snd) (set eh)" using assms(1) by (simp add: well_keyed_def distinct_map)
    assume "cu_file_loc c = cu_file_loc ci"
    then show "cu_easy c = cu_easy ci" using inj_onD [OF inj', of "(v, c)" "(u, ci)"] that assms(3) by simp
  qed
  have "live eh mon' = {cu_easy c | v c. (v, c) \<in> set eh \<and> cu_file_loc c \<in> act mon \<and> cu_easy c \<noteq> cu_easy ci}"
    unfolding live_def assms(4) using same by (metis (no_types, lifting) Diff_iff singletonD singletonI)
  also have "\<dots> = live eh mon - {cu_easy ci}" unfolding live_def by auto
  finally show ?thesis .
qed

lemma count_without: "f \<in> act mon \<Longrightarrow> of_nat (card (act mon - {f})) = (of_nat (card (act mon)) :: 16 word) - 1"
  by (cases "card (act mon)") (auto simp: card_Diff_singleton)

definition stopped where
  "stopped k d ci w = w\<lparr>mu_monitoring := AList.update k (d\<lparr>ad_isActive := False\<rparr>) (mu_monitoring w),
     mu_active := mu_active w - 1,
     mu_attached := filter (\<lambda>x. x \<noteq> cu_easy ci) (mu_attached w),
     mu_messages := filter (\<lambda>x. x \<noteq> cu_easy ci) (mu_messages w)\<rparr>"

lemma stopped_inv:
  assumes "multi_inv w" and "(u, ci) \<in> set (mu_eh_vec w)" and "(k, d) \<in> set (mu_monitoring w)"
    and "ad_file_dest d = cu_file_loc ci" and "ad_isActive d"
  shows "multi_inv (stopped k d ci w)" and "act (mu_monitoring (stopped k d ci w)) = act (mu_monitoring w) - {cu_file_loc ci}"
proof -
  note i = multi_invD [OF assms(1)]
  let ?mon = "AList.update k (d\<lparr>ad_isActive := False\<rparr>) (mu_monitoring w)"
  have act: "act ?mon = act (mu_monitoring w) - {cu_file_loc ci}"
    using act_update [OF i(2) assms(3), of False] assms(4) by simp
  then show "act (mu_monitoring (stopped k d ci w)) = act (mu_monitoring w) - {cu_file_loc ci}"
    by (simp add: stopped_def)
  have wk: "well_keyed ?mon ad_file_dest" and set: "set ?mon = insert (k, d\<lparr>ad_isActive := False\<rparr>) (set (mu_monitoring w) - {(k, d)})"
    using well_keyed_update [OF i(2) assms(3), of "d\<lparr>ad_isActive := False\<rparr>"] by simp_all
  have files: "(ad_file_dest \<circ> snd) ` set ?mon = (ad_file_dest \<circ> snd) ` set (mu_monitoring w)"
    using assms(3) by (force simp: set)
  have in_act: "cu_file_loc ci \<in> act (mu_monitoring w)" using assms(3-5) unfolding act_def by force
  show "multi_inv (stopped k d ci w)"
    unfolding multi_inv_def stopped_def
    using i live_without [OF i(1,3) assms(2) act] act wk files count_without [OF in_act]
    by (auto simp: set_filter)
qed

lemma recvStopDl_running:
  assumes "multi_inv w" and "fair_order w" and "f \<in> act (mu_monitoring w)"
  obtains u ci k d where "(u, ci) \<in> set (mu_eh_vec w)" and "cu_file_loc ci = f"
    and "(k, d) \<in> set (mu_monitoring w)" and "ad_file_dest d = f" and "ad_isActive d"
    and "recvStopDl f w = (Ok (), stopped k d ci w)"
proof -
  note i = multi_invD [OF assms(1)]
  obtain k d where d: "(k, d) \<in> set (mu_monitoring w)" "ad_file_dest d = f" "ad_isActive d"
    using assms(3) by (auto simp: act_def)
  obtain u ci where c: "(u, ci) \<in> set (mu_eh_vec w)" "cu_file_loc ci = f"
    using i(5) assms(3) by force
  have "u \<noteq> []" "k \<noteq> []" using c(1) d(1) i(1,2) by (force simp: well_keyed_def)+
  then have "recvStopDl f w = (Ok (), stopped k d ci w)"
    using handle_of_entry(1) [OF assms(1,2) c(1)] monitored_entry [OF i(2) assms(2) d(1)] c(2) d(2,3)
    by (simp add: recvStopDl_def curl_multi_remove_handle_def stopped_def)
  with c d show ?thesis by (rule that)
qed

lemma inv_recvStopDl: "preserves keeps_inv (recvStopDl f)"
proof -
  have "keeps_inv w (snd (recvStopDl f w))" for w :: "'a multi_scheme"
  proof (cases "multi_inv w \<and> fair_order w")
    case inv: True
    note i = multi_invD [OF conjunct1 [OF inv]]
    show ?thesis
    proof (cases "f \<in> act (mu_monitoring w)")
      case True
      from recvStopDl_running [OF _ _ this] inv obtain u ci k d where
        s: "(u, ci) \<in> set (mu_eh_vec w)" "cu_file_loc ci = f" "(k, d) \<in> set (mu_monitoring w)"
          "ad_file_dest d = f" "ad_isActive d" "recvStopDl f w = (Ok (), stopped k d ci w)" by metis
      from s stopped_inv(1) [OF _ s(1,3) _ s(5)] show ?thesis
        by (simp add: keeps_inv_def) (simp add: stopped_def)
    next
      case False
      have "\<not> ad_isActive d" if "monitored f w = Some (k, d)" for k d
        using monitored_in [OF i(2) _ that] False inv by (auto simp: act_def)
      then have "snd (recvStopDl f w) = w"
        by (auto simp: recvStopDl_def split: option.splits)
      then show ?thesis by (simp add: same_bookkeeping)
    qed
  next
    case False
    have "w_bucket_order (snd (recvStopDl f w)) = w_bucket_order w"
      by (auto simp: recvStopDl_def curl_multi_remove_handle_def split: option.splits)
    with False show ?thesis by (simp add: keeps_inv_def)
  qed
  then show ?thesis by (simp add: preserves_def)
qed

section \<open>Driving the transfers\<close>

lemma inv_xferinfo: "preserves keeps_inv (curl_xferinfo p a b c d)"
  by (rule quiet_step) (simp add: curl_xferinfo_def bookkeeping_def Let_def)

lemma inv_write: "preserves keeps_inv (curl_write_file_callback s m n p)"
  by (rule quiet_step) (simp add: curl_write_file_callback_def bookkeeping_def Let_def split: option.splits)

lemma preserves_if:
  "preserves R m \<Longrightarrow> preserves R n \<Longrightarrow> preserves R (\<lambda>w. if b w then m w else n w)"
  by (simp add: preserves_def)

lemma inv_event: "preserves keeps_inv (net_event_step e)"
proof (cases e)
  case (Clock t)
  show ?thesis unfolding Clock net_event_step.simps by (rule quiet_step) (simp add: bookkeeping_def)
next
  case (Progress p a b c d)
  show ?thesis unfolding Progress net_event_step.simps by (intro preserves_if inv.keeps inv_xferinfo)
next
  case (Data p a b c)
  show ?thesis unfolding Data net_event_step.simps by (intro preserves_if inv.keeps inv_write)
next
  case (Stop f)
  show ?thesis unfolding Stop net_event_step.simps by (intro inv.keeps inv_recvStopDl)
qed

lemma inv_tick: "preserves keeps_inv tick_call"
  by (rule quiet_step) (simp add: tick_call_def bookkeeping_def)

lemma inv_deliver:
  "preserves keeps_inv (modifyp (\<lambda>w. w\<lparr>mu_still_running := r,
     mu_messages := mu_messages w @ filter (\<lambda>e. e \<in> set (mu_attached w)) ds\<rparr>))"
proof (rule inv.modify)
  fix w :: "'a multi_scheme"
  show "keeps_inv w (w\<lparr>mu_still_running := r,
     mu_messages := mu_messages w @ filter (\<lambda>e. e \<in> set (mu_attached w)) ds\<rparr>)"
    unfolding keeps_inv_def multi_inv_def by auto
qed

lemma inv_perform: "preserves keeps_inv curl_multi_perform"
  unfolding curl_multi_perform_def by (intro inv.keeps inv_tick inv_event inv_deliver)

lemma inv_wait: "preserves keeps_inv curl_multi_wait"
  unfolding curl_multi_wait_def by (intro inv.keeps inv_tick inv_event)

lemma inv_stream: "preserves keeps_inv (loopp stream_step ())"
  unfolding stream_step_def by (intro inv.while inv.keeps inv_wait inv_perform)

text \<open>A queued message belongs to a running transfer, which its end takes out of all books.\<close>

lemma finish_running:
  assumes "multi_inv w" and "fair_order w" and "e \<in> set (mu_attached w)"
  obtains w' where "finish_transfer e w = (Ok True, w')" and "multi_inv w'" and "w_bucket_order w' = w_bucket_order w"
    and "\<exists>u ci. (u, ci) \<in> set (mu_eh_vec w) \<and> cu_easy ci = e \<and>
      act (mu_monitoring w') = act (mu_monitoring w) - {cu_file_loc ci}"
    and "e \<notin> set (mu_attached w')"
proof -
  note i = multi_invD [OF assms(1)]
  obtain u ci where c: "(u, ci) \<in> set (mu_eh_vec w)" "cu_easy ci = e" "cu_file_loc ci \<in> act (mu_monitoring w)"
    using assms(3) unfolding i(8) live_def by auto
  then obtain k d where d: "(k, d) \<in> set (mu_monitoring w)" "ad_file_dest d = cu_file_loc ci" "ad_isActive d"
    unfolding act_def by force
  have ne: "u \<noteq> []" "k \<noteq> []" using c(1) d(1) i(1,2) by (force simp: well_keyed_def)+
  define w' where "w' = snd (finish_transfer e w)"
  let ?mon = "AList.delete k (mu_monitoring w)" and ?eh = "AList.delete u (mu_eh_vec w)"
  have run: "finish_transfer e w = (Ok True, w')" and eh: "mu_eh_vec w' = ?eh" and mon: "mu_monitoring w' = ?mon"
    and rest: "mu_active w' = mu_active w - 1" "mu_attached w' = filter (\<lambda>x. x \<noteq> e) (mu_attached w)"
      "mu_messages w' = filter (\<lambda>x. x \<noteq> e) (mu_messages w)" "mu_next_easy w' = mu_next_easy w"
      "w_bucket_order w' = w_bucket_order w"
    using handle_of_entry(2) [OF assms(1,2) c(1)] monitored_entry [OF i(2) assms(2) d(1)] ne c(2) d(2)
    by (simp_all add: w'_def finish_transfer_def curl_multi_remove_handle_def)
  have act: "act ?mon = act (mu_monitoring w) - {cu_file_loc ci}"
    using act_delete [OF i(2) d(1)] d(2) by simp
  have sets: "set ?eh = set (mu_eh_vec w) - {(u, ci)}" "set ?mon = set (mu_monitoring w) - {(k, d)}"
    by (rule well_keyed_delete_set [OF i(1) c(1)], rule well_keyed_delete_set [OF i(2) d(1)])
  have img: "(cu_file_loc \<circ> snd) ` set ?eh = (cu_file_loc \<circ> snd) ` set (mu_eh_vec w) - {cu_file_loc ci}"
    "(ad_file_dest \<circ> snd) ` set ?mon = (ad_file_dest \<circ> snd) ` set (mu_monitoring w) - {cu_file_loc ci}"
    using well_keyed_image [OF i(1) c(1), of "\<lambda>_. True"] well_keyed_image [OF i(2) d(1), of "\<lambda>_. True"] d(2)
    by (simp_all only: sets) simp_all
  have "live ?eh ?mon = live (mu_eh_vec w) ?mon"
    unfolding live_def sets using act by auto
  also have "\<dots> = live (mu_eh_vec w) (mu_monitoring w) - {e}"
    using live_without [OF i(1,3) c(1) act] c(2) by simp
  finally have live: "live ?eh ?mon = live (mu_eh_vec w) (mu_monitoring w) - {e}" .
  have "distinct (map (cu_easy \<circ> snd) ?eh)"
    using i(3) by (simp add: delete_filter distinct_map_filter)
  moreover have "\<forall>(v, c) \<in> set ?eh. cu_easy c < mu_next_easy w" using i(4) sets(1) by auto
  moreover have "act ?mon \<subseteq> (cu_file_loc \<circ> snd) ` set ?eh" unfolding img act using i(5) by blast
  moreover have "(cu_file_loc \<circ> snd) ` set ?eh \<subseteq> (ad_file_dest \<circ> snd) ` set ?mon" unfolding img using i(6) by blast
  moreover have "mu_active w - 1 = of_nat (card (act ?mon))"
    using count_without [OF c(3)] act i(7) by simp
  moreover have "set (filter (\<lambda>x. x \<noteq> e) (mu_attached w)) = live ?eh ?mon" using live i(8) by auto
  moreover have "set (filter (\<lambda>x. x \<noteq> e) (mu_messages w)) \<subseteq> set (filter (\<lambda>x. x \<noteq> e) (mu_attached w))" using i(9) by auto
  ultimately have "multi_inv w'"
    unfolding multi_inv_def eh mon rest using well_keyed_delete [OF i(1)] well_keyed_delete [OF i(2)] by blast
  moreover have "e \<notin> set (mu_attached w')" by (simp add: rest)
  moreover have "act (mu_monitoring w') = act (mu_monitoring w) - {cu_file_loc ci}" using act mon by simp
  ultimately show ?thesis using run c(1,2) rest(5) that by blast
qed

lemma inv_read_and_finish:
  "preserves keeps_inv (bindp curl_multi_info_read (\<lambda>msg. case msg of Some e \<Rightarrow> finish_transfer e | None \<Rightarrow> ret False))"
proof -
  have "keeps_inv w (snd (bindp curl_multi_info_read (\<lambda>msg. case msg of Some e \<Rightarrow> finish_transfer e | None \<Rightarrow> ret False) w))"
    for w :: "'a multi_scheme"
  proof (cases "mu_messages w")
    case Nil
    then show ?thesis by (simp add: curl_multi_info_read_def bindp_def same_bookkeeping)
  next
    case (Cons e es)
    define w1 where "w1 = w\<lparr>mu_messages := es\<rparr>"
    have run: "bindp curl_multi_info_read (\<lambda>msg. case msg of Some e \<Rightarrow> finish_transfer e | None \<Rightarrow> ret False) w =
        finish_transfer e w1"
      using Cons by (simp add: curl_multi_info_read_def bindp_def w1_def)
    have order: "w_bucket_order (snd (finish_transfer e w1)) = w_bucket_order w"
      by (auto simp: finish_transfer_def curl_multi_remove_handle_def w1_def split: option.splits)
    have "multi_inv (snd (finish_transfer e w1))" if "multi_inv w" "fair_order w"
    proof -
      have "multi_inv w1" "fair_order w1" "e \<in> set (mu_attached w1)"
        using that Cons by (auto simp: multi_inv_def w1_def fair_order_def)
      then show ?thesis by (metis finish_running snd_conv)
    qed
    with order show ?thesis by (simp add: run keeps_inv_def)
  qed
  then show ?thesis by (simp add: preserves_def)
qed

lemma inv_mcode: "preserves keeps_inv (mcode_or_die c)"
  by (cases c) (simp_all add: mcode_or_die_def inv.keeps)

lemma inv_fileStream: "preserves keeps_inv fileStream"
  unfolding fileStream_def
  by (intro inv.catch inv.bind inv.seq inv.branch inv.basic inv_perform inv_mcode inv_stream inv_read_and_finish)

section \<open>Starting\<close>

definition next_id :: "'z multi_scheme \<Rightarrow> nat \<Rightarrow> string" where
  "next_id w n = concat (map (\<lambda>i. show_nat (w_random w (w_drawn w + n + i) mod 10)) [0..<23])"

lemma next_id_length: "length (next_id w n) = 23"
proof -
  have "length (show_nat (d mod 10)) = 1" for d by (subst show_nat.simps) simp
  then show ?thesis by (simp add: next_id_def length_concat comp_def sum_list_triv)
qed

lemma next_id_nonempty: "next_id w n \<noteq> []"
  using next_id_length [of w n] by auto

lemma multi_createId_run:
  "multi_createId w = (if next_id w 0 \<in> fst ` set (mu_eh_vec w)
     then (Throw (Invalid_argument ''A given ID already exists!''), w\<lparr>w_drawn := w_drawn w + 23\<rparr>)
     else (Ok (next_id w 0), w\<lparr>w_drawn := w_drawn w + 23\<rparr>))"
  by (simp add: multi_createId_def bindp_Ok [OF draw_digits_run] next_id_def Let_def)

definition new_init :: "nat \<Rightarrow> string \<Rightarrow> string \<Rightarrow> curl_init" where
  "new_init easy url fileLoc = \<lparr>cu_easy = easy, cu_url = url, cu_file_loc = fileLoc,
     cu_prog = \<lparr>cp_stat = [], cp_url = url, cp_file_dest = fileLoc, cp_timer_set = False,
       cp_content_length = Finite 0\<rparr>\<rparr>"

lemma new_conn_run:
  assumes "0 \<le> off" and "f \<noteq> []" and "next_id w 0 \<notin> fst ` set (mu_eh_vec w)"
    and "mu_easy_ok w (mu_next_easy w)" and "mu_add_code w (mu_next_easy w) = CURLM_OK"
    and "well_keyed (mu_monitoring w) ad_file_dest" and "fair_order w"
    and "(k, d) \<in> set (mu_monitoring w)" and "ad_file_dest d = f" and "k \<noteq> []"
  obtains w' where "new_conn url f off w = (Ok (next_id w 0), w')"
    and "mu_eh_vec w' = AList.update (next_id w 0) (new_init (mu_next_easy w) url f) (mu_eh_vec w)"
    and "mu_monitoring w' = AList.update k (d\<lparr>ad_isActive := True\<rparr>) (mu_monitoring w)"
    and "mu_attached w' = mu_attached w @ [mu_next_easy w]" and "mu_next_easy w' = Suc (mu_next_easy w)"
    and "mu_active w' = mu_active w" and "mu_messages w' = mu_messages w" and "w_bucket_order w' = w_bucket_order w"
proof -
  have m: "monitored f w' = Some (k, d)"
    if "mu_monitoring w' = mu_monitoring w" "w_bucket_order w' = w_bucket_order w" for w' :: "'a multi_scheme"
    using monitored_entry [OF assms(6-8)] that assms(9) by (simp add: monitored_def)
  show ?thesis
    by (rule that [of "snd (new_conn url f off w)"])
      (use assms(1-5,10) in \<open>simp_all add: new_conn_def bindp_def seqp_def multi_createId_run curl_easy_init_def
        open_stream_def curl_multi_add_handle_def mcode_or_die_def m new_init_def Let_def\<close>)
qed

text \<open>A connection to \<open>f\<close> can be made: libcurl gives a handle and takes it, and the drawn identifiers
  are new.\<close>

definition connectable :: "string \<Rightarrow> string \<Rightarrow> bool \<Rightarrow> 'z multi_scheme \<Rightarrow> bool" where
  "connectable url f resumeDl w \<longleftrightarrow> url \<noteq> [] \<and> f \<noteq> [] \<and>
     (resumeDl \<longrightarrow> fd_exists (h_disk w f)) \<and>
     mu_easy_ok w (mu_next_easy w) \<and> mu_add_code w (mu_next_easy w) = CURLM_OK \<and>
     next_id w 0 \<notin> fst ` set (mu_eh_vec w) \<union> fst ` set (mu_monitoring w) \<and>
     next_id w 23 \<notin> fst ` set (mu_eh_vec w)"

lemma live_add:
  assumes "well_keyed eh cu_file_loc" and "act mon' = insert (cu_file_loc c) (act mon)"
    and "cu_file_loc c \<notin> (cu_file_loc \<circ> snd) ` set eh"
  shows "live (eh @ [(u, c)]) mon' = insert (cu_easy c) (live eh mon)"
proof -
  have old: "cu_file_loc ci \<in> act mon' \<longleftrightarrow> cu_file_loc ci \<in> act mon" if "(v, ci) \<in> set eh" for v ci
  proof -
    have "cu_file_loc ci \<noteq> cu_file_loc c" using assms(3) imageI [OF that, of "cu_file_loc \<circ> snd"] by (metis comp_apply snd_conv)
    then show ?thesis using assms(2) by simp
  qed
  have "live (eh @ [(u, c)]) mon' = insert (cu_easy c) {cu_easy ci | v ci. (v, ci) \<in> set eh \<and> cu_file_loc ci \<in> act mon'}"
    using assms(2) by (auto simp: live_def)
  also have "{cu_easy ci | v ci. (v, ci) \<in> set eh \<and> cu_file_loc ci \<in> act mon'} = live eh mon"
    unfolding live_def using old by metis
  finally show ?thesis .
qed

lemma begin_new:
  assumes "multi_inv w" and "fair_order w" and "connectable url f resumeDl w"
    and "f \<notin> (ad_file_dest \<circ> snd) ` set (mu_monitoring w)"
  obtains w' where "begin_download url f resumeDl w = (Ok True, w')" and "multi_inv w'"
    and "w_bucket_order w' = w_bucket_order w" and "act (mu_monitoring w') = insert f (act (mu_monitoring w))"
    and "mu_next_easy w \<in> set (mu_attached w')"
proof -
  note i = multi_invD [OF assms(1)]
  have c: "url \<noteq> []" "f \<noteq> []" "resumeDl \<Longrightarrow> fd_exists (h_disk w f)" "mu_easy_ok w (mu_next_easy w)"
    "mu_add_code w (mu_next_easy w) = CURLM_OK" "next_id w 0 \<notin> fst ` set (mu_eh_vec w)"
    "next_id w 0 \<notin> fst ` set (mu_monitoring w)" "next_id w 23 \<notin> fst ` set (mu_eh_vec w)"
    using assms(3) by (simp_all add: connectable_def)
  let ?d = "\<lparr>ad_file_dest = f, ad_isActive = False\<rparr>"
  define g where "g w = (if mu_gi w then w else w\<lparr>mu_gi := True\<rparr>)" for w :: "'a multi_scheme"
  define w1 where "w1 = (g w)\<lparr>w_drawn := w_drawn w + 23,
    mu_monitoring := AList.update (next_id w 0) ?d (mu_monitoring w), mu_active := mu_active w + 1\<rparr>"
  have g [simp]: "mu_monitoring (g w) = mu_monitoring w" "mu_eh_vec (g w) = mu_eh_vec w" "w_drawn (g w) = w_drawn w"
    "w_random (g w) = w_random w" "w_bucket_order (g w) = w_bucket_order w" "mu_active (g w) = mu_active w"
    "mu_next_easy (g w) = mu_next_easy w" "h_disk (g w) = h_disk w" "mu_easy_ok (g w) = mu_easy_ok w"
    "mu_add_code (g w) = mu_add_code w" "mu_attached (g w) = mu_attached w" "mu_messages (g w) = mu_messages w"
    by (simp_all add: g_def)
  have ids: "next_id (g w) 0 = next_id w 0" "next_id w1 0 = next_id w 23"
    by (simp_all add: next_id_def w1_def)
  have mon1: "mu_monitoring w1 = mu_monitoring w @ [(next_id w 0, ?d)]"
    by (simp add: w1_def update_new [OF c(7)])
  have wk1: "well_keyed (mu_monitoring w1) ad_file_dest"
    unfolding mon1 by (rule well_keyed_add) (use i(2) next_id_nonempty c(7) assms(4) in auto)
  obtain w' where conn: "new_conn url f (if resumeDl then int (length (fd_bytes (h_disk w f))) else 0) w1 = (Ok (next_id w 23), w')"
    and r: "mu_eh_vec w' = AList.update (next_id w1 0) (new_init (mu_next_easy w1) url f) (mu_eh_vec w1)"
      "mu_monitoring w' = AList.update (next_id w 0) (?d\<lparr>ad_isActive := True\<rparr>) (mu_monitoring w1)"
      "mu_attached w' = mu_attached w1 @ [mu_next_easy w1]" "mu_next_easy w' = Suc (mu_next_easy w1)"
      "mu_active w' = mu_active w1" "mu_messages w' = mu_messages w1" "w_bucket_order w' = w_bucket_order w1"
    by (rule new_conn_run [of "if resumeDl then int (length (fd_bytes (h_disk w f))) else 0" f w1
          "next_id w 0" ?d url, unfolded ids(2)])
      (use c wk1 assms(2) in \<open>simp_all add: ids fair_order_def next_id_nonempty mon1\<close>, simp_all add: w1_def)
  have run: "begin_download url f resumeDl w = (Ok True, w')"
    using conn c(1-3,6) not_monitored [OF i(2) assms(2,4)]
    by (simp add: begin_download_def bindp_def seqp_def g_def [symmetric] monitored_def multi_createId_run
        ids w1_def getFileSize_def Let_def cong: if_cong) (cases resumeDl; simp)
  have act1: "act (mu_monitoring w1) = act (mu_monitoring w)" by (auto simp: mon1 act_def)
  have act: "act (mu_monitoring w') = insert f (act (mu_monitoring w))"
    using act_update [OF wk1, of "next_id w 0" ?d True] r(2) act1 by (simp add: mon1)
  have files: "(ad_file_dest \<circ> snd) ` set (mu_monitoring w') = insert f ((ad_file_dest \<circ> snd) ` set (mu_monitoring w))"
    using well_keyed_update(2) [OF wk1, of "next_id w 0" ?d "?d\<lparr>ad_isActive := True\<rparr>"] r(2) c(7)
    by (force simp: mon1)
  have f_new: "f \<notin> (cu_file_loc \<circ> snd) ` set (mu_eh_vec w)" "f \<notin> act (mu_monitoring w)"
    using assms(4) i(5,6) by (meson subsetD)+
  have eh: "mu_eh_vec w' = mu_eh_vec w @ [(next_id w 23, new_init (mu_next_easy w) url f)]"
    using r(1) [unfolded ids(2)] by (simp add: w1_def update_new [OF c(8)])
  have loc: "cu_file_loc (new_init e url f) = f" "cu_easy (new_init e url f) = e" for e by (simp_all add: new_init_def)
  have "well_keyed (mu_eh_vec w') cu_file_loc"
    unfolding eh by (rule well_keyed_add) (use i(1) next_id_nonempty c(8) f_new loc in auto)
  moreover have "well_keyed (mu_monitoring w') ad_file_dest"
    unfolding r(2) by (rule well_keyed_update(1) [OF wk1, of _ ?d]) (simp_all add: mon1)
  moreover have "distinct (map (cu_easy \<circ> snd) (mu_eh_vec w'))"
    using i(3,4) by (force simp: eh loc)
  moreover have "\<forall>(u, ci) \<in> set (mu_eh_vec w'). cu_easy ci < mu_next_easy w'"
    using i(4) r(4) by (force simp: eh loc w1_def)
  moreover have "act (mu_monitoring w') \<subseteq> (cu_file_loc \<circ> snd) ` set (mu_eh_vec w')"
    using i(5) by (auto simp: act eh loc)
  moreover have "(cu_file_loc \<circ> snd) ` set (mu_eh_vec w') \<subseteq> (ad_file_dest \<circ> snd) ` set (mu_monitoring w')"
    using i(6) unfolding files by (auto simp: eh loc)
  moreover have "mu_active w' = of_nat (card (act (mu_monitoring w')))"
    using i(7) f_new(2) r(5) by (simp add: act w1_def)
  moreover have live: "set (mu_attached w') = live (mu_eh_vec w') (mu_monitoring w')"
  proof -
    have "live (mu_eh_vec w') (mu_monitoring w') = insert (mu_next_easy w) (live (mu_eh_vec w) (mu_monitoring w))"
      unfolding eh using live_add [OF i(1), of "mu_monitoring w'" "new_init (mu_next_easy w) url f" "mu_monitoring w"]
        act f_new(1) by (simp add: loc)
    then show ?thesis using i(8) r(3) by (simp add: w1_def)
  qed
  moreover have "set (mu_messages w') \<subseteq> set (mu_attached w')" using i(9) r(3,6) by (auto simp: w1_def)
  ultimately have "multi_inv w'" unfolding multi_inv_def by blast
  moreover have "w_bucket_order w' = w_bucket_order w" using r(7) by (simp add: w1_def)
  moreover have "mu_next_easy w \<in> set (mu_attached w')" using r(3) by (simp add: w1_def)
  ultimately show ?thesis using run act that by blast
qed

text \<open>A file whose transfer was stopped is still monitored; it gets a second handle.\<close>

lemma begin_again:
  assumes "well_keyed (mu_monitoring w) ad_file_dest" and "fair_order w"
    and "(k, d) \<in> set (mu_monitoring w)" and "ad_file_dest d = f" and "\<not> ad_isActive d" and "k \<noteq> []"
    and "connectable url f resumeDl w"
  obtains w' where "begin_download url f resumeDl w = (Ok True, w')"
    and "mu_eh_vec w' = mu_eh_vec w @ [(next_id w 0, new_init (mu_next_easy w) url f)]"
    and "mu_monitoring w' = AList.update k (d\<lparr>ad_isActive := True\<rparr>) (mu_monitoring w)"
    and "mu_attached w' = mu_attached w @ [mu_next_easy w]" and "mu_active w' = mu_active w + 1"
    and "w_bucket_order w' = w_bucket_order w"
proof -
  define w1 where "w1 = (if mu_gi w then w else w\<lparr>mu_gi := True\<rparr>)\<lparr>mu_active := mu_active w + 1\<rparr>"
  have same: "mu_monitoring w1 = mu_monitoring w" "mu_eh_vec w1 = mu_eh_vec w" "next_id w1 0 = next_id w 0"
    "mu_easy_ok w1 = mu_easy_ok w" "mu_next_easy w1 = mu_next_easy w" "mu_add_code w1 = mu_add_code w"
    "w_bucket_order w1 = w_bucket_order w" "mu_attached w1 = mu_attached w" "mu_active w1 = mu_active w + 1"
    "h_disk w1 = h_disk w"
    by (simp_all add: w1_def next_id_def)
  have c: "url \<noteq> []" "f \<noteq> []" "resumeDl \<Longrightarrow> fd_exists (h_disk w f)" "mu_easy_ok w (mu_next_easy w)"
    "mu_add_code w (mu_next_easy w) = CURLM_OK" "next_id w 0 \<notin> fst ` set (mu_eh_vec w)"
    using assms(7) by (simp_all add: connectable_def)
  obtain w' where conn: "new_conn url f (if resumeDl then int (length (fd_bytes (h_disk w f))) else 0) w1 = (Ok (next_id w 0), w')"
    and r: "mu_eh_vec w' = AList.update (next_id w 0) (new_init (mu_next_easy w) url f) (mu_eh_vec w)"
      "mu_monitoring w' = AList.update k (d\<lparr>ad_isActive := True\<rparr>) (mu_monitoring w)"
      "mu_attached w' = mu_attached w @ [mu_next_easy w]" "mu_active w' = mu_active w + 1"
      "w_bucket_order w' = w_bucket_order w"
    by (rule new_conn_run [of "if resumeDl then int (length (fd_bytes (h_disk w f))) else 0" f w1 k d url, unfolded same])
      (use c assms(1-6) in \<open>simp_all add: same fair_order_def\<close>)
  have "monitored f v = Some (k, d)" if "mu_monitoring v = mu_monitoring w" "w_bucket_order v = w_bucket_order w" for v :: "'a multi_scheme"
    using monitored_entry [OF assms(1-3)] assms(4) that by (simp add: monitored_def)
  then have "begin_download url f resumeDl w = (Ok True, w')"
    using conn c(1-3) assms(5,6)
    by (cases resumeDl; cases "mu_gi w")
      (simp_all add: begin_download_def bindp_def seqp_def w1_def getFileSize_def Let_def)
  then show ?thesis using that r update_new [OF c(6)] by auto
qed

lemma find_append: "find P (xs @ ys) = (case find P xs of None \<Rightarrow> find P ys | Some x \<Rightarrow> Some x)"
  by (induction xs) auto

lemma walk_in_order: "distinct (map fst m) \<Longrightarrow> walk (\<lambda>ks. ks) m = m"
  by (auto simp: walk_def comp_def intro!: map_idI)

lemma stopped_simps [simp]:
  "mu_eh_vec (stopped k d ci w) = mu_eh_vec w" "w_bucket_order (stopped k d ci w) = w_bucket_order w"
  "mu_monitoring (stopped k d ci w) = AList.update k (d\<lparr>ad_isActive := False\<rparr>) (mu_monitoring w)"
  "mu_next_easy (stopped k d ci w) = mu_next_easy w" "fair_order (stopped k d ci w) = fair_order w"
  "mu_attached (stopped k d ci w) = filter (\<lambda>x. x \<noteq> cu_easy ci) (mu_attached w)"
  "mu_active (stopped k d ci w) = mu_active w - 1"
  by (simp_all add: stopped_def fair_order_def)

lemma stop_resume_stop:
  assumes "multi_inv w" and "w_bucket_order w = (\<lambda>ks. ks)" and "f \<in> act (mu_monitoring w)"
    and w1: "w1 = snd (recvStopDl f w)" and "connectable url f resumeDl w1"
    and w2: "w2 = snd (begin_download url f resumeDl w1)" and w3: "w3 = snd (recvStopDl f w2)"
  shows "mu_next_easy w1 \<in> set (mu_attached w2) \<and> mu_next_easy w1 \<in> set (mu_attached w3) \<and>
    f \<in> act (mu_monitoring w2) \<and> f \<notin> act (mu_monitoring w3) \<and> mu_active w3 = mu_active w2 - 1"
proof -
  have fair: "fair_order w" using assms(2) by (simp add: fair_order_def)
  note i = multi_invD [OF assms(1)]
  obtain u ci k d where s: "(u, ci) \<in> set (mu_eh_vec w)" "cu_file_loc ci = f" "(k, d) \<in> set (mu_monitoring w)"
    "ad_file_dest d = f" "ad_isActive d" "recvStopDl f w = (Ok (), stopped k d ci w)"
    by (rule recvStopDl_running [OF assms(1) fair assms(3)])
  then have w1': "w1 = stopped k d ci w" using w1 by simp
  let ?d = "d\<lparr>ad_isActive := False\<rparr>"
  note u1 = well_keyed_update [OF i(2) s(3), of ?d, simplified]
  have d1: "(k, ?d) \<in> set (mu_monitoring w1)" by (simp add: w1' u1(2))
  have wk1: "well_keyed (mu_monitoring w1) ad_file_dest" by (simp add: w1' u1(1))
  have ne: "u \<noteq> []" "k \<noteq> []" using s(1,3) i(1,2) by (force simp: well_keyed_def)+
  obtain v where b: "begin_download url f resumeDl w1 = (Ok True, v)"
    and v: "mu_eh_vec v = mu_eh_vec w1 @ [(next_id w1 0, new_init (mu_next_easy w1) url f)]"
      "mu_monitoring v = AList.update k (?d\<lparr>ad_isActive := True\<rparr>) (mu_monitoring w1)"
      "mu_attached v = mu_attached w1 @ [mu_next_easy w1]" "mu_active v = mu_active w1 + 1"
      "w_bucket_order v = w_bucket_order w1"
    by (rule begin_again [OF wk1 _ d1 _ _ ne(2) assms(5)]) (use s(4) fair in \<open>simp_all add: w1'\<close>)
  have w2': "w2 = v" using w2 b by simp
  let ?e = "d\<lparr>ad_isActive := True\<rparr>"
  note u2 = well_keyed_update [OF wk1 d1, of ?e, simplified]
  have e2: "(k, ?e) \<in> set (mu_monitoring v)" and wk2: "well_keyed (mu_monitoring v) ad_file_dest"
    using u2 by (simp_all add: v(2))
  have fair2: "fair_order v" using v(5) assms(2) by (simp add: fair_order_def w1')
  have "next_id w1 0 \<notin> fst ` set (mu_eh_vec w)"
    using assms(5) by (simp add: connectable_def w1')
  then have "walk (w_bucket_order v) (mu_eh_vec v) = mu_eh_vec v"
    using i(1) v(5) assms(2) by (auto simp: v(1) w1' well_keyed_def intro!: walk_in_order)
  moreover have "find (\<lambda>(_, c). f = cu_file_loc c) (mu_eh_vec w) = Some (u, ci)"
    using handle_of_entry(1) [OF assms(1) fair s(1)] s(2) i(1) assms(2)
    by (simp add: handle_of_file_def walk_in_order well_keyed_def)
  ultimately have h: "handle_of_file f v = Some (u, ci)"
    by (simp add: handle_of_file_def v(1) w1' find_append)
  have m: "monitored f v = Some (k, ?e)"
    using monitored_entry [OF wk2 fair2 e2] s(4) by simp
  have stop: "recvStopDl f v = (Ok (), stopped k ?e ci v)"
    using ne by (simp add: recvStopDl_def h m curl_multi_remove_handle_def stopped_def)
  have act2: "act (mu_monitoring v) = insert f (act (mu_monitoring w1))"
    using act_update [OF wk1 d1, of True] v(2) s(4) by simp
  have act3: "act (mu_monitoring (stopped k ?e ci v)) = act (mu_monitoring v) - {f}"
    using act_update [OF wk2 e2, of False] s(4) by simp
  have "cu_easy ci < mu_next_easy w1" using i(4) [OF s(1)] by (simp add: w1')
  then show ?thesis using stop w3 w2' v(3) act2 act3 by simp
qed

end
