(* ===== verification/Transfer_Properties.thy ===== *)
theory Transfer_Properties
  imports Curl_Transfers
begin

text \<open>
  What the window can rely on when it starts and stops downloads, and what it cannot: the properties
  of \<open>CurlMulti\<close> with a state to apply them to.
\<close>

section \<open>A resume that is refused\<close>

lemma new_conn_refused:
  "f \<noteq> [] \<Longrightarrow> \<exists>e w'. new_conn url f (- 1) w = (Throw e, w') \<and> std_exception e \<and>
     mu_active w' = mu_active w \<and> mu_monitoring w' = mu_monitoring w \<and> mu_eh_vec w' = mu_eh_vec w \<and>
     mu_attached w' = mu_attached w \<and> w_boxes w' = w_boxes w"
  by (simp add: new_conn_def bindp_def seqp_def multi_createId_run curl_easy_init_def Let_def)

lemma resume_refused:
  assumes "multi_inv w" and "fair_order w" and "url \<noteq> []" and "f \<noteq> []"
    and "f \<notin> (ad_file_dest \<circ> snd) ` set (mu_monitoring w)" and "\<not> fd_exists (h_disk w f)"
    and "next_id w 0 \<notin> fst ` set (mu_eh_vec w) \<union> fst ` set (mu_monitoring w)"
  shows "\<exists>w'. recvNewDl url f True w = (Ok (), w') \<and> w_boxes w' = w_boxes w @ [Warning ''Error!''] \<and>
    mu_active w' = mu_active w + 1 \<and> act (mu_monitoring w') = act (mu_monitoring w) \<and>
    mu_attached w' = mu_attached w \<and> \<not> multi_inv w'"
proof -
  note i = multi_invD [OF assms(1)]
  define w1 where "w1 = (if mu_gi w then w else w\<lparr>mu_gi := True\<rparr>)\<lparr>w_drawn := w_drawn w + 23,
    mu_monitoring := AList.update (next_id w 0) \<lparr>ad_file_dest = f, ad_isActive = False\<rparr> (mu_monitoring w),
    mu_active := mu_active w + 1\<rparr>"
  obtain e w2 where c: "new_conn url f (- 1) w1 = (Throw e, w2)" "std_exception e"
    "mu_active w2 = mu_active w1" "mu_monitoring w2 = mu_monitoring w1" "mu_attached w2 = mu_attached w1"
    "w_boxes w2 = w_boxes w1"
    using new_conn_refused [OF assms(4), of url w1] by auto
  have "begin_download url f True w = (Throw e, w2)"
    using c(1) assms(3,4,6,7) not_monitored [OF i(2) assms(2,5)]
    by (cases "mu_gi w") (simp_all add: begin_download_def bindp_def seqp_def monitored_def multi_createId_run
        next_id_def getFileSize_def Let_def w1_def)
  then have run: "recvNewDl url f True w = (Ok (), w2\<lparr>w_boxes := w_boxes w2 @ [Warning ''Error!'']\<rparr>)"
    using c(2) by (simp add: recvNewDl_def with_warning_def bindp_Throw catchp_Throw seqp_Ok)
  have mon: "mu_monitoring w1 = mu_monitoring w @ [(next_id w 0, \<lparr>ad_file_dest = f, ad_isActive = False\<rparr>)]"
    using assms(7) by (simp add: w1_def update_new)
  then have act: "act (mu_monitoring w1) = act (mu_monitoring w)" by (auto simp: act_def)
  have rest: "mu_active w1 = mu_active w + 1" "w_boxes w1 = w_boxes w" "mu_attached w1 = mu_attached w"
    by (simp_all add: w1_def)
  have "mu_active w1 \<noteq> of_nat (card (act (mu_monitoring w1)))" using act i(7) rest(1) by simp
  then show ?thesis using run c(3-6) act rest by (auto simp: multi_inv_def)
qed

section \<open>The throttle of the statistics\<close>

fun is_stats :: "multi_signal \<Rightarrow> bool" where
  "is_stats (Xfer_stats _) = True"
| "is_stats (Dl_finished _) = False"

definition stats_sent :: "'z multi_scheme \<Rightarrow> int" where
  "stats_sent w = int (length (filter is_stats (mu_signals w)))"

text \<open>Each statistic moves \<open>lastTime\<close> on by a second at least, to a time the clock has shown.\<close>

definition throttled :: "int set \<Rightarrow> 'z multi_scheme \<Rightarrow> 'z multi_scheme \<Rightarrow> bool" where
  "throttled ts w w' \<longleftrightarrow> stats_sent w' - stats_sent w \<le> mu_last_time w' - mu_last_time w \<and>
     (mu_last_time w' = mu_last_time w \<or> mu_last_time w' \<in> insert (w_now w) ts) \<and>
     w_now w' \<in> insert (w_now w) ts"

lemma throttled_event: "throttled {t. Clock t = e} w (snd (net_event_step e w))"
proof (cases e)
  case (Progress p a b c d)
  then show ?thesis
    by (simp add: throttled_def curl_xferinfo_def seqp_def bindp_def stats_sent_def Let_def)
next
  case (Stop f)
  have "throttled {} w (snd (recvStopDl f w))"
    by (auto simp: throttled_def recvStopDl_def stats_sent_def curl_multi_remove_handle_def split: option.splits)
  then show ?thesis using Stop
    by (cases "recvStopDl f w"; cases "fst (recvStopDl f w)")
      (auto simp: throttled_def catchp_def)
next
  case (Data p a b c)
  then show ?thesis
    by (simp add: throttled_def curl_write_file_callback_def seqp_def bindp_def stats_sent_def Let_def split: option.splits)
qed (simp add: throttled_def stats_sent_def)

lemma throttled_run: "throttled {t. Clock t \<in> set es} w (snd (each net_event_step es w))"
proof (induction es arbitrary: w)
  case (Cons e es)
  obtain r w1 where s: "net_event_step e w = (r, w1)" by (cases "net_event_step e w")
  from throttled_event [of e w] s have t: "throttled {t. Clock t = e} w w1" by simp
  have "throttled {t. Clock t \<in> set (e # es)} w w1" using t by (auto simp: throttled_def)
  moreover have "throttled {t. Clock t \<in> set (e # es)} w w2" if "throttled {t. Clock t \<in> set es} w1 w2" for w2
    using t that by (auto simp: throttled_def)
  ultimately show ?case using s Cons.IH [of w1] by (cases r) (simp_all add: seqp_def bindp_def)
qed (simp add: throttled_def)

section \<open>The end of a download\<close>

text \<open>Events neither throw nor touch the schedule of the network.\<close>

definition same_net :: "'z multi_scheme \<Rightarrow> 'z multi_scheme \<Rightarrow> bool" where
  "same_net w w' \<longleftrightarrow> mu_perform w' = mu_perform w \<and> mu_wait w' = mu_wait w \<and> mu_calls w' = mu_calls w \<and>
     mu_multi_ok w' = mu_multi_ok w"

lemma event_returns: "\<exists>w'. net_event_step e w = (Ok (), w') \<and> same_net w w'"
proof (cases e)
  case (Stop f)
  have "\<exists>r w'. recvStopDl f w = (r, w') \<and> same_net w w' \<and> (r = Ok () \<or> (\<exists>e. r = Throw e))"
    by (auto simp: recvStopDl_def curl_multi_remove_handle_def same_net_def split: option.splits)
  then show ?thesis using Stop by (auto simp: catchp_def)
qed (auto simp: curl_xferinfo_def curl_write_file_callback_def seqp_def bindp_def same_net_def Let_def
      split: option.splits)

lemma events_return: "\<exists>w'. each net_event_step es w = (Ok (), w') \<and> same_net w w'"
proof (induction es arbitrary: w)
  case (Cons e es)
  obtain w1 where "net_event_step e w = (Ok (), w1)" "same_net w w1" using event_returns by blast
  moreover obtain w2 where "each net_event_step es w1 = (Ok (), w2)" "same_net w1 w2" using Cons.IH by blast
  ultimately show ?case by (auto simp: seqp_Ok same_net_def)
qed (simp add: same_net_def)

lemma wait_returns:
  "\<exists>w'. curl_multi_wait w = (Ok (wt_code (mu_wait w (mu_calls w))), w') \<and> mu_perform w' = mu_perform w \<and>
     mu_wait w' = mu_wait w \<and> mu_calls w' = Suc (mu_calls w)"
proof -
  obtain w' where "each net_event_step (wt_events (mu_wait w (mu_calls w))) (w\<lparr>mu_calls := Suc (mu_calls w)\<rparr>) = (Ok (), w')"
    "same_net (w\<lparr>mu_calls := Suc (mu_calls w)\<rparr>) w'" using events_return by blast
  then show ?thesis
    by (auto simp: curl_multi_wait_def tick_call_def bindp_def seqp_def same_net_def)
qed

lemma perform_returns:
  "\<exists>w'. curl_multi_perform w = (Ok (pf_code (mu_perform w (mu_calls w))), w') \<and> mu_perform w' = mu_perform w \<and>
     mu_wait w' = mu_wait w \<and> mu_calls w' = Suc (mu_calls w) \<and> mu_multi_ok w' = mu_multi_ok w \<and>
     mu_still_running w' = pf_running (mu_perform w (mu_calls w))"
proof -
  obtain w' where "each net_event_step (pf_events (mu_perform w (mu_calls w))) (w\<lparr>mu_calls := Suc (mu_calls w)\<rparr>) = (Ok (), w')"
    "same_net (w\<lparr>mu_calls := Suc (mu_calls w)\<rparr>) w'" using events_return by blast
  then show ?thesis
    by (auto simp: curl_multi_perform_def tick_call_def bindp_def seqp_def same_net_def)
qed

text \<open>A round of the loop leaves it, or performs the call after the wait.\<close>

lemma stream_round:
  obtains (leave) w' where "stream_step () w = (Ok (Inr ()), w')"
  | (fail) e w' where "stream_step () w = (Throw e, w')" and "std_exception e"
  | (go) w' where "stream_step () w = (Ok (Inl ()), w')" and "mu_perform w' = mu_perform w"
      and "mu_calls w' = mu_calls w + 2" and "mu_still_running w' = pf_running (mu_perform w (mu_calls w + 1))"
proof (cases "going_on w")
  case False
  then have "stream_step () w = (Ok (Inr ()), w)" by (simp add: stream_step_def)
  then show ?thesis by (rule leave)
next
  case True
  obtain w1 where w1: "curl_multi_wait w = (Ok (wt_code (mu_wait w (mu_calls w))), w1)"
    "mu_perform w1 = mu_perform w" "mu_calls w1 = Suc (mu_calls w)" using wait_returns [of w] by blast
  obtain w2 where w2: "curl_multi_perform w1 = (Ok (pf_code (mu_perform w1 (mu_calls w1))), w2)"
    "mu_still_running w2 = pf_running (mu_perform w1 (mu_calls w1))"
    "mu_perform w2 = mu_perform w1" "mu_calls w2 = Suc (mu_calls w1)" using perform_returns [of w1] by blast
  note run = True w1(1) w2(1)
  consider "wt_code (mu_wait w (mu_calls w)) \<noteq> CURLM_OK"
    | "wt_code (mu_wait w (mu_calls w)) = CURLM_OK" "\<not> 0 < sint (mu_active w1)"
    | "wt_code (mu_wait w (mu_calls w)) = CURLM_OK" "0 < sint (mu_active w1)" by blast
  then show ?thesis
  proof cases
    case 1
    then show ?thesis using run by (intro fail [of "Runtime_error ''curl_multi_wait() failed!''" w1]) (simp_all add: stream_step_def bindp_Ok)
  next
    case 2
    then show ?thesis using run by (intro leave [of w1]) (simp add: stream_step_def bindp_Ok)
  next
    case 3
    then show ?thesis using run w1(2,3) w2(2-4)
      by (intro go [of w2]) (simp_all add: stream_step_def bindp_Ok seqp_Ok)
  qed
qed

lemma stream_done: "stream_step () w = (Ok (Inr ()), w') \<Longrightarrow> loopp stream_step () w = (Ok (), w')"
  by (rule loopp_done)

lemma stream_back:
  assumes "loopp stream_step () w2 = (r, w')" and "finished r" and "stream_step () w = (Ok (Inl ()), w2)"
  shows "\<exists>r w'. loopp stream_step () w = (r, w') \<and> finished r"
proof -
  have "r \<noteq> Hang" using assms(2) by auto
  from loopp_next [OF assms(3,1) this] assms(2) show ?thesis by blast
qed

text \<open>It performs at every second call, and ends when one of these reports that nothing runs.\<close>

lemma stream_ends:
  "pf_running (mu_perform w (mu_calls w + 2 * j + 1)) = 0 \<Longrightarrow>
     \<exists>r w'. loopp stream_step () w = (r, w') \<and> finished r"
proof (induction j arbitrary: w)
  case (0 w)
  show ?case
  proof (cases w rule: stream_round)
    case (go w2)
    then have "stream_step () w2 = (Ok (Inr ()), w2)"
      using 0 by (simp add: stream_step_def going_on_def)
    from stream_back [OF stream_done [OF this] _ go(1)] show ?thesis by simp
  qed (use stream_done loopp_throw in fastforce)+
next
  case (Suc j w)
  show ?case
  proof (cases w rule: stream_round)
    case (go w2)
    then have "pf_running (mu_perform w2 (mu_calls w2 + 2 * j + 1)) = 0" using Suc.prems by simp
    from Suc.IH [OF this] stream_back go(1) show ?thesis by blast
  qed (use stream_done loopp_throw in fastforce)+
qed

lemma finish_returns: "\<exists>r w'. finish_transfer e w = (r, w') \<and> finished r"
  by (auto simp: finish_transfer_def curl_multi_remove_handle_def split: option.splits)

lemma mcode_returns: "\<exists>r. mcode_or_die c w = (r, w) \<and> finished r"
  by (cases c) (simp_all add: mcode_or_die_def)

lemma finished_seqp:
  assumes "m w = (r, w1)" and "finished r" and "\<exists>r' w'. n w1 = (r', w') \<and> finished r'"
  shows "\<exists>r' w'. seqp m n w = (r', w') \<and> finished r'"
  using assms by (cases r) (auto simp: seqp_def bindp_def)

lemma fileStream_returns:
  assumes "pf_running (mu_perform w (mu_calls w + 2 * j)) = 0"
  shows "\<exists>b w'. fileStream w = (Ok b, w')"
proof -
  have inner: "\<exists>r w'. bindp curl_multi_info_read (\<lambda>msg. case msg of Some e \<Rightarrow> finish_transfer e | None \<Rightarrow> ret False) v = (r, w') \<and> finished r"
    for v :: "'a multi_scheme"
    using finish_returns by (cases "mu_messages v") (auto simp: curl_multi_info_read_def bindp_def)
  obtain w1 where w1: "curl_multi_perform w = (Ok (pf_code (mu_perform w (mu_calls w))), w1)"
    "mu_perform w1 = mu_perform w" "mu_calls w1 = Suc (mu_calls w)"
    "mu_still_running w1 = pf_running (mu_perform w (mu_calls w))" using perform_returns [of w] by blast
  have "\<exists>r w'. loopp stream_step () w1 = (r, w') \<and> finished r"
  proof (cases j)
    case 0
    then have "stream_step () w1 = (Ok (Inr ()), w1)"
      using assms w1(4) by (simp add: stream_step_def going_on_def)
    from stream_done [OF this] show ?thesis by simp
  next
    case (Suc i)
    then show ?thesis using stream_ends [of w1 i] assms w1(2,3) by (simp add: add.commute)
  qed
  then obtain r0 w0 where w0: "loopp stream_step () w1 = (r0, w0)" "finished r0" by blast
  have loop: "\<exists>r w'. seqp (loopp stream_step ())
      (bindp curl_multi_info_read (\<lambda>msg. case msg of Some e \<Rightarrow> finish_transfer e | None \<Rightarrow> ret False)) w1 = (r, w') \<and> finished r"
    by (rule finished_seqp [where m = "loopp stream_step ()", OF w0 inner])
  let ?c = "pf_code (mu_perform w (mu_calls w))"
  obtain r where r: "(if ?c \<noteq> CURLM_OK then mcode_or_die ?c else ret ()) w1 = (r, w1)" "finished r"
    using mcode_returns [of ?c w1] by (cases "?c = CURLM_OK") auto
  have body: "\<exists>r w'. seqp (if ?c \<noteq> CURLM_OK then mcode_or_die ?c else ret ()) (seqp (loopp stream_step ())
      (bindp curl_multi_info_read (\<lambda>msg. case msg of Some e \<Rightarrow> finish_transfer e | None \<Rightarrow> ret False))) w1 = (r, w') \<and> finished r"
    by (rule finished_seqp [where m = "if ?c \<noteq> CURLM_OK then mcode_or_die ?c else ret ()" and w = w1 and ?w1.0 = w1 and r = r])
      (use r loop in blast)+
  have fin: "\<exists>b w'. catchp m (\<lambda>e. if std_exception e then ret False else raise e) v = (Ok b, w')"
    if ex: "\<exists>r w'. m v = (r, w') \<and> finished r" for m :: "('a, bool) net" and v
  proof -
    obtain r v' where "m v = (r, v')" "finished r" using ex by blast
    then show ?thesis by (cases r) (auto simp: catchp_def)
  qed
  show ?thesis
    unfolding fileStream_def using body w1(1) by (intro fin) (simp add: bindp_Ok)
qed

section \<open>A state to start from\<close>

text \<open>Nothing downloads, any path can be written, and the network finishes what is attached at once.\<close>

definition no_file :: file_on_disk where
  "no_file = \<lparr>fd_exists = False, fd_is_directory = False, fd_opens = False, fd_bytes = []\<rparr>"

definition idle_multi :: multi where
  "idle_multi =
     \<lparr>w_kv = (\<lambda>_. None), w_db_ok = (\<lambda>_. True), w_db_calls = 0,
      w_csv = \<lparr>st_rows_parsed = 0, st_ret_parsed_cols = 0, st_proc_cols = []\<rparr>,
      w_random = (\<lambda>n. n div 23), w_drawn = 0, w_bucket_order = (\<lambda>ks. ks), w_boxes = [],
      w_held = (\<lambda>_. False), w_now = 7, w_garbage = False, w_garbage_int = 0,
      h_disk = (\<lambda>_. no_file), h_writable = (\<lambda>_. True), h_garbage_double = NaN,
      mu_gi = False, mu_multi_ok = True, mu_still_running = 0, mu_eh_vec = [], mu_monitoring = [],
      mu_active = 0, mu_last_time = 0,
      mu_progs = (\<lambda>_. \<lparr>cp_stat = [], cp_url = [], cp_file_dest = [], cp_timer_set = False, cp_content_length = Finite 0\<rparr>),
      mu_streams = (\<lambda>_. None), mu_signals = [], mu_attached = [], mu_resume_from = (\<lambda>_. 0), mu_messages = [],
      mu_next_easy = 0, mu_easy_ok = (\<lambda>_. True), mu_add_code = (\<lambda>_. CURLM_OK), mu_calls = 0,
      mu_perform = (\<lambda>n. \<lparr>pf_code = CURLM_OK, pf_running = 0, pf_events = [], pf_done = [0]\<rparr>),
      mu_wait = (\<lambda>n. \<lparr>wt_code = CURLM_OK, wt_events = []\<rparr>), mu_content_length = (\<lambda>_. Finite 0)\<rparr>"

lemma idle_facts:
  "multi_inv idle_multi" "fair_order idle_multi" "w_bucket_order idle_multi = (\<lambda>ks. ks)"
  "(ad_file_dest \<circ> snd) ` set (mu_monitoring idle_multi) = {}" "\<not> fd_exists (h_disk idle_multi f)"
  "mu_eh_vec idle_multi = []" "mu_monitoring idle_multi = []"
  by (simp_all add: idle_multi_def multi_inv_def well_keyed_def act_def live_def fair_order_def no_file_def)

lemma idle_connectable: "connectable ''http://h/f'' ''/f'' False idle_multi"
  by (simp add: connectable_def idle_multi_def)

section \<open>Properties\<close>

text \<open>C20: Stopping a running download ends it in all books: its flag is cleared, the counter goes down by
  one, its handle leaves the multi handle, and the invariant holds on.\<close>

theorem recvStopDl_stops:
  assumes "multi_inv w" and "fair_order w" and "f \<in> act (mu_monitoring w)"
  shows "\<exists>w' u ci. recvStopDl f w = (Ok (), w') \<and> multi_inv w' \<and>
    act (mu_monitoring w') = act (mu_monitoring w) - {f} \<and> mu_active w' = mu_active w - 1 \<and>
    (u, ci) \<in> set (mu_eh_vec w) \<and> cu_file_loc ci = f \<and>
    cu_easy ci \<in> set (mu_attached w) \<and> cu_easy ci \<notin> set (mu_attached w')"
proof -
  obtain u ci k d where s: "(u, ci) \<in> set (mu_eh_vec w)" "cu_file_loc ci = f" "(k, d) \<in> set (mu_monitoring w)"
    "ad_file_dest d = f" "ad_isActive d" "recvStopDl f w = (Ok (), stopped k d ci w)"
    by (rule recvStopDl_running [OF assms])
  have "cu_easy ci \<in> set (mu_attached w)"
    using s(1,2) assms(3) unfolding multi_invD(8) [OF assms(1)] live_def by blast
  with s stopped_inv [OF assms(1) s(1,3) _ s(5)] show ?thesis by fastforce
qed


text \<open>C35: A resume of a file that is not on the disk is refused after the counter went up: a message
  box, no handle, and one download too many in the counter for good.\<close>

theorem refused_resume_leaks:
  assumes "multi_inv w" and "fair_order w" and "url \<noteq> []" and "f \<noteq> []"
    and "f \<notin> (ad_file_dest \<circ> snd) ` set (mu_monitoring w)" and "\<not> fd_exists (h_disk w f)"
    and "next_id w 0 \<notin> fst ` set (mu_eh_vec w) \<union> fst ` set (mu_monitoring w)"
  shows "\<exists>w'. recvNewDl url f True w = (Ok (), w') \<and> w_boxes w' = w_boxes w @ [Warning ''Error!''] \<and>
    mu_active w' = mu_active w + 1 \<and> act (mu_monitoring w') = act (mu_monitoring w) \<and>
    mu_attached w' = mu_attached w \<and> \<not> multi_inv w'"
  by (rule resume_refused [OF assms])


text \<open>C37: However many transfers report progress, the window is sent at most one statistic for each
  second that \<open>lastTime\<close> advanced, and \<open>lastTime\<close> is only ever set to a time the clock showed.\<close>

theorem stats_throttled:
  "stats_sent (snd (each net_event_step es w)) - stats_sent w \<le>
     mu_last_time (snd (each net_event_step es w)) - mu_last_time w \<and>
   mu_last_time (snd (each net_event_step es w)) \<in> {mu_last_time w, w_now w} \<union> {t. Clock t \<in> set es}"
  using throttled_run [of es w] by (auto simp: throttled_def)

text \<open>C21: If one of the calls of \<open>curl_multi_perform\<close> that \<open>fileStream\<close> makes reports that nothing is
  running any more, \<open>fileStream\<close> returns, with an answer.\<close>

theorem fileStream_ends:
  assumes "pf_running (mu_perform w (mu_calls w + 2 * j)) = 0"
  shows "\<exists>b w'. fileStream w = (Ok b, w')"
  by (rule fileStream_returns [OF assms])

section \<open>Witnesses\<close>

lemma idle_started:
  obtains w where "multi_inv w" and "fair_order w" and "w_bucket_order w = (\<lambda>ks. ks)" and "''/f'' \<in> act (mu_monitoring w)"
    and "begin_download ''http://h/f'' ''/f'' False idle_multi = (Ok True, w)"
  using begin_new [OF idle_facts(1,2) idle_connectable] idle_facts(2,3,4) by (auto simp: fair_order_def)

theorem recvStopDl_stops_witness:
  "\<exists>w'. recvStopDl ''/f'' (snd (begin_download ''http://h/f'' ''/f'' False idle_multi)) = (Ok (), w') \<and>
     multi_inv w' \<and> ''/f'' \<notin> act (mu_monitoring w')"
proof -
  obtain w where w: "multi_inv w" "fair_order w" "''/f'' \<in> act (mu_monitoring w)"
    "begin_download ''http://h/f'' ''/f'' False idle_multi = (Ok True, w)" by (rule idle_started)
  from recvStopDl_stops [OF w(1-3)] w(4) show ?thesis by auto
qed


theorem refused_resume_leaks_witness:
  "\<exists>w'. recvNewDl ''http://h/f'' ''/f'' True idle_multi = (Ok (), w') \<and> mu_active w' = 1 \<and> act (mu_monitoring w') = {}"
  using refused_resume_leaks [OF idle_facts(1,2), of "''http://h/f''" "''/f''"]
  by (auto simp: idle_facts) (auto simp: idle_multi_def act_def)

text \<open>One download is running.\<close>

definition busy_multi :: multi where
  "busy_multi = idle_multi\<lparr>mu_eh_vec := [(''a'', new_init 0 ''http://h/f'' ''/f'')],
     mu_monitoring := [(''k'', \<lparr>ad_file_dest = ''/f'', ad_isActive = True\<rparr>)], mu_active := 1,
     mu_attached := [0], mu_next_easy := 1\<rparr>"

lemma busy_facts:
  "multi_inv busy_multi" "w_bucket_order busy_multi = (\<lambda>ks. ks)" "''/f'' \<in> act (mu_monitoring busy_multi)"
  by (simp_all add: busy_multi_def idle_multi_def multi_inv_def well_keyed_def act_def live_def new_init_def)

lemma busy_stop:
  "recvStopDl ''/f'' busy_multi =
     (Ok (), stopped ''k'' \<lparr>ad_file_dest = ''/f'', ad_isActive = True\<rparr> (new_init 0 ''http://h/f'' ''/f'') busy_multi)"
proof -
  have fair: "fair_order busy_multi" by (simp add: fair_order_def busy_facts(2))
  obtain u ci k d where s: "(u, ci) \<in> set (mu_eh_vec busy_multi)" "(k, d) \<in> set (mu_monitoring busy_multi)"
    "recvStopDl ''/f'' busy_multi = (Ok (), stopped k d ci busy_multi)"
    by (rule recvStopDl_running [OF busy_facts(1) fair busy_facts(3)])
  from s(1,2) show ?thesis unfolding s(3) by (simp add: busy_multi_def)
qed

lemma busy_stopped:
  "connectable ''http://h/f'' ''/f'' False (snd (recvStopDl ''/f'' busy_multi))"
proof -
  have "next_id v n \<noteq> [c]" for v :: multi and n c
  proof
    assume "next_id v n = [c]"
    then have "length (next_id v n) = 1" by simp
    then show False by (simp add: next_id_length)
  qed
  then show ?thesis
    unfolding busy_stop connectable_def by (simp add: stopped_def busy_multi_def idle_multi_def)
qed


theorem fileStream_ends_witness: "\<exists>b w'. fileStream idle_multi = (Ok b, w')"
  by (rule fileStream_ends [of idle_multi 0]) (simp add: idle_multi_def)

end
