(* ===== verification/Torrent_History.thy ===== *)
theory Torrent_History
  imports Curl_History
begin

text \<open>
  The history of BitTorrent downloads (\<open>src/cmnroutines.cpp\<close>): twelve values per torrent, one CSV
  value and one piece map per file of the torrent, one CSV value per tracker. The theory shows
  what of a torrent survives being stored: the files do, the status and all trackers but the
  last do not.
\<close>

section \<open>Writing\<close>

definition file_key :: "string \<Rightarrow> nat \<Rightarrow> string" where
  "file_key download_key counter =
     multipart_key [download_key, KEY_TORRENT_FILES, to_string_int (int counter)]"

definition mapflepce_key :: "string \<Rightarrow> nat \<Rightarrow> string" where
  "mapflepce_key download_key counter =
     multipart_key [download_key, KEY_TORRENT_MAPFLEPCE, to_string_int (int counter)]"

definition tracker_key :: "string \<Rightarrow> nat \<Rightarrow> string" where
  "tracker_key download_key counter =
     multipart_key [download_key, KEY_TORRENT_TRACKERS, to_string_int (int counter)]"

definition file_fields :: "string \<Rightarrow> torrent_file \<Rightarrow> string list" where
  "file_fields map_key f =
     [tf_file_path f, to_string_int (tf_content_length f), tf_sha1_hash_hex f,
      to_string_int (tf_file_offset f), to_string_int (tf_mtime f), map_key,
      to_string_bool (tf_downloaded f), to_string_int (tf_flags f)]"

definition piece_fields :: "torrent_file \<Rightarrow> string list" where
  "piece_fields f =
     [to_string_int (fst (tf_map_file_piece f)), to_string_int (snd (tf_map_file_piece f))]"

definition tracker_fields :: "torrent_tracker \<Rightarrow> string list" where
  "tracker_fields t = [tt_url t, to_string_int (tt_tier t), to_string_bool (tt_enabled t)]"

text \<open>A header row and one data row; the data row has no line feed.\<close>

definition two_rows :: "string list \<Rightarrow> string list \<Rightarrow> string" where
  "two_rows hdrs vs = csv_line hdrs @ separated COMMA vs"

fun write_files_from :: "nat \<Rightarrow> torrent_file list \<Rightarrow> string \<Rightarrow> ('z, bool) action" where
  "write_files_from counter [] download_key = ret True"
| "write_files_from counter (f # fs) download_key =
     (let counter = Suc counter;
          fk = file_key download_key counter;
          mk = mapflepce_key download_key counter
      in bindp (db_write [Delete fk, Delete mk,
                  Put fk (two_rows torrent_file_headers (file_fields mk f)),
                  Put mk (two_rows mapflepce_headers (piece_fields f))]) (\<lambda>s.
         if s \<noteq> DbOK then ret False else write_files_from counter fs download_key))"

definition write_torrent_files_addendum :: "torrent_file list \<Rightarrow> string \<Rightarrow> ('z, bool) action" where
  "write_torrent_files_addendum to_files_vec download_key =
     (if to_files_vec \<noteq> [] then write_files_from 0 to_files_vec download_key else ret False)"

fun write_trackers_from :: "nat \<Rightarrow> torrent_tracker list \<Rightarrow> string \<Rightarrow> ('z, bool) action" where
  "write_trackers_from counter [] download_key = ret True"
| "write_trackers_from counter (t # ts) download_key =
     (let counter = Suc counter; tk = tracker_key download_key counter
      in bindp (db_write [Delete tk, Put tk (two_rows tracker_headers (tracker_fields t))]) (\<lambda>s.
         if s \<noteq> DbOK then ret False else write_trackers_from counter ts download_key))"

definition write_torrent_trkrs_addendum :: "torrent_tracker list \<Rightarrow> string \<Rightarrow> ('z, bool) action" where
  "write_torrent_trkrs_addendum to_trackers_vec download_key =
     write_trackers_from 0 to_trackers_vec download_key"

section \<open>Reading\<close>

text \<open>A local structure the code does not initialise.\<close>

definition garbage_file :: "'z world_scheme \<Rightarrow> torrent_file" where
  "garbage_file w =
     \<lparr>tf_unique_id = [], tf_file_path = [], tf_sha1_hash_hex = [], tf_flags = w_garbage_int w,
      tf_content_length = w_garbage_int w, tf_file_offset = w_garbage_int w,
      tf_mtime = w_garbage_int w, tf_map_file_piece = (0, 0), tf_downloaded = w_garbage w\<rparr>"

definition garbage_tracker :: "'z world_scheme \<Rightarrow> torrent_tracker" where
  "garbage_tracker w =
     \<lparr>tt_unique_id = [], tt_tier = w_garbage_int w, tt_url = [], tt_enabled = w_garbage w\<rparr>"

definition open_checked :: "string \<Rightarrow> string list \<Rightarrow> string list \<Rightarrow> ('z, csv_reader) action" where
  "open_checked data hdrs vital =
     bindp (csvp (csv_open False data hdrs)) (\<lambda>rd.
     bindp (liftp (lacks_column rd vital)) (\<lambda>lacks.
     seqp (if lacks then show_box (Warning ''Missing vital data'') else ret ()) (ret rd)))"

text \<open>The body of the row loop of \<open>read_torrent_files_addendum\<close>. The reader of the piece map resets
  the members that all readers share.\<close>

definition read_file_row :: "string \<Rightarrow> string list \<Rightarrow> torrent_file \<Rightarrow> ('z, torrent_file) action" where
  "read_file_row download_key vs item =
     (if download_key \<noteq> [] then
        let item = item\<lparr>tf_unique_id := download_key, tf_file_path := vs ! 0,
              tf_content_length := atol (vs ! 1), tf_sha1_hash_hex := vs ! 2,
              tf_file_offset := atol (vs ! 3), tf_mtime := atoi (vs ! 4) mod 2 ^ 32,
              tf_downloaded := convertBool_fromInt (atoi (vs ! 6)), tf_flags := atoi (vs ! 7)\<rparr>
        in bindp (if vs ! 5 \<noteq> [] then
                    bindp (db_get (vs ! 5)) (\<lambda>(s, csv_mapflepce_data).
                    if s \<noteq> DbOK then raise (Runtime_error ''read_torrent_files_addendum'')
                    else ret csv_mapflepce_data)
                  else raise (Invalid_argument ''Invalid key provided'')) (\<lambda>csv_mapflepce_data.
           bindp (open_checked csv_mapflepce_data mapflepce_headers mapflepce_headers) (\<lambda>rd.
           bindp (csvp (read_row rd [[], []])) (\<lambda>(row, ms).
           ret (if row then item\<lparr>tf_map_file_piece := (atoi (ms ! 0), atoi (ms ! 1))\<rparr> else item))))
      else ret item)"

definition file_rows_step :: "csv_reader \<Rightarrow> string \<Rightarrow> string list \<times> torrent_file \<times> torrent_file list \<Rightarrow>
    ('z, (string list \<times> torrent_file \<times> torrent_file list) + torrent_file list) action" where
  "file_rows_step rd download_key x =
     (case x of (vs, item, to_files) \<Rightarrow>
        bindp (csvp (read_row rd vs)) (\<lambda>(row, vs).
        if row then
          bindp (read_file_row download_key vs item) (\<lambda>item. ret (Inl (vs, item, to_files @ [item])))
        else ret (Inr to_files)))"

fun read_files_from :: "nat \<Rightarrow> nat \<Rightarrow> string \<Rightarrow> torrent_file list \<Rightarrow> ('z, torrent_file list) action" where
  "read_files_from 0 counter download_key to_files = ret to_files"
| "read_files_from (Suc n) counter download_key to_files =
     (let counter = Suc counter
      in bindp (db_get (file_key download_key counter)) (\<lambda>(s, csv_file_data).
         if s \<noteq> DbOK then ret []
         else if csv_file_data \<noteq> [] \<and> CSV_MIN_PARSE_SIZE < length csv_file_data then
           bindp (open_checked csv_file_data torrent_file_headers
                    [''file-path'', ''content-length'', ''file-offset'', ''downloaded-bool'']) (\<lambda>rd.
           bindp (getp garbage_file) (\<lambda>item.
           bindp (loopp (file_rows_step rd download_key) (replicate 8 [], item, to_files)) (\<lambda>to_files.
           read_files_from n counter download_key to_files)))
         else read_files_from n counter download_key to_files))"

definition read_torrent_files_addendum :: "int \<Rightarrow> string \<Rightarrow> ('z, torrent_file list) action" where
  "read_torrent_files_addendum num_files download_key =
     (if 0 < num_files then read_files_from (nat num_files) 0 download_key [] else ret [])"

text \<open>The counter starts above the number of trackers and the loop runs while it is above it: one
  round, for the last tracker.\<close>

definition read_torrent_trkrs_addendum :: "int \<Rightarrow> string \<Rightarrow> ('z, torrent_tracker list) action" where
  "read_torrent_trkrs_addendum num_trackers download_key =
     (if 0 < num_trackers then
        bindp (db_get (tracker_key download_key (nat num_trackers))) (\<lambda>(s, csv_tracker_data).
        if s \<noteq> DbOK then ret []
        else if csv_tracker_data \<noteq> [] \<and> CSV_MIN_PARSE_SIZE < length csv_tracker_data then
          bindp (open_checked csv_tracker_data tracker_headers tracker_headers) (\<lambda>rd.
          bindp (getp garbage_tracker) (\<lambda>item.
          bindp (csvp (csv_rows rd (replicate 3 []))) (\<lambda>rows.
          ret [fold (\<lambda>vs item. item\<lparr>tt_url := vs ! 0, tt_tier := atoi (vs ! 1),
                 tt_enabled := convertBool_fromInt (atoi (vs ! 2)),
                 tt_unique_id := download_key\<rparr>) rows item])))
        else ret [])
      else ret [])"

section \<open>The item operations\<close>

definition torrent_values :: "general_info \<Rightarrow> (string \<times> string) list" where
  "torrent_values g =
     [(KEY_TORRENT_INSERT_DATE, to_string_int (gi_insert_timestamp g)),
      (KEY_TORRENT_COMPLT_DATE, to_string_int (gi_complt_timestamp g)),
      (KEY_TORRENT_CREATN_DATE, to_string_int (gi_creatn_timestamp g)),
      (KEY_TORRENT_DLSTATUS, convDlStat_toString (gi_dlStatus g)),
      (KEY_TORRENT_COMMENT, gi_comment g),
      (KEY_TORRENT_CREATOR, gi_creator g),
      (KEY_TORRENT_MAGNET_URI, gi_magnet_uri g),
      (KEY_TORRENT_NAME, gi_torrent_name g),
      (KEY_TORRENT_NUM_FILES, to_string_int (gi_num_files g)),
      (KEY_TORRENT_NUM_TRACKERS, to_string_int (gi_num_trackers g)),
      (KEY_TORRENT_PIECES, to_string_int (gi_num_pieces g)),
      (KEY_TORRENT_PIECE_LENGTH, to_string_int (gi_piece_length g))]"

definition addTorrentItem :: "torrent_info \<Rightarrow> ('z, bool \<times> torrent_info) action" where
  "addTorrentItem gk_ti =
     (if gi_down_dest (ti_general gk_ti) \<noteq> [] then
        try_lock W_torrent
          (bindp (getp w_now) (\<lambda>now.
           let g = (ti_general gk_ti)\<lparr>gi_insert_timestamp := now\<rparr>;
               gk_ti = gk_ti\<lparr>ti_general := g\<rparr>
           in with_warning
                (bindp (add_download_id (gi_down_dest g) True (gi_unique_id g)) (\<lambda>download_key.
                 if gi_unique_id g \<noteq> download_key then
                   raise (Invalid_argument ''Unique ID mismatch while adding a BitTorrent item!'')
                 else
                   seqp (add_items download_key (torrent_values g))
                   (bindp (write_torrent_files_addendum (ti_files_vec gk_ti) download_key) (\<lambda>wtf_ret.
                    bindp (write_torrent_trkrs_addendum (ti_trackers gk_ti) download_key) (\<lambda>wtt_ret.
                    if \<not> wtf_ret \<or> \<not> wtt_ret then
                      seqp (show_box (Warning ''error with inserting the BitTorrent item'')) (ret (False, gk_ti))
                    else ret (True, gk_ti))))))
                (False, gk_ti)))
          (ret (False, gk_ti))
      else ret (False, gk_ti))"

definition decode_general :: "string \<Rightarrow> string \<Rightarrow> string list \<Rightarrow> general_info" where
  "decode_general i p ts =
     \<lparr>gi_unique_id = i, gi_down_dest = p, gi_insert_timestamp = atoll (ts ! 0),
      gi_complt_timestamp = atoll (ts ! 1), gi_creatn_timestamp = atol (ts ! 2),
      gi_dlStatus = convDlStat_IntToEnum (atoi (ts ! 3)), gi_comment = ts ! 4,
      gi_creator = ts ! 5, gi_magnet_uri = ts ! 6, gi_torrent_name = ts ! 7,
      gi_num_files = atoi (ts ! 8), gi_num_trackers = atoi (ts ! 9),
      gi_num_pieces = atoi (ts ! 10), gi_piece_length = atoi (ts ! 11)\<rparr>"

definition read_torrent_item :: "bool \<Rightarrow> string \<times> string \<times> bool \<Rightarrow> ('z, torrent_info) action" where
  "read_torrent_item minimal_readout entry =
     (case entry of (i, p, _) \<Rightarrow>
        bindp (collect (read_item_db i) torrent_item_keys) (\<lambda>ts.
        let gen_info = decode_general i p ts
        in bindp (if \<not> minimal_readout then
                    bindp (read_torrent_files_addendum (gi_num_files gen_info) i) (\<lambda>files.
                    if files \<noteq> [] then ret files
                    else raise (Invalid_argument ''Unable to interpret the internal file-layout''))
                  else ret []) (\<lambda>files.
           bindp (read_torrent_trkrs_addendum (gi_num_trackers gen_info) i) (\<lambda>trackers.
           if trackers \<noteq> [] then
             ret \<lparr>ti_general = gen_info, ti_resume_info = None, ti_nodes = [],
                  ti_trackers = trackers, ti_files_vec = files\<rparr>
           else raise (Invalid_argument ''Unable to determine the trackers'')))))"

definition readTorrentItems :: "bool \<Rightarrow> ('z, torrent_info list) action" where
  "readTorrentItems minimal_readout =
     with_warning
       (try_lock R_torrent
          (bindp (extract_download_ids True) (\<lambda>download_ids.
           if download_ids \<noteq> [] then
             collect (read_torrent_item minimal_readout) (filter (\<lambda>(i, p, t). t \<and> p \<noteq> []) download_ids)
           else ret []))
          (ret [])) []"

definition modifyTorrentItem :: "string \<Rightarrow> download_status \<Rightarrow> ('z, bool) action" where
  "modifyTorrentItem unique_id dl_status = (if unique_id \<noteq> [] then ret True else ret False)"

definition delTorrentItem :: "string \<Rightarrow> ('z, bool) action" where
  "delTorrentItem unique_id = ret False"

section \<open>Reading one header row and one data row\<close>

lemma getlines_two_rows:
  assumes "list_all clean_field hdrs" and "list_all clean_field fs" and "fs \<noteq> []"
  shows "getlines LF (two_rows hdrs fs) = [separated COMMA hdrs, separated COMMA fs]"
proof -
  have "separated COMMA fs \<noteq> []"
    using assms(2,3) by (cases fs; cases "tl fs") (auto simp: clean_field_def)
  then show ?thesis
    using clean_line [OF assms(1)] clean_line [OF assms(2)]
    by (simp add: two_rows_def csv_line_def getlines_piece getlines_last)
qed

lemma normalise_two_rows:
  assumes "list_all clean_field hdrs" and "list_all clean_field fs"
  shows "normalise_line_ends (two_rows hdrs fs) = Inr (two_rows hdrs fs)"
proof -
  have "CR \<notin> set (two_rows hdrs fs)"
    using clean_line [OF assms(1)] clean_line [OF assms(2)] by (simp add: two_rows_def csv_line_def)
  then have "\<not> contains [CR, LF] (two_rows hdrs fs)" using contains_set by fastforce
  then show ?thesis by (simp add: normalise_line_ends_def two_rows_def csv_line_def)
qed

lemma csv_open_raw:
  "csv_open key data hdrs st = (Ok rd, st') \<Longrightarrow> data \<noteq> [] \<Longrightarrow> cr_raw rd = data"
  by (auto simp: csv_open_def parse_csv_def read_rows_def Let_def split: sum.splits if_splits)

lemma snd_split_values: "snd ` set (split_values s) = set (getlines COMMA s)"
  unfolding split_values_def Let_def set_map [symmetric]
  by (simp only: map_snd_zip length_upt diff_Suc_1)

abbreviation fresh_csv :: csv_static where
  "fresh_csv \<equiv> \<lparr>st_rows_parsed = 0, st_ret_parsed_cols = 0, st_proc_cols = []\<rparr>"

lemma open_two_rows:
  assumes "list_all clean_field hdrs" and "list_all clean_field fs"
    and "fs \<noteq> []" and "hdrs \<noteq> []" and "set vital \<subseteq> set hdrs"
  obtains rd where "open_checked (two_rows hdrs fs) hdrs vital w = (Ok rd, w\<lparr>w_csv := fresh_csv\<rparr>)"
    and "cr_cols_count rd = length hdrs" and "reader_holds rd [fs]"
proof -
  have ne: "two_rows hdrs fs \<noteq> []" by (simp add: two_rows_def)
  note n = normalise_two_rows [OF assms(1,2)] and g = getlines_two_rows [OF assms(1-3)]
  obtain rd where o: "csv_open False (two_rows hdrs fs) hdrs (w_csv w) = (Ok rd, fresh_csv)"
    and c: "cr_cols_count rd = length hdrs" and h: "reader_holds rd [fs]"
    using csv_open_holds [OF ne n, of False hdrs "w_csv w"] fields_of_clean_line [OF assms(2,3)]
    by (auto simp: g)
  have key: "\<not> cr_key rd" "cr_raw rd = two_rows hdrs fs"
    using csv_open_headers [OF o ne] csv_open_raw [OF o ne] by simp_all
  have "has_column rd x = Inr True" if "x \<in> set hdrs" for x
    using key ne n g that fields_of_clean_line [OF assms(1,4)]
    by (simp add: has_column_def read_rows_def Let_def snd_split_values)
  then have "lacks_column rd vital = Inr False"
    using assms(5) by (induction vital) simp_all
  with o have "open_checked (two_rows hdrs fs) hdrs vital w = (Ok rd, w\<lparr>w_csv := fresh_csv\<rparr>)"
    by (simp add: open_checked_def csvp_def bindp_Ok)
  with that c h show ?thesis by blast
qed

lemma read_only_row:
  assumes "reader_holds rd [fs]" and "cr_cols_count rd = length fs" and "2 \<le> length fs"
    and "list_all clean_field fs" and "length vs = length fs"
    and "st_rows_parsed st = 0" and "fresh_rows st"
  shows "\<exists>st'. read_row rd vs st = (Ok (True, fs), st') \<and> st_ret_parsed_cols st' = 0 \<and> st_rows_parsed st' = 1"
proof -
  have ne: "filter (\<lambda>f. f \<noteq> []) fs = fs"
    using assms(4) by (auto simp: list_all_iff clean_field_def intro: filter_True)
  have fs: "fs \<noteq> []" using assms(3) by auto
  have c: "cr_cols_count rd \<le> length ([fs] ! st_rows_parsed st)" "st_rows_parsed st < length [fs]"
    using assms(2,6) by simp_all
  note t = texts_of_fields [OF assms(1,7) c(2,1)]
  have "length (alive rd st) = length fs"
    using arg_cong [OF t(1), of length] assms(2,6) ne by simp
  with read_row_complete [OF assms(1) _ _ _ assms(7) c(2,1), of vs] assms(2,3,5,6) fs ne
  show ?thesis by (auto simp: Let_def fresh_rows_def)
qed

section \<open>The files of a torrent come back\<close>

definition storable_file :: "torrent_file \<Rightarrow> bool" where
  "storable_file f \<longleftrightarrow> clean_field (tf_file_path f) \<and> clean_field (tf_sha1_hash_hex f) \<and>
     fits64 (tf_content_length f) \<and> fits64 (tf_file_offset f) \<and> 0 \<le> tf_mtime f \<and> tf_mtime f < 2 ^ 32 \<and>
     fits32 (tf_flags f) \<and> fits32 (fst (tf_map_file_piece f)) \<and> fits32 (snd (tf_map_file_piece f))"

lemma atoi_mtime:
  assumes "0 \<le> n" and "n < 2 ^ 32"
  shows "atoi (to_string_int n) mod 2 ^ 32 = n"
proof -
  have "fits64 n" using assms by (simp add: fits64_def int64_min_def int64_max_def)
  then have "atoi (to_string_int n) = signed_take_bit 31 n" by (simp add: atoi_def strtol64_to_string)
  then have "atoi (to_string_int n) mod 2 ^ 32 = take_bit 32 (signed_take_bit 31 n)"
    by (simp add: take_bit_eq_mod)
  also have "\<dots> = take_bit 32 n" by (simp add: take_bit_signed_take_bit)
  also have "\<dots> = n" using assms by (simp add: take_bit_int_eq_self)
  finally show ?thesis .
qed

lemma clean_headers [simp]:
  "list_all clean_field torrent_file_headers" "list_all clean_field mapflepce_headers"
  "list_all clean_field tracker_headers"
  by (simp_all add: torrent_file_headers_def mapflepce_headers_def tracker_headers_def clean_field_def)

lemma clean_key:
  "clean_field key \<Longrightarrow> clean_field (mapflepce_key key n)"
  by (simp add: clean_field_def mapflepce_key_def multipart_key_def csv_text)

lemma file_row_readback:
  assumes "storable_file f" and "clean_field key" and "healthy w"
    and "kv_get w mk = Some (two_rows mapflepce_headers (piece_fields f))" and "mk \<noteq> []"
  shows "\<exists>c. read_file_row key (file_fields mk f) item w = (Ok (f\<lparr>tf_unique_id := key\<rparr>), (db_tick w)\<lparr>w_csv := c\<rparr>) \<and>
    st_ret_parsed_cols c = 0 \<and> st_rows_parsed c = 1"
proof -
  have p: "list_all clean_field (piece_fields f)" "piece_fields f \<noteq> []" "length (piece_fields f) = 2"
    by (simp_all add: piece_fields_def)
  obtain rd where o: "open_checked (two_rows mapflepce_headers (piece_fields f)) mapflepce_headers
      mapflepce_headers (db_tick w) = (Ok rd, (db_tick w)\<lparr>w_csv := fresh_csv\<rparr>)"
    and rd: "cr_cols_count rd = length mapflepce_headers" "reader_holds rd [piece_fields f]"
    by (rule open_two_rows [OF clean_headers(2) p(1,2), of mapflepce_headers "db_tick w"])
      (simp_all add: mapflepce_headers_def)
  have l: "length mapflepce_headers = 2" by (simp add: mapflepce_headers_def)
  obtain c where c: "read_row rd [[], []] fresh_csv = (Ok (True, piece_fields f), c)"
    "st_ret_parsed_cols c = 0" "st_rows_parsed c = 1"
    using read_only_row [OF rd(2) _ _ p(1), of "[[], []]" fresh_csv] rd(1) p(3) l
    by (auto simp: fresh_rows_def)
  have key: "key \<noteq> []" using assms(2) by (simp add: clean_field_def)
  have b: "convertBool_fromInt (atoi (to_string_bool x)) = x" for x by (rule bool_text.dec_enc) simp
  have f: "tf_map_file_piece f = (fst (tf_map_file_piece f), snd (tf_map_file_piece f))" by simp
  have "read_file_row key (file_fields mk f) item w =
      (Ok (item\<lparr>tf_unique_id := key, tf_file_path := tf_file_path f,
          tf_content_length := tf_content_length f, tf_sha1_hash_hex := tf_sha1_hash_hex f,
          tf_file_offset := tf_file_offset f, tf_mtime := tf_mtime f,
          tf_downloaded := tf_downloaded f, tf_flags := tf_flags f,
          tf_map_file_piece := tf_map_file_piece f\<rparr>), (db_tick w)\<lparr>w_csv := c\<rparr>)"
    using assms(1,3,4,5) key o c(1)
    by (simp add: read_file_row_def file_fields_def piece_fields_def db_get_up prog_simps csvp_def
        storable_file_def atoi_mtime b Let_def del: power_numeral)
  moreover have "item\<lparr>tf_unique_id := key, tf_file_path := tf_file_path f,
          tf_content_length := tf_content_length f, tf_sha1_hash_hex := tf_sha1_hash_hex f,
          tf_file_offset := tf_file_offset f, tf_mtime := tf_mtime f,
          tf_downloaded := tf_downloaded f, tf_flags := tf_flags f,
          tf_map_file_piece := tf_map_file_piece f\<rparr> = f\<lparr>tf_unique_id := key\<rparr>"
    by (cases f; cases item) simp
  ultimately show ?thesis using c by (intro exI [of _ c]) simp
qed

lemma file_rows_readback:
  assumes "storable_file f" and "clean_field key" and "healthy w" and "clean_field mk"
    and "kv_get w mk = Some (two_rows mapflepce_headers (piece_fields f))"
    and "reader_holds rd [file_fields mk f]" and "cr_cols_count rd = 8" and "w_csv w = fresh_csv"
  shows "\<exists>w'. loopp (file_rows_step rd key) (replicate 8 [], item, acc) w =
      (Ok (acc @ [f\<lparr>tf_unique_id := key\<rparr>]), w') \<and> same_world w w'"
proof -
  have len: "length (file_fields mk f) = 8" by (simp add: file_fields_def)
  have clean: "list_all clean_field (file_fields mk f)"
    using assms(1,4) by (simp add: file_fields_def storable_file_def to_string_bool_def)
  obtain st1 where r1: "read_row rd (replicate 8 []) fresh_csv = (Ok (True, file_fields mk f), st1)"
    using read_only_row [OF assms(6) _ _ clean, of "replicate 8 []" fresh_csv] assms(7) len
    by (auto simp: fresh_rows_def)
  have h: "healthy (w\<lparr>w_csv := st1\<rparr>)"
    "kv_get (w\<lparr>w_csv := st1\<rparr>) mk = Some (two_rows mapflepce_headers (piece_fields f))"
    using assms(3,5) by simp_all
  have "mk \<noteq> []" using assms(4) by (simp add: clean_field_def)
  from file_row_readback [OF assms(1,2) h this, of item] obtain c
    where b: "read_file_row key (file_fields mk f) item (w\<lparr>w_csv := st1\<rparr>) =
        (Ok (f\<lparr>tf_unique_id := key\<rparr>), (db_tick (w\<lparr>w_csv := st1\<rparr>))\<lparr>w_csv := c\<rparr>)"
      and c: "st_ret_parsed_cols c = 0" "st_rows_parsed c = 1" by blast
  define w2 where "w2 = (db_tick (w\<lparr>w_csv := st1\<rparr>))\<lparr>w_csv := c\<rparr>"
  have s1: "file_rows_step rd key (replicate 8 [], item, acc) w =
      (Ok (Inl (file_fields mk f, f\<lparr>tf_unique_id := key\<rparr>, acc @ [f\<lparr>tf_unique_id := key\<rparr>])), w2)"
    using r1 b assms(8) by (simp add: file_rows_step_def csvp_def prog_simps w2_def)
  have "file_fields mk f \<noteq> []" using len by auto
  from read_row_past [OF assms(6) _ this c(1)] c(2) assms(7) obtain st3
    where "read_row rd (file_fields mk f) c = (Ok (False, file_fields mk f), st3)" by auto
  then have s2: "file_rows_step rd key (file_fields mk f, f\<lparr>tf_unique_id := key\<rparr>,
        acc @ [f\<lparr>tf_unique_id := key\<rparr>]) w2 =
      (Ok (Inr (acc @ [f\<lparr>tf_unique_id := key\<rparr>])), w2\<lparr>w_csv := st3\<rparr>)"
    by (simp add: file_rows_step_def csvp_def prog_simps w2_def)
  have "loopp (file_rows_step rd key) (replicate 8 [], item, acc) w =
      (Ok (acc @ [f\<lparr>tf_unique_id := key\<rparr>]), w2\<lparr>w_csv := st3\<rparr>)"
    by (rule loopp_next [where step = "file_rows_step rd key", OF s1])
      (simp_all add: loopp_done [where step = "file_rows_step rd key", OF s2])
  then show ?thesis by (simp add: w2_def)
qed

text \<open>The database holds the files of a torrent from number \<open>counter + 1\<close> on.\<close>

definition holds_files :: "'z world_scheme \<Rightarrow> string \<Rightarrow> nat \<Rightarrow> torrent_file list \<Rightarrow> bool" where
  "holds_files w key counter fs \<longleftrightarrow> (\<forall>j < length fs.
     kv_get w (file_key key (Suc (counter + j))) =
       Some (two_rows torrent_file_headers (file_fields (mapflepce_key key (Suc (counter + j))) (fs ! j))) \<and>
     kv_get w (mapflepce_key key (Suc (counter + j))) =
       Some (two_rows mapflepce_headers (piece_fields (fs ! j))))"

lemma holds_files_Cons:
  "holds_files w key counter (f # fs) \<longleftrightarrow>
     kv_get w (file_key key (Suc counter)) =
       Some (two_rows torrent_file_headers (file_fields (mapflepce_key key (Suc counter)) f)) \<and>
     kv_get w (mapflepce_key key (Suc counter)) = Some (two_rows mapflepce_headers (piece_fields f)) \<and>
     holds_files w key (Suc counter) fs"
  unfolding holds_files_def by (simp add: All_less_Suc2)

lemma holds_files_same: "same_world w w' \<Longrightarrow> holds_files w' key counter fs = holds_files w key counter fs"
  by (simp add: holds_files_def same_worldD)

lemma two_rows_long: "CSV_MIN_PARSE_SIZE < length (two_rows torrent_file_headers fs)"
  by (simp add: two_rows_def csv_line_def torrent_file_headers_def CSV_MIN_PARSE_SIZE_def)

lemma two_rows_nonempty: "two_rows hdrs fs \<noteq> []"
  by (simp add: two_rows_def)

lemma same_world_trans: "same_world w w' \<Longrightarrow> same_world w' w'' \<Longrightarrow> same_world w w''"
  unfolding same_world_def using env.trans by (metis transpD)

lemma read_files_readback:
  assumes "list_all storable_file fs" and "clean_field key" and "healthy w" and "holds_files w key counter fs"
  shows "\<exists>w'. read_files_from (length fs) counter key acc w =
    (Ok (acc @ map (\<lambda>f. f\<lparr>tf_unique_id := key\<rparr>) fs), w') \<and> same_world w w'"
  using assms
proof (induction fs arbitrary: counter acc w)
  case (Cons f fs)
  define mk where "mk = mapflepce_key key (Suc counter)"
  have f: "storable_file f" using Cons.prems(1) by simp
  have mk: "clean_field mk" using clean_key [OF assms(2)] by (simp add: mk_def)
  note kv = Cons.prems(4) [unfolded holds_files_Cons, folded mk_def]
  have clean: "list_all clean_field (file_fields mk f)" "file_fields mk f \<noteq> []"
    using f mk by (simp_all add: file_fields_def storable_file_def to_string_bool_def)
  obtain rd where o: "open_checked (two_rows torrent_file_headers (file_fields mk f)) torrent_file_headers
      [''file-path'', ''content-length'', ''file-offset'', ''downloaded-bool''] (db_tick w) =
      (Ok rd, (db_tick w)\<lparr>w_csv := fresh_csv\<rparr>)"
    and rd: "cr_cols_count rd = length torrent_file_headers" "reader_holds rd [file_fields mk f]"
    by (rule open_two_rows [OF clean_headers(1) clean, of "[''file-path'', ''content-length'', ''file-offset'',
      ''downloaded-bool'']" "db_tick w"]) (simp_all add: torrent_file_headers_def)
  define w1 where "w1 = (db_tick w)\<lparr>w_csv := fresh_csv\<rparr>"
  have w1: "healthy w1" "kv_get w1 mk = Some (two_rows mapflepce_headers (piece_fields f))" "w_csv w1 = fresh_csv"
    "same_world w w1"
    using Cons.prems(3) kv by (simp_all add: w1_def)
  have c8: "cr_cols_count rd = 8" using rd(1) by (simp add: torrent_file_headers_def)
  obtain w2 where l: "loopp (file_rows_step rd key) (replicate 8 [], garbage_file w1, acc) w1 =
      (Ok (acc @ [f\<lparr>tf_unique_id := key\<rparr>]), w2)" and w2: "same_world w1 w2"
    using file_rows_readback [OF f assms(2) w1(1) mk w1(2) rd(2) c8 w1(3)] by blast
  have s: "same_world w w2" using w1(4) w2 by (rule same_world_trans)
  have "healthy w2" "holds_files w2 key (Suc counter) fs"
    using same_worldD(2) [OF s] holds_files_same [OF s] kv Cons.prems(3) by simp_all
  with Cons.IH [of w2 "Suc counter" "acc @ [f\<lparr>tf_unique_id := key\<rparr>]"] Cons.prems(1) assms(2)
  obtain w3 where w3: "read_files_from (length fs) (Suc counter) key (acc @ [f\<lparr>tf_unique_id := key\<rparr>]) w2 =
      (Ok ((acc @ [f\<lparr>tf_unique_id := key\<rparr>]) @ map (\<lambda>f. f\<lparr>tf_unique_id := key\<rparr>) fs), w3)"
    and s3: "same_world w2 w3" by auto
  have g: "db_get (file_key key (Suc counter)) w =
      (Ok (DbOK, two_rows torrent_file_headers (file_fields mk f)), db_tick w)"
    using kv Cons.prems(3) by (simp add: db_get_up)
  have "read_files_from (length (f # fs)) counter key acc w =
      (Ok (acc @ map (\<lambda>f. f\<lparr>tf_unique_id := key\<rparr>) (f # fs)), w3)"
    using g o l w3 two_rows_long [of "file_fields mk f"]
    by (simp add: bindp_Ok Let_def w1_def [symmetric] two_rows_nonempty)
  then show ?case using same_world_trans [OF s s3] by blast
qed simp

lemma to_string_nat_inject: "to_string_int (int m) = to_string_int (int n) \<longleftrightarrow> m = n"
  by (simp add: to_string_int_def)

lemma addendum_keys:
  "file_key key m = file_key key n \<longleftrightarrow> m = n"
  "mapflepce_key key m = mapflepce_key key n \<longleftrightarrow> m = n"
  "tracker_key key m = tracker_key key n \<longleftrightarrow> m = n"
  "file_key key m \<noteq> mapflepce_key key n" "mapflepce_key key n \<noteq> file_key key m"
  by (simp_all add: file_key_def mapflepce_key_def tracker_key_def multipart_key_def to_string_nat_inject)

lemma write_files_holds:
  "healthy w \<Longrightarrow> \<exists>w'. write_files_from counter fs key w = (Ok True, w') \<and> holds_files w' key counter fs \<and>
     healthy w' \<and> (\<forall>k. (\<forall>m > counter. k \<noteq> file_key key m \<and> k \<noteq> mapflepce_key key m) \<longrightarrow> kv_get w' k = kv_get w k)"
proof (induction fs arbitrary: counter w)
  case Nil
  then show ?case by (simp add: holds_files_def)
next
  case (Cons f fs)
  define fk where "fk = file_key key (Suc counter)"
  define mk where "mk = mapflepce_key key (Suc counter)"
  define w1 where "w1 = db_tick (kv_put mk (two_rows mapflepce_headers (piece_fields f))
    (kv_put fk (two_rows torrent_file_headers (file_fields mk f)) (kv_del mk (kv_del fk w))))"
  have "fk \<noteq> mk" by (simp add: fk_def mk_def addendum_keys)
  then have g: "kv_get w1 fk = Some (two_rows torrent_file_headers (file_fields mk f))"
    "kv_get w1 mk = Some (two_rows mapflepce_headers (piece_fields f))"
    "\<And>k. k \<noteq> fk \<Longrightarrow> k \<noteq> mk \<Longrightarrow> kv_get w1 k = kv_get w k"
    by (simp_all add: w1_def kv.get_put kv.get_del)
  have "healthy w1" using Cons.prems by (simp add: w1_def)
  from Cons.IH [OF this, of "Suc counter"] obtain w2 where
    w2: "write_files_from (Suc counter) fs key w1 = (Ok True, w2)" "holds_files w2 key (Suc counter) fs"
      "healthy w2"
    and keep: "\<And>k. (\<And>m. Suc counter < m \<Longrightarrow> k \<noteq> file_key key m \<and> k \<noteq> mapflepce_key key m) \<Longrightarrow>
      kv_get w2 k = kv_get w1 k" by blast
  have "write_files_from counter (f # fs) key w = (Ok True, w2)"
    using w2(1) Cons.prems
    by (simp add: Let_def db_write_def bindp_Ok w1_def mk_def fk_def)
  moreover have "holds_files w2 key counter (f # fs)"
    using keep [of fk] keep [of mk] g(1,2) w2(2)
    by (simp add: holds_files_Cons fk_def mk_def addendum_keys)
  moreover have "kv_get w2 k = kv_get w k"
    if "\<forall>m > counter. k \<noteq> file_key key m \<and> k \<noteq> mapflepce_key key m" for k
    using that keep [of k] g(3) [of k] by (simp add: fk_def mk_def)
  ultimately show ?case using w2(3) by blast
qed

lemma write_read_files:
  assumes "list_all storable_file fs" and "fs \<noteq> []" and "clean_field key" and "healthy w"
  shows "\<exists>w1 w2. write_torrent_files_addendum fs key w = (Ok True, w1) \<and>
    read_torrent_files_addendum (int (length fs)) key w1 = (Ok (map (\<lambda>f. f\<lparr>tf_unique_id := key\<rparr>) fs), w2)"
proof -
  obtain w1 where w1: "write_files_from 0 fs key w = (Ok True, w1)" "holds_files w1 key 0 fs" "healthy w1"
    using write_files_holds [OF assms(4)] by blast
  obtain w2 where "read_files_from (length fs) 0 key [] w1 = (Ok (map (\<lambda>f. f\<lparr>tf_unique_id := key\<rparr>) fs), w2)"
    using read_files_readback [OF assms(1,3) w1(3,2), of "[]"] by auto
  with w1(1) assms(2) show ?thesis
    by (simp add: write_torrent_files_addendum_def read_torrent_files_addendum_def)
qed

section \<open>The trackers of a torrent\<close>

definition storable_tracker :: "torrent_tracker \<Rightarrow> bool" where
  "storable_tracker t \<longleftrightarrow> clean_field (tt_url t) \<and> fits32 (tt_tier t)"

lemma write_trackers_last:
  "healthy w \<Longrightarrow> ts \<noteq> [] \<Longrightarrow> \<exists>w'. write_trackers_from counter ts key w = (Ok True, w') \<and> healthy w' \<and>
     kv_get w' (tracker_key key (counter + length ts)) = Some (two_rows tracker_headers (tracker_fields (last ts))) \<and>
     (\<forall>k. (\<forall>m > counter. k \<noteq> tracker_key key m) \<longrightarrow> kv_get w' k = kv_get w k)"
proof (induction ts arbitrary: counter w)
  case (Cons t ts)
  define w1 where "w1 = db_tick (kv_put (tracker_key key (Suc counter)) (two_rows tracker_headers (tracker_fields t)) w)"
  have w1: "healthy w1" using Cons.prems by (simp add: w1_def)
  have run: "write_trackers_from counter (t # ts) key w = write_trackers_from (Suc counter) ts key w1"
    using Cons.prems by (simp add: Let_def db_write_def bindp_Ok w1_def)
  have keep: "kv_get w1 k = kv_get w k" if "\<forall>m > counter. k \<noteq> tracker_key key m" for k
    using that by (simp add: w1_def kv.get_put)
  show ?case
  proof (cases "ts = []")
    case True
    with run w1 keep show ?thesis by (simp add: w1_def kv.get_put)
  next
    case False
    with Cons.IH [OF w1, of "Suc counter"] run keep show ?thesis by auto
  qed
qed simp

lemma read_last_tracker:
  assumes "storable_tracker t" and "healthy w" and "0 < n"
    and "kv_get w (tracker_key key n) = Some (two_rows tracker_headers (tracker_fields t))"
  shows "\<exists>w'. read_torrent_trkrs_addendum (int n) key w = (Ok [t\<lparr>tt_unique_id := key\<rparr>], w')"
proof -
  have p: "list_all clean_field (tracker_fields t)" "tracker_fields t \<noteq> []" "length (tracker_fields t) = 3"
    using assms(1) by (simp_all add: tracker_fields_def storable_tracker_def to_string_bool_def)
  obtain rd where o: "open_checked (two_rows tracker_headers (tracker_fields t)) tracker_headers
      tracker_headers (db_tick w) = (Ok rd, (db_tick w)\<lparr>w_csv := fresh_csv\<rparr>)"
    and rd: "cr_cols_count rd = length tracker_headers" "reader_holds rd [tracker_fields t]"
    by (rule open_two_rows [OF clean_headers(3) p(1,2), of tracker_headers "db_tick w"])
      (simp_all add: tracker_headers_def)
  have c3: "cr_cols_count rd = 3" using rd(1) by (simp add: tracker_headers_def)
  have "clean_rows 3 [tracker_fields t]" using p by simp
  then have "fst (csv_rows rd (replicate 3 []) fresh_csv) = Ok [tracker_fields t]"
    using csv_rows_spec [OF rd(2), of "replicate 3 []" fresh_csv] c3 p
      csv_spec_clean [of 3 "[tracker_fields t]" "replicate 3 []"]
    by (simp add: fresh_rows_def)
  then obtain c where "csv_rows rd (replicate 3 []) fresh_csv = (Ok [tracker_fields t], c)"
    by (metis prod.collapse)
  moreover have "CSV_MIN_PARSE_SIZE < length (two_rows tracker_headers (tracker_fields t))"
    by (simp add: two_rows_def csv_line_def tracker_headers_def CSV_MIN_PARSE_SIZE_def)
  moreover have "convertBool_fromInt (atoi (to_string_bool x)) = x" for x
    by (rule bool_text.dec_enc) simp
  moreover have "garbage_tracker w'\<lparr>tt_url := tt_url t, tt_tier := tt_tier t, tt_enabled := tt_enabled t,
      tt_unique_id := key\<rparr> = t\<lparr>tt_unique_id := key\<rparr>" for w' :: "'a world_scheme"
    by (cases t) (simp add: garbage_tracker_def)
  ultimately show ?thesis
    using o assms
    by (simp add: read_torrent_trkrs_addendum_def db_get_up bindp_Ok csvp_def two_rows_nonempty
        tracker_fields_def storable_tracker_def)
qed

lemma env_addenda [env_keeps]:
  "preserves same_env (write_files_from counter fs key)"
  "preserves same_env (write_trackers_from counter ts key)"
proof -
  show "preserves same_env (write_files_from counter fs key)"
    by (induction fs arbitrary: counter) (simp_all add: env_keeps env.keeps Let_def)
  show "preserves same_env (write_trackers_from counter ts key)"
    by (induction ts arbitrary: counter) (simp_all add: env_keeps env.keeps Let_def)
qed

section \<open>A whole torrent, stored and read\<close>

definition storable_general :: "general_info \<Rightarrow> bool" where
  "storable_general g \<longleftrightarrow> fits64 (gi_insert_timestamp g) \<and> fits64 (gi_complt_timestamp g) \<and>
     fits64 (gi_creatn_timestamp g) \<and> fits32 (gi_num_files g) \<and> fits32 (gi_num_trackers g) \<and>
     fits32 (gi_num_pieces g) \<and> fits32 (gi_piece_length g)"

text \<open>The status is written as its name and read as a number: it is always read as the status with
  number 0.\<close>

lemma status_text_is_zero: "atoi (convDlStat_toString s) = 0"
  by (cases s) (simp_all add: atoi_def strtol64_def signed_digits_def is_space_def is_digit_def
      clamp64_def int64_min_def int64_max_def)

lemma decode_torrent_values:
  "storable_general g \<Longrightarrow> decode_general (gi_unique_id g) (gi_down_dest g) (map snd (torrent_values g)) =
     g\<lparr>gi_dlStatus := Downloading\<rparr>"
  by (cases g) (simp add: decode_general_def torrent_values_def storable_general_def status_text_is_zero
      convDlStat_IntToEnum_def)

lemma keys_of_torrent_values: "map fst (torrent_values g) = torrent_item_keys"
  by (simp add: torrent_values_def torrent_item_keys_def)

lemma addendum_not_item:
  assumes "UNDERSCORE \<notin> set k"
  shows "multipart_key [i, k] \<noteq> file_key i m" and "multipart_key [i, k] \<noteq> mapflepce_key i m"
    and "multipart_key [i, k] \<noteq> tracker_key i m"
  using assms by (auto simp: file_key_def mapflepce_key_def tracker_key_def multipart_key_def)

lemma addendum_not_registry:
  "STORE_UNIQUE_ID \<noteq> file_key i m" "STORE_UNIQUE_ID \<noteq> mapflepce_key i m" "STORE_UNIQUE_ID \<noteq> tracker_key i m"
proof -
  have "UNDERSCORE \<notin> set STORE_UNIQUE_ID" by (simp add: STORE_UNIQUE_ID_def)
  moreover have "UNDERSCORE \<in> set (file_key i m)" "UNDERSCORE \<in> set (mapflepce_key i m)"
    "UNDERSCORE \<in> set (tracker_key i m)"
    by (simp_all add: file_key_def mapflepce_key_def tracker_key_def multipart_key_def)
  ultimately show "STORE_UNIQUE_ID \<noteq> file_key i m" "STORE_UNIQUE_ID \<noteq> mapflepce_key i m"
    "STORE_UNIQUE_ID \<noteq> tracker_key i m" by metis+
qed

lemma tracker_not_file:
  "file_key i n \<noteq> tracker_key i m" "mapflepce_key i n \<noteq> tracker_key i m"
  by (simp_all add: file_key_def mapflepce_key_def tracker_key_def multipart_key_def)

text \<open>The database holds one torrent.\<close>

definition holds_torrent :: "'z world_scheme \<Rightarrow> string \<Rightarrow> torrent_info \<Rightarrow> bool" where
  "holds_torrent w i ti \<longleftrightarrow>
     (\<forall>k \<in> set torrent_item_keys. item_get w i k = map_of (torrent_values (ti_general ti)) k) \<and>
     holds_files w i 0 (ti_files_vec ti) \<and>
     kv_get w (tracker_key i (length (ti_trackers ti))) =
       Some (two_rows tracker_headers (tracker_fields (last (ti_trackers ti))))"

definition storable_torrent :: "torrent_info \<Rightarrow> bool" where
  "storable_torrent ti \<longleftrightarrow> storable_general (ti_general ti) \<and>
     list_all storable_file (ti_files_vec ti) \<and> ti_files_vec ti \<noteq> [] \<and>
     ti_trackers ti \<noteq> [] \<and> storable_tracker (last (ti_trackers ti)) \<and>
     gi_num_files (ti_general ti) = int (length (ti_files_vec ti)) \<and>
     gi_num_trackers (ti_general ti) = int (length (ti_trackers ti))"

definition torrent_readback :: "torrent_info \<Rightarrow> torrent_info" where
  "torrent_readback ti =
     (let i = gi_unique_id (ti_general ti)
      in \<lparr>ti_general = (ti_general ti)\<lparr>gi_dlStatus := Downloading\<rparr>, ti_resume_info = None, ti_nodes = [],
          ti_trackers = [(last (ti_trackers ti))\<lparr>tt_unique_id := i\<rparr>],
          ti_files_vec = map (\<lambda>f. f\<lparr>tf_unique_id := i\<rparr>) (ti_files_vec ti)\<rparr>)"

lemma read_torrent_item_run:
  assumes "holds_torrent w i ti" and "storable_torrent ti" and "healthy w" and "clean_field i"
    and "gi_unique_id (ti_general ti) = i" and "gi_down_dest (ti_general ti) = p" and "same_world w u"
  shows "\<exists>u'. read_torrent_item False (i, p, t) u = (Ok (torrent_readback ti), u')"
proof -
  let ?g = "ti_general ti"
  have d: "distinct (map fst (torrent_values ?g))" by (simp add: keys_of_torrent_values)
  have step: "\<exists>v'. read_item_db i k v = (Ok (the (map_of (torrent_values ?g) k)), v') \<and> same_world w v'"
    if k: "k \<in> set torrent_item_keys" and v: "same_world w v" for k v
  proof -
    have "map_of (torrent_values ?g) k \<noteq> None"
      using k unfolding keys_of_torrent_values [of ?g, symmetric] by (simp add: map_of_eq_None_iff)
    moreover have "item_get v i k = map_of (torrent_values ?g) k"
      using assms(1) k same_world_item [OF v, of i k] by (simp add: holds_torrent_def)
    moreover have "healthy v" using same_worldD(2) [OF v] assms(3) by simp
    ultimately show ?thesis using v by (auto simp: read_item_run item_get_def)
  qed
  have vals: "map (\<lambda>k. the (map_of (torrent_values ?g) k)) torrent_item_keys = map snd (torrent_values ?g)"
    unfolding keys_of_torrent_values [of ?g, symmetric]
    using d by (auto simp: o_def map_of_eq_Some_iff intro!: map_cong)
  from collect_quiet [of torrent_item_keys w "read_item_db i", OF step assms(7)] obtain u1
    where u1: "collect (read_item_db i) torrent_item_keys u = (Ok (map snd (torrent_values ?g)), u1)"
      and s1: "same_world w u1" unfolding vals by blast
  have dec: "decode_general i p (map snd (torrent_values ?g)) = ?g\<lparr>gi_dlStatus := Downloading\<rparr>"
    using decode_torrent_values [of ?g] assms(2,5,6) by (simp add: storable_torrent_def)
  have "list_all storable_file (ti_files_vec ti)" "holds_files u1 i 0 (ti_files_vec ti)" "healthy u1"
    using assms(1,2,3) holds_files_same [OF s1] same_worldD(2) [OF s1]
    by (simp_all add: storable_torrent_def holds_torrent_def)
  from read_files_readback [OF this(1) assms(4) this(3,2), of "[]"] obtain u2
    where u2: "read_files_from (length (ti_files_vec ti)) 0 i [] u1 =
        (Ok (map (\<lambda>f. f\<lparr>tf_unique_id := i\<rparr>) (ti_files_vec ti)), u2)" and s2: "same_world u1 u2" by auto
  have s: "same_world w u2" using s1 s2 by (rule same_world_trans)
  have "\<exists>u3. read_torrent_trkrs_addendum (int (length (ti_trackers ti))) i u2 =
      (Ok [(last (ti_trackers ti))\<lparr>tt_unique_id := i\<rparr>], u3)"
    using assms(1,2,3) same_worldD(2,6) [OF s]
    by (intro read_last_tracker) (simp_all add: storable_torrent_def holds_torrent_def)
  then show ?thesis
    using u1 u2 dec assms(2,5)
    by (auto simp: read_torrent_item_def bindp_Ok Let_def storable_torrent_def torrent_readback_def
        read_torrent_files_addendum_def)
qed

definition stamp_torrent :: "int \<Rightarrow> torrent_info \<Rightarrow> torrent_info" where
  "stamp_torrent now ti = ti\<lparr>ti_general := (ti_general ti)\<lparr>gi_insert_timestamp := now\<rparr>\<rparr>"

lemma stamp_torrent_simps [simp]:
  "ti_files_vec (stamp_torrent now ti) = ti_files_vec ti"
  "ti_trackers (stamp_torrent now ti) = ti_trackers ti"
  "ti_general (stamp_torrent now ti) = (ti_general ti)\<lparr>gi_insert_timestamp := now\<rparr>"
  by (simp_all add: stamp_torrent_def)

lemma torrent_keys_clean: "k \<in> set torrent_item_keys \<Longrightarrow> UNDERSCORE \<notin> set k"
  by (rule item_keys_clean)

lemma add_torrent_holds:
  assumes "registered w es" and "healthy w" and "\<not> w_held w W_torrent"
    and "valid_entry (i, p, True)" and "UNDERSCORE \<notin> set i"
    and "gi_unique_id (ti_general ti) = i" and "gi_down_dest (ti_general ti) = p"
    and "ti_files_vec ti \<noteq> []" and "ti_trackers ti \<noteq> []"
  shows "\<exists>w'. addTorrentItem ti w = (Ok (True, stamp_torrent (w_now w) ti), w') \<and>
    registered w' (es @ [(i, p, True)]) \<and> holds_torrent w' i (stamp_torrent (w_now w) ti) \<and> same_env w w'"
proof -
  define ti' where "ti' = stamp_torrent (w_now w) ti"
  define g where "g = ti_general ti'"
  have ne: "i \<noteq> []" "p \<noteq> []" using assms(4) by (auto simp: valid_entry_def clean_field_def)
  have g: "gi_unique_id g = i" "gi_down_dest g = p" by (simp_all add: g_def ti'_def assms(6,7))
  from add_registered [OF assms(1,2) ne(1) assms(4)] obtain w1 where
    w1: "add_download_id p True i w = (Ok i, w1)" "registered w1 (es @ [(i, p, True)])" "healthy w1" by blast
  obtain w2 where w2: "add_items i (torrent_values g) w1 = (Ok (), w2)"
    "registry_text w2 = registry_text w1" "same_env w1 w2"
    and get: "\<And>j k. UNDERSCORE \<notin> set j \<Longrightarrow> item_get w2 j k =
      (if j = i then case map_of (rev (torrent_values g)) k of Some v \<Rightarrow> Some v | None \<Rightarrow> item_get w1 j k
       else item_get w1 j k)"
    using add_items_healthy [OF w1(3) assms(5)] by blast
  have "healthy w2" using same_envD(1) [OF w2(3)] w1(3) by simp
  from write_files_holds [OF this, of 0 "ti_files_vec ti" i] obtain w3 where
    w3: "write_files_from 0 (ti_files_vec ti) i w2 = (Ok True, w3)" "holds_files w3 i 0 (ti_files_vec ti)" "healthy w3"
    and k3: "\<And>k. (\<And>m. 0 < m \<Longrightarrow> k \<noteq> file_key i m \<and> k \<noteq> mapflepce_key i m) \<Longrightarrow> kv_get w3 k = kv_get w2 k" by blast
  from write_trackers_last [OF w3(3) assms(9), of 0 i] obtain w4 where
    w4: "write_trackers_from 0 (ti_trackers ti) i w3 = (Ok True, w4)"
      "kv_get w4 (tracker_key i (length (ti_trackers ti))) = Some (two_rows tracker_headers (tracker_fields (last (ti_trackers ti))))"
    and k4: "\<And>k. (\<And>m. 0 < m \<Longrightarrow> k \<noteq> tracker_key i m) \<Longrightarrow> kv_get w4 k = kv_get w3 k" by auto
  have run: "addTorrentItem ti w = (Ok (True, ti'), w4)"
    using w1(1) w2(1) w3(1) w4(1) assms(3,8) g ne assms(6,7)
    by (simp add: addTorrentItem_def try_lock_free Let_def prog_simps stamp_torrent_def [symmetric]
        ti'_def [symmetric] g_def [unfolded ti'_def, simplified, symmetric]
        write_torrent_files_addendum_def write_torrent_trkrs_addendum_def)
      (simp add: ti'_def g_def stamp_torrent_def)
  have files: "holds_files w4 i 0 (ti_files_vec ti)"
    using w3(2) k4 tracker_not_file by (simp add: holds_files_def)
  have items: "item_get w4 i k = map_of (torrent_values g) k" if "k \<in> set torrent_item_keys" for k
  proof -
    note u = addendum_not_item [OF torrent_keys_clean [OF that]]
    have "item_get w4 i k = item_get w2 i k"
      using k4 [of "multipart_key [i, k]"] k3 [of "multipart_key [i, k]"] u by (simp add: item_get_def)
    moreover have "map_of (torrent_values g) k \<noteq> None"
      using that unfolding keys_of_torrent_values [of g, symmetric] by (simp add: map_of_eq_None_iff)
    moreover have "map_of (rev (torrent_values g)) = map_of (torrent_values g)"
      by (rule map_of_rev_values) (simp add: keys_of_torrent_values)
    ultimately show ?thesis using get [OF assms(5), of k] by auto
  qed
  have "registry_text w4 = registry_text w1"
    using k4 [of STORE_UNIQUE_ID] k3 [of STORE_UNIQUE_ID] addendum_not_registry [of i] w2(2)
    by (simp add: registry_text_def)
  then have "registered w4 (es @ [(i, p, True)])" using w1(2) by (simp add: registered_def)
  moreover have "holds_torrent w4 i ti'"
    using items files w4(2) by (simp add: holds_torrent_def g_def ti'_def)
  moreover have "same_env w w4"
  proof -
    have "same_env w w1" using env_registry(2) w1(1) by (metis preservesD)
    moreover have "same_env w2 w3" using env_addenda(1) w3(1) by (metis preservesD)
    moreover have "same_env w3 w4" using env_addenda(2) w4(1) by (metis preservesD)
    ultimately show ?thesis using w2(3) env.trans by (meson transpD)
  qed
  ultimately show ?thesis using run unfolding ti'_def by blast
qed

lemma read_one_torrent:
  assumes "registered w es" and "distinct (map fst es)" and "filter (\<lambda>(i, p, t). t) es = [(i, p, True)]"
    and "healthy w" and "fair_order w" and "\<not> w_held w R_torrent"
    and "holds_torrent w i ti" and "storable_torrent ti"
    and "gi_unique_id (ti_general ti) = i" and "gi_down_dest (ti_general ti) = p"
  shows "\<exists>w'. readTorrentItems False w = (Ok [torrent_readback ti], w')"
proof -
  obtain ids w1 where x: "extract_download_ids True w = (Ok ids, w1)" and same: "same_world w w1"
    and ids: "mset ids = mset (filter (\<lambda>(i, p, t). t = True) es)"
    using extract_registered [OF assms(1,4,5,2)] by blast
  then have ids: "ids = [(i, p, True)]" using assms(3) by simp
  have "(i, p, True) \<in> set (filter (\<lambda>(i, p, t). t) es)" using assms(3) by simp
  then have "valid_entry (i, p, True)" using assms(1) by (auto simp: registered_def list_all_iff)
  then have v: "clean_field i" "p \<noteq> []" by (simp_all add: valid_entry_def clean_field_def)
  from read_torrent_item_run [OF assms(7,8,4) v(1) assms(9,10) same] obtain w2
    where "read_torrent_item False (i, p, True) w1 = (Ok (torrent_readback ti), w2)" by blast
  then show ?thesis using x ids assms(6) v(2)
    by (simp add: readTorrentItems_def try_lock_free prog_simps)
qed

section \<open>Properties\<close>

definition sample_file :: torrent_file where
  "sample_file =
     \<lparr>tf_unique_id = [], tf_file_path = ''disc/a.iso'', tf_sha1_hash_hex = ''0a1b'', tf_flags = 0,
      tf_content_length = 4096, tf_file_offset = 0, tf_mtime = 3000000000,
      tf_map_file_piece = (0, 3), tf_downloaded = False\<rparr>"

definition sample_tracker :: "string \<Rightarrow> torrent_tracker" where
  "sample_tracker url = \<lparr>tt_unique_id = [], tt_tier = 1, tt_url = url, tt_enabled = True\<rparr>"

definition sample_torrent :: torrent_info where
  "sample_torrent =
     \<lparr>ti_general = \<lparr>gi_unique_id = ''0123456789'', gi_down_dest = ''/home/u/disc'', gi_insert_timestamp = 0,
        gi_complt_timestamp = 0, gi_creatn_timestamp = 5, gi_dlStatus = Stopped, gi_comment = [],
        gi_creator = ''me'', gi_magnet_uri = ''magnet:?xt=1'', gi_torrent_name = ''disc'', gi_num_files = 1,
        gi_num_trackers = 2, gi_num_pieces = 4, gi_piece_length = 1024\<rparr>,
      ti_resume_info = None, ti_nodes = [],
      ti_trackers = [sample_tracker ''udp://one'', sample_tracker ''udp://two''],
      ti_files_vec = [sample_file]\<rparr>"

lemma sample_torrent_storable: "storable_torrent (stamp_torrent 7 sample_torrent)" "storable_file sample_file"
  by (simp_all add: storable_torrent_def sample_torrent_def storable_general_def storable_file_def
      sample_file_def storable_tracker_def sample_tracker_def clean_field_def fits32_def fits64_def
      int64_min_def int64_max_def)

text \<open>C28: The files of a torrent written by \<open>write_torrent_files_addendum\<close> are what
  \<open>read_torrent_files_addendum\<close> reads back, each with the torrent's identifier: although the
  reader of the piece map inside the loop resets the members it shares with the reader of the
  files.\<close>

theorem torrent_files_roundtrip:
  assumes "list_all storable_file fs" and "fs \<noteq> []" and "clean_field key" and "healthy w"
  shows "\<exists>w1 w2. write_torrent_files_addendum fs key w = (Ok True, w1) \<and>
    read_torrent_files_addendum (int (length fs)) key w1 = (Ok (map (\<lambda>f. f\<lparr>tf_unique_id := key\<rparr>) fs), w2)"
  by (rule write_read_files [OF assms])

theorem torrent_files_roundtrip_witness:
  "\<exists>w1 w2. write_torrent_files_addendum [sample_file] ''77'' (fresh_world 7) = (Ok True, w1) \<and>
     read_torrent_files_addendum 1 ''77'' w1 = (Ok [sample_file\<lparr>tf_unique_id := ''77''\<rparr>], w2)"
  using torrent_files_roundtrip [of "[sample_file]" "''77''" "fresh_world 7"] sample_torrent_storable(2)
  by (simp add: clean_field_def)

text \<open>Of the trackers that \<open>write_torrent_trkrs_addendum\<close> stores, \<open>read_torrent_trkrs_addendum\<close> returns
  the last one only.\<close>

theorem only_last_tracker_read:
  assumes "healthy w" and "ts \<noteq> []" and "storable_tracker (last ts)"
  shows "\<exists>w1 w2. write_torrent_trkrs_addendum ts key w = (Ok True, w1) \<and>
    read_torrent_trkrs_addendum (int (length ts)) key w1 = (Ok [(last ts)\<lparr>tt_unique_id := key\<rparr>], w2)"
proof -
  from write_trackers_last [OF assms(1,2), of 0 key] obtain w1 where
    w1: "write_trackers_from 0 ts key w = (Ok True, w1)" "healthy w1"
      "kv_get w1 (tracker_key key (length ts)) = Some (two_rows tracker_headers (tracker_fields (last ts)))" by auto
  have "0 < length ts" using assms(2) by simp
  from read_last_tracker [OF assms(3) w1(2) this w1(3)] w1(1) show ?thesis
    by (simp add: write_torrent_trkrs_addendum_def)
qed

theorem only_last_tracker_read_witness:
  "\<exists>w1 w2. write_torrent_trkrs_addendum [sample_tracker ''udp://one'', sample_tracker ''udp://two''] ''77''
       (fresh_world 7) = (Ok True, w1) \<and>
     read_torrent_trkrs_addendum 2 ''77'' w1 = (Ok [(sample_tracker ''udp://two'')\<lparr>tt_unique_id := ''77''\<rparr>], w2)"
  using only_last_tracker_read [of "fresh_world 7" "[sample_tracker ''udp://one'', sample_tracker ''udp://two'']" "''77''"]
  by (simp add: storable_tracker_def sample_tracker_def clean_field_def fits32_def)

text \<open>C27: A torrent added to a registry without torrents reads back as \<open>torrent_readback\<close> says: its general
  data and its files as they were, its status always Downloading, and its last tracker only.\<close>

theorem torrent_add_read:
  assumes "registered w es" and "distinct (map fst es)" and "filter (\<lambda>(i, p, t). t) es = []"
    and "healthy w" and "fair_order w" and "\<not> w_held w W_torrent" and "\<not> w_held w R_torrent"
    and "gi_unique_id (ti_general ti) \<notin> fst ` set es"
    and "valid_entry (gi_unique_id (ti_general ti), gi_down_dest (ti_general ti), True)"
    and "UNDERSCORE \<notin> set (gi_unique_id (ti_general ti))"
    and "storable_torrent (stamp_torrent (w_now w) ti)"
  shows "\<exists>w1 w2. addTorrentItem ti w = (Ok (True, stamp_torrent (w_now w) ti), w1) \<and>
    readTorrentItems False w1 = (Ok [torrent_readback (stamp_torrent (w_now w) ti)], w2)"
proof -
  define i where "i = gi_unique_id (ti_general ti)"
  define p where "p = gi_down_dest (ti_general ti)"
  have v: "valid_entry (i, p, True)" "UNDERSCORE \<notin> set i" using assms(9,10) by (simp_all add: i_def p_def)
  have "ti_files_vec ti \<noteq> []" "ti_trackers ti \<noteq> []" using assms(11) by (simp_all add: storable_torrent_def)
  from add_torrent_holds [OF assms(1,4,6) v i_def [symmetric] p_def [symmetric] this] obtain w1 where
    w1: "addTorrentItem ti w = (Ok (True, stamp_torrent (w_now w) ti), w1)"
      "registered w1 (es @ [(i, p, True)])" "holds_torrent w1 i (stamp_torrent (w_now w) ti)" "same_env w w1" by blast
  have d: "distinct (map fst (es @ [(i, p, True)]))" using assms(2,8) by (simp add: i_def)
  have f: "filter (\<lambda>(i, p, t). t) (es @ [(i, p, True)]) = [(i, p, True)]" using assms(3) by simp
  have "healthy w1" "fair_order w1" "\<not> w_held w1 R_torrent"
    using same_envD [OF w1(4)] assms(4,5,7) by simp_all
  from read_one_torrent [OF w1(2) d f this w1(3) assms(11)] w1(1) show ?thesis
    by (simp add: i_def p_def)
qed

theorem torrent_add_read_witness:
  "\<exists>w1 w2. addTorrentItem sample_torrent (fresh_world 7) = (Ok (True, stamp_torrent 7 sample_torrent), w1) \<and>
     readTorrentItems False w1 = (Ok [torrent_readback (stamp_torrent 7 sample_torrent)], w2)"
  using torrent_add_read [OF fresh_registered, of 7 sample_torrent] sample_torrent_storable(1)
  by (simp add: sample_torrent_def valid_entry_def clean_field_def)

end
