(* ===== verification/Download_Model.thy ===== *)
theory Download_Model
  imports Defaults
begin

text \<open>
  The table of downloads, \<open>GekkoFyre::downloadModel\<close> (\<open>src/dl_view.cpp\<close>): a list of rows, each a
  vector of texts that is filled cell by cell. The model is the list and the signals it emitted;
  the operations run as programs on it, because \<open>vector::insert\<close> past the end and
  \<open>QList::replace\<close> outside the list have no defined behaviour and \<open>vector::at\<close> throws.
\<close>

section \<open>State\<close>

datatype model_signal =
    DataChanged int int
  | RowsInserted int int
  | RowsRemoved int int

record download_model =
  dv_rows :: "string list list"
  dv_signals :: "model_signal list"

record model_index =
  mi_row :: int
  mi_column :: int

datatype item_role = DisplayRole | EditRole | OtherRole

datatype orientation = Horizontal | Vertical

datatype item_flag = ItemIsEnabled | ItemIsSelectable | ItemIsEditable | ItemNeverHasChildren

definition is_valid :: "model_index \<Rightarrow> bool" where
  "is_valid i = (0 \<le> mi_row i \<and> 0 \<le> mi_column i)"

type_synonym 'a model_op = "(download_model, 'a) prog"

definition emit_signal :: "model_signal \<Rightarrow> unit model_op" where
  "emit_signal s = modifyp (\<lambda>m. m\<lparr>dv_signals := dv_signals m @ [s]\<rparr>)"

section \<open>Reading\<close>

definition rowCount :: "download_model \<Rightarrow> int" where
  "rowCount m = int (length (dv_rows m))"

definition columnCount :: "download_model \<Rightarrow> int" where
  "columnCount m = MN_COL_COUNT"

text \<open>\<open>QAbstractTableModel::index\<close>: an index inside the table, or the invalid one.\<close>

definition model_index_at :: "download_model \<Rightarrow> int \<Rightarrow> int \<Rightarrow> model_index" where
  "model_index_at m row col =
     (if 0 \<le> row \<and> row < rowCount m \<and> 0 \<le> col \<and> col < columnCount m
      then \<lparr>mi_row = row, mi_column = col\<rparr> else \<lparr>mi_row = - 1, mi_column = - 1\<rparr>)"

text \<open>\<open>data\<close>: the cell, nothing outside the table or for another role; \<open>vector::at\<close> throws on a row
  that is too short.\<close>

definition model_data :: "model_index \<Rightarrow> item_role \<Rightarrow> download_model \<Rightarrow> exn + string option" where
  "model_data i role m =
     (if \<not> is_valid i then Inr None
      else if int (length (dv_rows m)) \<le> mi_row i \<or> mi_row i < 0 then Inr None
      else if role = DisplayRole then
        (let v = dv_rows m ! nat (mi_row i)
         in if 0 \<le> mi_column i \<and> mi_column i \<le> MN_COL_COUNT - 1 then
              (if nat (mi_column i) < length v then Inr (Some (v ! nat (mi_column i)))
               else Inl (Out_of_range ''vector::at''))
            else Inr None)
      else Inr None)"

definition headerData :: "int \<Rightarrow> orientation \<Rightarrow> item_role \<Rightarrow> string option" where
  "headerData section orientation role =
     (if role \<noteq> DisplayRole then None
      else if orientation = Horizontal then
        (if section = MN_FILENAME_COL then Some ''Item name''
         else if section = MN_FILESIZE_COL then Some ''File size''
         else if section = MN_DOWNLOADED_COL then Some ''Downloaded''
         else if section = MN_PROGRESS_COL then Some ''Progress''
         else if section = MN_UPSPEED_COL then Some ''U/load rate''
         else if section = MN_DOWNSPEED_COL then Some ''D/load rate''
         else if section = MN_SEEDERS_COL then Some ''Seeders''
         else if section = MN_LEECHERS_COL then Some ''Leechers''
         else if section = MN_STATUS_COL then Some ''Status''
         else if section = MN_DESTINATION_COL then Some ''Dest.''
         else if section = MN_URL_COL then Some ''URL''
         else if section = MN_HIDDEN_UNIQUE_ID then Some ''Hidden-Unique-ID''
         else None)
      else None)"

text \<open>\<open>flags\<close>; what the base class answers for a valid index is an argument.\<close>

definition model_flags :: "(model_index \<Rightarrow> item_flag list) \<Rightarrow> model_index \<Rightarrow> item_flag list" where
  "model_flags base i = (if \<not> is_valid i then [ItemIsEnabled] else base i)"

section \<open>Writing\<close>

text \<open>\<open>vectorList.value(row)\<close> (an empty vector outside the list), \<open>v.insert(v.begin() + k, x)\<close> and
  \<open>vectorList.replace(row, v)\<close>.\<close>

definition row_value :: "int \<Rightarrow> download_model \<Rightarrow> string list" where
  "row_value row m = (if 0 \<le> row \<and> row < rowCount m then dv_rows m ! nat row else [])"

definition vector_insert :: "nat \<Rightarrow> string \<Rightarrow> string list \<Rightarrow> string list option" where
  "vector_insert k x v = (if k \<le> length v then Some (take k v @ x # drop k v) else None)"

definition replace_row :: "int \<Rightarrow> string list \<Rightarrow> unit model_op" where
  "replace_row row v = (\<lambda>m. if 0 \<le> row \<and> row < rowCount m
     then ret () (m\<lparr>dv_rows := (dv_rows m)[nat row := v]\<rparr>) else undefinedp m)"

text \<open>\<open>setData\<close> inserts: the cells from the column on move to the right.\<close>

definition setData :: "model_index \<Rightarrow> string \<Rightarrow> item_role \<Rightarrow> bool model_op" where
  "setData i value role =
     (if is_valid i \<and> role = DisplayRole then
        bindp (getp (row_value (mi_row i))) (\<lambda>v.
        if mi_column i \<in> {MN_FILENAME_COL, MN_FILESIZE_COL, MN_DOWNLOADED_COL, MN_PROGRESS_COL,
             MN_UPSPEED_COL, MN_DOWNSPEED_COL, MN_SEEDERS_COL, MN_LEECHERS_COL, MN_STATUS_COL,
             MN_DESTINATION_COL, MN_URL_COL, MN_HIDDEN_UNIQUE_ID} then
          (case vector_insert (nat (mi_column i)) value v of
             None \<Rightarrow> undefinedp
           | Some v \<Rightarrow>
               seqp (replace_row (mi_row i) v)
               (seqp (emit_signal (DataChanged (mi_row i) (mi_column i))) (ret True)))
        else ret False)
      else ret False)"

text \<open>\<open>QList::insert\<close> puts a position outside the list at its ends; \<open>QList::removeAt\<close> ignores it.\<close>

definition list_insert :: "int \<Rightarrow> 'a \<Rightarrow> 'a list \<Rightarrow> 'a list" where
  "list_insert position x xs = take (nat position) xs @ x # drop (nat position) xs"

definition list_remove_at :: "int \<Rightarrow> 'a list \<Rightarrow> 'a list" where
  "list_remove_at position xs =
     (if 0 \<le> position then take (nat position) xs @ drop (Suc (nat position)) xs else xs)"

definition insertRows :: "int \<Rightarrow> int \<Rightarrow> bool model_op" where
  "insertRows position rows =
     seqp (emit_signal (RowsInserted position (position + rows - 1)))
     (seqp (modifyp (\<lambda>m. m\<lparr>dv_rows := (list_insert position [] ^^ nat rows) (dv_rows m)\<rparr>)) (ret True))"

definition removeRows :: "int \<Rightarrow> int \<Rightarrow> bool model_op" where
  "removeRows position rows =
     seqp (emit_signal (RowsRemoved position (position + rows - 1)))
     (seqp (modifyp (\<lambda>m. m\<lparr>dv_rows := (list_remove_at position ^^ nat rows) (dv_rows m)\<rparr>)) (ret True))"

definition updateCol :: "model_index \<Rightarrow> string \<Rightarrow> int \<Rightarrow> bool model_op" where
  "updateCol i value col =
     (if is_valid i then
        (if 0 \<le> col then
           bindp (getp (row_value (mi_row i))) (\<lambda>v.
           bindp (if mi_column i = col then
                    (if nat col < length v then ret (v[nat col := value])
                     else raise (Out_of_range ''vector::at''))
                  else ret v) (\<lambda>v.
           seqp (replace_row (mi_row i) v)
           (seqp (emit_signal (DataChanged (mi_row i) (mi_column i))) (ret True))))
         else raise (Invalid_argument ''\\'col\\' is less than zero!''))
      else ret False)"

definition getList :: "download_model \<Rightarrow> string list list" where
  "getList m = dv_rows m"

section \<open>Tables of full rows\<close>

definition full_rows :: "download_model \<Rightarrow> bool" where
  "full_rows m \<longleftrightarrow> (\<forall>r \<in> set (dv_rows m). length r = 12)"

definition cell_text :: "download_model \<Rightarrow> nat \<times> nat \<Rightarrow> string" where
  "cell_text m rc = dv_rows m ! fst rc ! snd rc"

definition in_table :: "download_model \<Rightarrow> nat \<times> nat \<Rightarrow> bool" where
  "in_table m rc \<longleftrightarrow> fst rc < length (dv_rows m) \<and> snd rc < length (dv_rows m ! fst rc)"

definition put_cell :: "nat \<times> nat \<Rightarrow> string \<Rightarrow> download_model \<Rightarrow> download_model" where
  "put_cell rc x m = m\<lparr>dv_rows := (dv_rows m)[fst rc := (dv_rows m ! fst rc)[snd rc := x]],
     dv_signals := dv_signals m @ [DataChanged (int (fst rc)) (int (snd rc))]\<rparr>"

lemma row_value_in [simp]: "0 \<le> r \<Longrightarrow> r < rowCount m \<Longrightarrow> row_value r m = dv_rows m ! nat r"
  by (simp add: row_value_def)

lemma updateCol_full:
  assumes "full_rows m" and "in_table m (r, c)"
  shows "updateCol \<lparr>mi_row = int r, mi_column = int c\<rparr> x (int c) m = (Ok True, put_cell (r, c) x m)"
    and "full_rows (put_cell (r, c) x m)"
proof -
  have row: "dv_rows m ! r \<in> set (dv_rows m)" using assms(2) by (simp add: in_table_def)
  then have len: "length (dv_rows m ! r) = 12" using assms(1) by (simp add: full_rows_def)
  show "updateCol \<lparr>mi_row = int r, mi_column = int c\<rparr> x (int c) m = (Ok True, put_cell (r, c) x m)"
    using assms(2) len
    by (simp add: updateCol_def is_valid_def in_table_def replace_row_def rowCount_def seqp_Ok
        emit_signal_def put_cell_def)
  show "full_rows (put_cell (r, c) x m)"
    using assms(1) len unfolding full_rows_def put_cell_def
    by (auto dest!: set_update_subset_insert [THEN subsetD])
qed

text \<open>The contract of a table whose cells are addressed by position.\<close>

locale cell_table =
  fixes get :: "'t \<Rightarrow> 'p \<Rightarrow> 'v" and put :: "'p \<Rightarrow> 'v \<Rightarrow> 't \<Rightarrow> 't"
    and inside :: "'t \<Rightarrow> 'p \<Rightarrow> bool"
  assumes get_put: "inside t p \<Longrightarrow> inside t q \<Longrightarrow> get (put p x t) q = (if q = p then x else get t q)"
    and inside_put: "inside t p \<Longrightarrow> inside (put p x t) q = inside t q"
begin

lemma get_fold_other:
  "\<forall>(p, x) \<in> set pxs. inside t p \<Longrightarrow> inside t q \<Longrightarrow> q \<notin> fst ` set pxs \<Longrightarrow>
     get (fold (\<lambda>(p, x). put p x) pxs t) q = get t q"
proof (induction pxs arbitrary: t)
  case (Cons px pxs)
  obtain p x where px: "px = (p, x)" by (cases px)
  have p: "inside t p" using Cons.prems(1) px by simp
  have "\<forall>(p', x') \<in> set pxs. inside (put p x t) p'" "inside (put p x t) q"
    using Cons.prems(1,2) by (auto simp: px inside_put [OF p])
  note IH = Cons.IH [OF this]
  have "q \<noteq> p" "q \<notin> fst ` set pxs" using Cons.prems(3) by (simp_all add: px)
  then show ?case using IH get_put [OF p Cons.prems(2), of x] by (simp add: px)
qed simp

lemma get_fold:
  "\<forall>(p, x) \<in> set pxs. inside t p \<Longrightarrow> distinct (map fst pxs) \<Longrightarrow> (q, y) \<in> set pxs \<Longrightarrow>
     get (fold (\<lambda>(p, x). put p x) pxs t) q = y"
proof (induction pxs arbitrary: t)
  case (Cons px pxs)
  obtain p x where px: "px = (p, x)" by (cases px)
  have p: "inside t p" using Cons.prems(1) px by simp
  have ins: "\<forall>(p', x') \<in> set pxs. inside (put p x t) p'"
    using Cons.prems(1) by (auto simp: px inside_put [OF p])
  show ?case
  proof (cases "(q, y) = px")
    case True
    then have "q = p" "y = x" by (simp_all add: px)
    moreover have "p \<notin> fst ` set pxs" using Cons.prems(2) by (auto simp: px)
    ultimately show ?thesis
      using get_fold_other [OF ins, of p] p by (simp add: px inside_put get_put)
  next
    case False
    have d: "distinct (map fst pxs)" using Cons.prems(2) by simp
    have "(q, y) \<in> set pxs" using False Cons.prems(3) by simp
    from Cons.IH [OF ins d this] show ?thesis by (simp add: px)
  qed
qed simp

end

interpretation cells: cell_table cell_text put_cell in_table
proof
  fix m p x q
  assume "in_table m p" and "in_table m q"
  then show "cell_text (put_cell p x m) q = (if q = p then x else cell_text m q)"
    by (cases p; cases q) (simp add: cell_text_def put_cell_def in_table_def nth_list_update)
next
  fix m p x q
  assume "in_table m p"
  then show "in_table (put_cell p x m) q = in_table m q"
    by (cases p; cases q) (simp add: put_cell_def in_table_def nth_list_update)
qed

section \<open>Filling a new row\<close>

text \<open>One \<open>setData\<close> per column, from the first on, as \<open>insertNewRow\<close> does it.\<close>

fun fill_row :: "int \<Rightarrow> int \<Rightarrow> string list \<Rightarrow> unit model_op" where
  "fill_row row col [] = ret ()"
| "fill_row row col (x # xs) =
     bindp (setData \<lparr>mi_row = row, mi_column = col\<rparr> x DisplayRole) (\<lambda>_. fill_row row (col + 1) xs)"

lemma columns_set:
  "{MN_FILENAME_COL, MN_FILESIZE_COL, MN_DOWNLOADED_COL, MN_PROGRESS_COL,
     MN_UPSPEED_COL, MN_DOWNSPEED_COL, MN_SEEDERS_COL, MN_LEECHERS_COL, MN_STATUS_COL,
     MN_DESTINATION_COL, MN_URL_COL, MN_HIDDEN_UNIQUE_ID} = {0..<12}"
  by (auto simp: column_numbers) presburger

lemma setData_append:
  assumes "r < length (dv_rows m)" and "length (dv_rows m ! r) = c" and "c < 12"
  shows "setData \<lparr>mi_row = int r, mi_column = int c\<rparr> x DisplayRole m =
    (Ok True, m\<lparr>dv_rows := (dv_rows m)[r := dv_rows m ! r @ [x]],
       dv_signals := dv_signals m @ [DataChanged (int r) (int c)]\<rparr>)"
  using assms
  by (simp add: setData_def columns_set is_valid_def rowCount_def vector_insert_def replace_row_def
      seqp_Ok emit_signal_def)

lemma fill_row_append:
  "r < length (dv_rows m) \<Longrightarrow> length (dv_rows m ! r) = c \<Longrightarrow> c + length xs \<le> 12 \<Longrightarrow>
     \<exists>sg. fill_row (int r) (int c) xs m =
       (Ok (), m\<lparr>dv_rows := (dv_rows m)[r := dv_rows m ! r @ xs], dv_signals := dv_signals m @ sg\<rparr>)"
proof (induction xs arbitrary: m c)
  case Nil
  then show ?case by (intro exI [of _ "[]"]) simp
next
  case (Cons x xs)
  define m1 where "m1 = m\<lparr>dv_rows := (dv_rows m)[r := dv_rows m ! r @ [x]],
       dv_signals := dv_signals m @ [DataChanged (int r) (int c)]\<rparr>"
  have c: "c < 12" using Cons.prems(3) by simp
  note s = setData_append [OF Cons.prems(1,2) c, of x, folded m1_def]
  obtain sg where sg: "fill_row (int r) (int (Suc c)) xs m1 =
      (Ok (), m1\<lparr>dv_rows := (dv_rows m1)[r := dv_rows m1 ! r @ xs], dv_signals := dv_signals m1 @ sg\<rparr>)"
    using Cons.IH [of m1 "Suc c"] Cons.prems by (auto simp: m1_def)
  have "fill_row (int r) (int c) (x # xs) m = fill_row (int r) (int (Suc c)) xs m1"
    using s by (simp add: bindp_Ok add.commute)
  then show ?case
    using sg Cons.prems(1) by (intro exI [of _ "DataChanged (int r) (int c) # sg"]) (simp add: m1_def)
qed

text \<open>A row inserted and filled in the order of its columns holds the texts in that order.\<close>

lemma insert_and_fill:
  assumes "length xs = 12"
  shows "\<exists>sg. bindp (insertRows 0 1) (\<lambda>_. fill_row 0 0 xs) m =
    (Ok (), m\<lparr>dv_rows := xs # dv_rows m, dv_signals := dv_signals m @ sg\<rparr>)"
proof -
  define m1 where "m1 = m\<lparr>dv_rows := [] # dv_rows m, dv_signals := dv_signals m @ [RowsInserted 0 0]\<rparr>"
  have i: "insertRows 0 1 m = (Ok True, m1)"
    by (simp add: insertRows_def emit_signal_def list_insert_def m1_def)
  obtain sg where "fill_row 0 0 xs m1 =
      (Ok (), m1\<lparr>dv_rows := (dv_rows m1)[0 := dv_rows m1 ! 0 @ xs], dv_signals := dv_signals m1 @ sg\<rparr>)"
    using fill_row_append [of 0 m1 0 xs] assms by (auto simp: m1_def)
  with i show ?thesis
    by (intro exI [of _ "RowsInserted 0 0 # sg"]) (simp add: bindp_Ok m1_def)
qed

section \<open>Properties\<close>

text \<open>A new row filled column by column holds exactly the twelve texts, in front of the rows that
  were there; the calls are all defined although each one inserts at the end of a growing vector.\<close>

theorem new_row_filled:
  assumes "length xs = 12"
  shows "\<exists>sg. bindp (insertRows 0 1) (\<lambda>_. fill_row 0 0 xs) m =
    (Ok (), m\<lparr>dv_rows := xs # dv_rows m, dv_signals := dv_signals m @ sg\<rparr>)"
  by (rule insert_and_fill [OF assms])

theorem new_row_filled_witness:
  "\<exists>sg. bindp (insertRows 0 1) (\<lambda>_. fill_row 0 0 [''a'', ''b'', ''c'', ''d'', ''e'', ''f'', ''g'', ''h'',
      ''i'', ''j'', ''k'', ''l'']) \<lparr>dv_rows = [], dv_signals = []\<rparr> =
    (Ok (), \<lparr>dv_rows = [[''a'', ''b'', ''c'', ''d'', ''e'', ''f'', ''g'', ''h'', ''i'', ''j'', ''k'', ''l'']],
       dv_signals = sg\<rparr>)"
  using new_row_filled [of "[''a'', ''b'', ''c'', ''d'', ''e'', ''f'', ''g'', ''h'', ''i'', ''j'', ''k'', ''l'']"
      "\<lparr>dv_rows = [], dv_signals = []\<rparr>"] by simp

text \<open>C39: \<open>updateCol\<close> on a table of full rows replaces the text of the one cell, which \<open>data\<close> then
  returns, and no other; the table stays one of full rows.\<close>

theorem updateCol_then_data:
  assumes "full_rows m" and "r < length (dv_rows m)" and "c < 12"
    and "r' < length (dv_rows m)" and "c' < 12"
  shows "\<exists>m'. updateCol \<lparr>mi_row = int r, mi_column = int c\<rparr> x (int c) m = (Ok True, m') \<and> full_rows m' \<and>
    model_data \<lparr>mi_row = int r', mi_column = int c'\<rparr> DisplayRole m' =
      (if r' = r \<and> c' = c then Inr (Some x)
       else model_data \<lparr>mi_row = int r', mi_column = int c'\<rparr> DisplayRole m)"
proof -
  have len: "length (dv_rows m ! k) = 12" if "k < length (dv_rows m)" for k
    using assms(1) that by (simp add: full_rows_def)
  have t: "in_table m (r, c)" "in_table m (r', c')" using assms len by (simp_all add: in_table_def)
  have d: "model_data \<lparr>mi_row = int r', mi_column = int c'\<rparr> DisplayRole n = Inr (Some (cell_text n (r', c')))"
    if "in_table n (r', c')" for n
    using that assms(5) by (simp add: model_data_def is_valid_def in_table_def cell_text_def column_numbers)
  have "in_table (put_cell (r, c) x m) (r', c')" using t by (simp add: cells.inside_put)
  with updateCol_full [OF assms(1) t(1), of x] d t show ?thesis by (simp add: cells.get_put)
qed

theorem updateCol_then_data_witness:
  "\<exists>m'. updateCol \<lparr>mi_row = 0, mi_column = 8\<rparr> ''Paused'' 8
       \<lparr>dv_rows = [replicate 12 ''x''], dv_signals = []\<rparr> = (Ok True, m') \<and>
     model_data \<lparr>mi_row = 0, mi_column = 8\<rparr> DisplayRole m' = Inr (Some ''Paused'')"
  using updateCol_then_data [of "\<lparr>dv_rows = [replicate 12 ''x''], dv_signals = []\<rparr>" 0 8 0 8 "''Paused''"]
  by (auto simp: full_rows_def)

text \<open>\<open>setData\<close> on a full row does not replace the cell: it inserts, so the row gets a thirteenth
  text and every cell from the column on shows what its left neighbour showed.\<close>

theorem setData_shifts:
  assumes "full_rows m" and "r < length (dv_rows m)" and "c < 12" and "c < k" and "k < 12"
  shows "\<exists>m'. setData \<lparr>mi_row = int r, mi_column = int c\<rparr> x DisplayRole m = (Ok True, m') \<and>
    length (dv_rows m' ! r) = 13 \<and> cell_text m' (r, c) = x \<and> cell_text m' (r, k) = cell_text m (r, k - 1)"
proof -
  have len: "length (dv_rows m ! r) = 12" using assms(1,2) by (simp add: full_rows_def)
  show ?thesis
    using assms len
    by (simp add: setData_def columns_set is_valid_def rowCount_def vector_insert_def replace_row_def
        seqp_Ok emit_signal_def cell_text_def nth_append min_def nth_Cons')
qed

theorem setData_shifts_witness:
  "\<exists>m'. setData \<lparr>mi_row = 0, mi_column = 8\<rparr> ''Paused'' DisplayRole
       \<lparr>dv_rows = [[''a'', ''b'', ''c'', ''d'', ''e'', ''f'', ''g'', ''h'', ''i'', ''j'', ''k'', ''l'']],
        dv_signals = []\<rparr> = (Ok True, m') \<and>
     cell_text m' (0, 11) = ''k''"
  using setData_shifts [of "\<lparr>dv_rows = [[''a'', ''b'', ''c'', ''d'', ''e'', ''f'', ''g'', ''h'', ''i'', ''j'',
      ''k'', ''l'']], dv_signals = []\<rparr>" 0 8 11 "''Paused''"]
  by (auto simp: full_rows_def cell_text_def)

end
