(* ===== verification/Sizes.thy ===== *)
theory Sizes
  imports Defaults
begin

text \<open>
  The figures shown to the user (\<open>src/cmnroutines.cpp\<close>): sizes, percentages and waiting times.
  What Qt formats (\<open>QLocale::toString(value, 'f', 0)\<close>) is an argument; what the C++ stream prints
  with \<open>std::setprecision\<close> is defined here.
\<close>

section \<open>Printing with a number of significant digits\<close>

text \<open>\<open>printf("%.*g")\<close>: the value rounded to \<open>p\<close> significant digits, in plain notation if its decimal
  exponent \<open>x\<close> has \<open>-4 \<le> x < p\<close> and with an exponent otherwise, without trailing zeros.\<close>

function decimal_exponent :: "nat \<Rightarrow> rat \<Rightarrow> int" where
  "decimal_exponent fuel q =
     (if fuel = 0 then 0
      else if 10 \<le> q then decimal_exponent (fuel - 1) (q / 10) + 1
      else if q < 1 then decimal_exponent (fuel - 1) (q * 10) - 1
      else 0)"
  by pat_completeness auto
termination by (relation "measure fst") auto

declare decimal_exponent.simps [simp del]

lemma pow10_Suc: "pow10 (k + 1) = 10 * pow10 k"
proof (cases "0 \<le> k")
  case True
  then show ?thesis by (simp add: pow10_def nat_add_distrib)
next
  case False
  then have "nat (- k) = Suc (nat (- k - 1))" "k + 1 \<le> 0" by simp_all
  then show ?thesis using False by (cases "k = - 1") (simp_all add: pow10_def algebra_simps)
qed

text \<open>With enough steps the search ends at the exponent.\<close>

lemma decimal_exponent_bracket:
  assumes "1 / 10 ^ n \<le> q" "q < 10 ^ Suc n"
  shows "pow10 (decimal_exponent (Suc n) q) \<le> q \<and> q < pow10 (decimal_exponent (Suc n) q + 1)"
  using assms
proof (induction n arbitrary: q)
  case 0
  then show ?case by (simp add: decimal_exponent.simps [of "Suc 0"] pow10_def)
next
  case (Suc n)
  let ?e = "\<lambda>q. decimal_exponent (Suc n) q"
  consider "10 \<le> q" | "q < 1" | "1 \<le> q" "q < 10" by fastforce
  then show ?case
  proof cases
    case 1
    have "1 / 10 ^ n \<le> (1 :: rat)" by simp
    also have "1 \<le> q / 10" using 1 by simp
    finally have "1 / 10 ^ n \<le> q / 10" .
    moreover have "q / 10 < 10 ^ Suc n" using Suc.prems(2) by simp
    ultimately have "pow10 (?e (q / 10)) \<le> q / 10" "q / 10 < pow10 (?e (q / 10) + 1)"
      using Suc.IH [of "q / 10"] by blast+
    moreover have "decimal_exponent (Suc (Suc n)) q = ?e (q / 10) + 1"
      using 1 by (simp add: decimal_exponent.simps [of "Suc (Suc n)"])
    ultimately show ?thesis using pow10_Suc [of "?e (q / 10)"] pow10_Suc [of "?e (q / 10) + 1"] by simp
  next
    case 2
    have "q * 10 < 10" using 2 by simp
    also have "(10 :: rat) \<le> 10 ^ Suc n" by simp
    finally have "q * 10 < 10 ^ Suc n" .
    moreover have "1 / 10 ^ n \<le> q * 10" using Suc.prems(1) by (simp add: field_simps)
    ultimately have "pow10 (?e (q * 10)) \<le> q * 10" "q * 10 < pow10 (?e (q * 10) + 1)"
      using Suc.IH [of "q * 10"] by blast+
    moreover have "decimal_exponent (Suc (Suc n)) q = ?e (q * 10) - 1"
      using 2 by (simp add: decimal_exponent.simps [of "Suc (Suc n)"])
    ultimately show ?thesis using pow10_Suc [of "?e (q * 10) - 1"] pow10_Suc [of "?e (q * 10)"] by simp
  next
    case 3
    then show ?thesis by (simp add: decimal_exponent.simps [of "Suc (Suc n)"] pow10_def)
  qed
qed

text \<open>The steps are enough for every positive double, from \<open>2^-1074\<close> to below \<open>2^1024\<close>.\<close>

lemma decimal_exponent_double:
  assumes "1 / 2 ^ 1074 \<le> q" "q < 2 ^ 1024"
  shows "pow10 (decimal_exponent 400 q) \<le> q" "q < pow10 (decimal_exponent 400 q + 1)"
proof -
  have "(1 :: rat) / 10 ^ 399 \<le> 1 / 2 ^ 1074" by (rule divide_left_mono) simp_all
  then have "1 / 10 ^ 399 \<le> q" using assms(1) by linarith
  moreover have "(2 :: rat) ^ 1024 \<le> 10 ^ Suc 399" by simp
  then have "q < 10 ^ Suc 399" using assms(2) by (rule order_less_le_trans [rotated])
  ultimately have "pow10 (decimal_exponent (Suc 399) q) \<le> q \<and> q < pow10 (decimal_exponent (Suc 399) q + 1)"
    by (rule decimal_exponent_bracket)
  then show "pow10 (decimal_exponent 400 q) \<le> q" "q < pow10 (decimal_exponent 400 q + 1)" by simp_all
qed

definition strip_zeros :: "string \<Rightarrow> string" where
  "strip_zeros s = rev (dropWhile (\<lambda>c. c = CHR ''0'') (rev s))"

definition pad_zeros :: "nat \<Rightarrow> string \<Rightarrow> string" where
  "pad_zeros n s = replicate (n - length s) (CHR ''0'') @ s"

definition with_point :: "string \<Rightarrow> string \<Rightarrow> string" where
  "with_point a b = (let b = strip_zeros b in if b = [] then a else a @ CHR ''.'' # b)"

definition show_g_pos :: "nat \<Rightarrow> rat \<Rightarrow> string" where
  "show_g_pos p q =
     (let x0 = decimal_exponent 400 q;
          scale = (\<lambda>x. if x \<le> int p - 1 then q * 10 ^ nat (int p - 1 - x) else q / 10 ^ nat (x - (int p - 1)));
          n0 = nat (round_half_even (scale x0));
          x = (if n0 = 10 ^ p then x0 + 1 else x0);
          n = (if n0 = 10 ^ p then 10 ^ (p - 1) else n0);
          ds = show_nat n
      in if - 4 \<le> x \<and> x < int p then
           (if 0 \<le> x then with_point (take (nat x + 1) ds) (drop (nat x + 1) ds)
            else with_point ''0'' (replicate (nat (- x) - 1) (CHR ''0'') @ ds))
         else with_point (take 1 ds) (drop 1 ds) @
              (if x < 0 then ''e-'' else ''e+'') @ pad_zeros 2 (show_nat (nat \<bar>x\<bar>)))"

fun show_g :: "nat \<Rightarrow> double \<Rightarrow> string" where
  "show_g p (Finite q) =
     (if q = 0 then ''0'' else if q < 0 then CHR ''-'' # show_g_pos p (- q) else show_g_pos p q)"
| "show_g p (Infinity neg) = (if neg then ''-inf'' else ''inf'')"
| "show_g p NaN = ''nan''"

section \<open>Sizes\<close>

definition numberSeperators :: "(double \<Rightarrow> string) \<Rightarrow> double \<Rightarrow> string" where
  "numberSeperators locale_text value = locale_text value"

definition bytesToKilobytes :: "(double \<Rightarrow> string) \<Rightarrow> double \<Rightarrow> string" where
  "bytesToKilobytes locale_text value =
     numberSeperators locale_text (d_round (d_div value (Finite 1024))) @ '' KB''"

definition bytesToMegabytes :: "(double \<Rightarrow> string) \<Rightarrow> double \<Rightarrow> string" where
  "bytesToMegabytes locale_text value =
     numberSeperators locale_text (d_round (d_div (d_div value (Finite 1024)) (Finite 1024))) @ '' MB''"

definition numberConverter :: "(double \<Rightarrow> string) \<Rightarrow> double \<Rightarrow> string" where
  "numberConverter locale_text value =
     (if d_less value (Finite (1024 * 1024)) then bytesToKilobytes locale_text value
      else if d_less (Finite (2048 * 1024)) value then bytesToMegabytes locale_text value
      else bytesToKilobytes locale_text value)"

section \<open>Progress\<close>

definition percentDownloaded :: "double \<Rightarrow> double \<Rightarrow> double" where
  "percentDownloaded content_length amountDl =
     (let percent = d_round (d_mul (d_div amountDl content_length) (Finite 100))
      in if d_ge percent (Finite 101) then Finite 0 else percent)"

definition estimatedTimeLeft :: "double \<Rightarrow> double \<Rightarrow> double \<Rightarrow> double" where
  "estimatedTimeLeft content_length amountDl down_speed =
     d_div (d_sub content_length amountDl) down_speed"

definition timeBeautify :: "double \<Rightarrow> string" where
  "timeBeautify secondsToConvert =
     (if d_less (Finite 60) secondsToConvert then
        show_g 3 (d_div secondsToConvert (Finite 60)) @ '' '' @ ''minutes''
      else if d_less (Finite (60 * 60)) secondsToConvert then
        show_g 3 (d_div secondsToConvert (Finite (60 * 60))) @ '' '' @ ''hours''
      else if d_less (Finite (60 * 60 * 24)) secondsToConvert then
        show_g 3 (d_div secondsToConvert (Finite (60 * 60 * 24))) @ '' '' @ ''days''
      else [])"

section \<open>What they show\<close>

lemma d_less_trans_finite: "p \<le> q \<Longrightarrow> d_less (Finite q) x \<Longrightarrow> d_less (Finite p) x"
  by (cases x) auto

lemma time_in_minutes_only:
  "timeBeautify s = (if d_less (Finite 60) s then show_g 3 (d_div s (Finite 60)) @ '' minutes'' else [])"
  using d_less_trans_finite [of 60 "60 * 60" s] d_less_trans_finite [of 60 "60 * 60 * 24" s]
  by (auto simp: timeBeautify_def)

lemma d_round_integer: "\<exists>n. d_round (Finite q) = Finite (of_int n)"
  by auto

text \<open>Waiting times come in minutes however long they are, and a minute or less is shown as nothing:
  the branches for hours and days are never taken.\<close>

theorem timeBeautify_minutes:
  "timeBeautify s = (if d_less (Finite 60) s then show_g 3 (d_div s (Finite 60)) @ '' minutes'' else [])"
  by (rule time_in_minutes_only)

text \<open>A percentage is never shown above 100: what rounds to 101 or more becomes 0.\<close>

theorem percentDownloaded_bounded:
  "\<not> d_less (Finite 100) (percentDownloaded content_length amountDl)"
proof -
  have "\<not> d_less (Finite 100) (if d_ge (d_round x) (Finite 101) then Finite 0 else d_round x)" for x
  proof (cases x)
    case (Finite q)
    obtain n where n: "d_round (Finite q) = Finite (of_int n)" using d_round_integer by blast
    have "(100 :: rat) < of_int n \<longleftrightarrow> 100 < n" and "(101 :: rat) < of_int n \<longleftrightarrow> 101 < n"
      and "(101 :: rat) = of_int n \<longleftrightarrow> 101 = n" and "of_int n = (101 :: rat) \<longleftrightarrow> n = 101"
      by linarith+
    then show ?thesis unfolding Finite n by (simp add: d_ge_def)
  qed (simp_all add: d_ge_def)
  then show ?thesis by (simp add: percentDownloaded_def Let_def)
qed

end
