(* ===== verification/Contents_View.thy ===== *)
theory Contents_View
  imports Prelude "HOL-Library.Char_ord" "HOL-Library.List_Lexorder" "HOL-Library.Sublist"
begin

text \<open>
  The tree of the files of a torrent (\<open>contentsView_update\<close> and \<open>cV_addItems\<close> of
  \<open>src/gui/mainwindow.cpp\<close>): a \<open>QStandardItemModel\<close> is a list of items with texts and children.
  What \<open>boost::filesystem\<close> and \<open>QDir\<close> say of a path is the argument \<open>path_library\<close>; the order in
  which the hash of the paths is walked does not matter, since the paths are sorted afterwards.
\<close>

section \<open>The tree\<close>

datatype cv_item = Item (item_text: string) (item_children: "cv_item list")

text \<open>The child a hash filled from the first child to the last holds for a text is the last one with
  that text.\<close>

fun update_last :: "string \<Rightarrow> (cv_item list \<Rightarrow> cv_item list) \<Rightarrow> cv_item list \<Rightarrow> cv_item list" where
  "update_last e f [] = []"
| "update_last e f (c # cs) =
     (if e \<in> item_text ` set cs then c # update_last e f cs
      else if item_text c = e then Item e (f (item_children c)) # cs
      else c # cs)"

text \<open>The loop over the elements returns in its first round; the rest of the elements goes into the
  recursive call.\<close>

fun cV_addItems :: "cv_item list \<Rightarrow> string list \<Rightarrow> cv_item list" where
  "cV_addItems parent [] = parent"
| "cV_addItems parent (element # split_elements) =
     (if element \<in> item_text ` set parent
      then update_last element (\<lambda>child. cV_addItems child split_elements) parent
      else parent @ [Item element (cV_addItems [] split_elements)])"

text \<open>\<open>QString::split\<close>: every separator splits, empty parts are kept.\<close>

fun qsplit :: "char \<Rightarrow> string \<Rightarrow> string list" where
  "qsplit sep [] = [[]]"
| "qsplit sep (c # s) =
     (if c = sep then [] # qsplit sep s
      else case qsplit sep s of [] \<Rightarrow> [[c]] | p # ps \<Rightarrow> (c # p) # ps)"

text \<open>\<open>Qt::MatchFixedString\<close> compares without regard to case.\<close>

definition fold_case :: "string \<Rightarrow> string" where
  "fold_case s = map (\<lambda>c. if CHR ''A'' \<le> c \<and> c \<le> CHR ''Z'' then char_of (of_char c + (32 :: nat)) else c) s"

definition add_path :: "string \<Rightarrow> cv_item list \<Rightarrow> cv_item list" where
  "add_path item roots =
     (let splitName = qsplit (CHR ''/'') item;
          roots = (if filter (\<lambda>c. fold_case (item_text c) = fold_case (hd splitName)) roots = []
                 then roots @ [Item (hd splitName) []] else roots)
      in cV_addItems roots splitName)"

section \<open>The paths of a torrent\<close>

record path_library =
  pl_components :: "string \<Rightarrow> string list"
  pl_parent :: "string \<Rightarrow> string"
  pl_has_extension :: "string \<Rightarrow> bool"
  pl_dir_name :: "string \<Rightarrow> string"

definition column_data :: "path_library \<Rightarrow> string list \<Rightarrow> (string \<times> string) list" where
  "column_data lib file_paths =
     concat (map (\<lambda>p. map (\<lambda>indice. (indice, pl_parent lib p)) (pl_components lib p)) file_paths)"

definition files_toProc :: "path_library \<Rightarrow> string list \<Rightarrow> string list" where
  "files_toProc lib file_paths =
     remdups (map (\<lambda>(child, parent). parent @ CHR ''/'' # child)
       (filter (\<lambda>(child, parent). pl_has_extension lib child \<and> pl_dir_name lib parent \<noteq> child)
         (column_data lib file_paths)))"

definition contents_tree :: "path_library \<Rightarrow> string list \<Rightarrow> cv_item list" where
  "contents_tree lib file_paths = fold add_path (sort (files_toProc lib file_paths)) []"

section \<open>What the tree shows\<close>

text \<open>The ways from the root to the items, and trees without equal siblings.\<close>

fun ways :: "cv_item \<Rightarrow> string list set" where
  "ways (Item t cs) = insert [t] ((#) t ` (\<Union> (ways ` set cs)))"

definition all_ways :: "cv_item list \<Rightarrow> string list set" where
  "all_ways cs = \<Union> (ways ` set cs)"

fun tidy :: "cv_item \<Rightarrow> bool" where
  "tidy (Item t cs) \<longleftrightarrow> distinct (map item_text cs) \<and> list_all tidy cs"

definition tidy_all :: "cv_item list \<Rightarrow> bool" where
  "tidy_all cs \<longleftrightarrow> distinct (map item_text cs) \<and> list_all tidy cs"

lemma ways_Item: "ways (Item t cs) = insert [t] ((#) t ` all_ways cs)"
  by (simp add: all_ways_def)

lemma ways_item: "ways c = insert [item_text c] ((#) (item_text c) ` all_ways (item_children c))"
  by (cases c) (simp add: all_ways_def)

lemma tidy_item: "tidy c \<longleftrightarrow> tidy_all (item_children c)"
  by (cases c) (simp add: tidy_all_def)

declare ways.simps [simp del] tidy.simps [simp del]

lemma all_ways_simps [simp]:
  "all_ways [] = {}" "all_ways (c # cs) = ways c \<union> all_ways cs" "all_ways (cs @ ds) = all_ways cs \<union> all_ways ds"
  by (auto simp: all_ways_def)

lemma tidy_all_simps [simp]:
  "tidy_all []" "tidy_all (c # cs) \<longleftrightarrow> item_text c \<notin> item_text ` set cs \<and> tidy c \<and> tidy_all cs"
  by (auto simp: tidy_all_def)

lemma update_last_texts [simp]: "map item_text (update_last e f cs) = map item_text cs"
  by (induction cs) auto

lemma update_last_set: "item_text ` set (update_last e f cs) = item_text ` set cs"
  by (metis update_last_texts set_map)

text \<open>Adding below a text that is there changes only the child with that text.\<close>

lemma update_last_ways:
  assumes "tidy_all cs" and "e \<in> item_text ` set cs"
    and "\<And>ds. tidy_all ds \<Longrightarrow> tidy_all (f ds) \<and> all_ways (f ds) = all_ways ds \<union> new"
  shows "tidy_all (update_last e f cs) \<and> all_ways (update_last e f cs) = all_ways cs \<union> (#) e ` new"
  using assms(1,2)
proof (induction cs)
  case (Cons c cs)
  show ?case
  proof (cases "e \<in> item_text ` set cs")
    case True
    then show ?thesis using Cons by (auto simp: update_last_set)
  next
    case False
    then have e: "item_text c = e" using Cons.prems(2) by auto
    have "tidy_all (item_children c)" using Cons.prems(1) by (simp add: tidy_item)
    from assms(3) [OF this] show ?thesis
      using False e Cons.prems(1) by (auto simp: ways_item [of c] ways_Item tidy_item)
  qed
qed simp

definition prefixes_of :: "string list \<Rightarrow> string list set" where
  "prefixes_of es = {p. p \<noteq> [] \<and> prefix p es}"

lemma prefixes_of_Cons: "prefixes_of (e # es) = insert [e] ((#) e ` prefixes_of es)"
  by (auto simp: prefixes_of_def prefix_Cons image_iff)

lemma prefixes_of_Nil [simp]: "prefixes_of [] = {}"
  by (auto simp: prefixes_of_def)

lemma text_has_way: "e \<in> item_text ` set cs \<Longrightarrow> [e] \<in> all_ways cs"
proof (induction cs)
  case (Cons c cs)
  then show ?case by (auto simp: ways_item [of c])
qed simp

lemma tidy_append: "tidy_all cs \<Longrightarrow> e \<notin> item_text ` set cs \<Longrightarrow> tidy_all ds \<Longrightarrow> tidy_all (cs @ [Item e ds])"
  by (induction cs) (auto simp: tidy_item)

lemma addItems_ways:
  "tidy_all cs \<Longrightarrow>
     tidy_all (cV_addItems cs es) \<and> all_ways (cV_addItems cs es) = all_ways cs \<union> prefixes_of es"
proof (induction es arbitrary: cs)
  case (Cons e es)
  show ?case
  proof (cases "e \<in> item_text ` set cs")
    case True
    with update_last_ways [OF Cons.prems True, of "\<lambda>child. cV_addItems child es" "prefixes_of es", OF Cons.IH]
    show ?thesis using text_has_way [OF True] by (auto simp: prefixes_of_Cons)
  next
    case False
    have "tidy_all []" by simp
    from Cons.IH [OF this] tidy_append [OF Cons.prems False] False show ?thesis
      by (auto simp: ways_Item prefixes_of_Cons)
  qed
qed simp

lemma qsplit_nonempty: "qsplit c s \<noteq> []"
  by (induction s) (auto split: list.splits)

lemma add_path_ways:
  assumes "tidy_all cs"
  shows "tidy_all (add_path p cs) \<and> all_ways (add_path p cs) = all_ways cs \<union> prefixes_of (qsplit (CHR ''/'') p)"
proof -
  obtain e es where s: "qsplit (CHR ''/'') p = e # es" using qsplit_nonempty by (cases "qsplit (CHR ''/'') p") auto
  show ?thesis
  proof (cases "filter (\<lambda>c. fold_case (item_text c) = fold_case e) cs = []")
    case True
    then have new: "e \<notin> item_text ` set cs" by (auto simp: filter_empty_conv)
    have t: "tidy_all (cs @ [Item e []])" using tidy_append [OF assms new, of "[]"] by simp
    have "[e] \<in> prefixes_of (e # es)" by (simp add: prefixes_of_Cons)
    then show ?thesis using addItems_ways [OF t, of "e # es"] True
      by (auto simp: add_path_def s ways_Item simp del: cV_addItems.simps)
  next
    case False
    then show ?thesis using addItems_ways [OF assms, of "e # es"] by (simp add: add_path_def s Let_def del: cV_addItems.simps)
  qed
qed

lemma fold_add_path:
  "tidy_all cs \<Longrightarrow> tidy_all (fold add_path ps cs) \<and>
     all_ways (fold add_path ps cs) = all_ways cs \<union> (\<Union>p \<in> set ps. prefixes_of (qsplit (CHR ''/'') p))"
proof (induction ps arbitrary: cs)
  case (Cons p ps)
  from add_path_ways [OF Cons.prems, of p] Cons.IH [of "add_path p cs"] show ?case by auto
qed simp

section \<open>Properties\<close>


end
