(* ===== verification/Curl_Easy.thy ===== *)
theory Curl_Easy
  imports Defaults Prelude "HOL-Library.Word"
begin

text \<open>
  Asking a server about a file, \<open>GekkoFyre::CurlEasy\<close> (\<open>src/curl_easy.cpp\<close>). What libcurl answers to the
  request that the options describe is an argument: a function from the options to the answer.
\<close>

section \<open>The request\<close>

datatype easy_option =
    Opt_url string | Opt_header int | Opt_nobody int | Opt_noprogress int | Opt_write_memory
  | Opt_followlocation int | Opt_useragent string | Opt_maxredirs int | Opt_tcp_keepalive int
  | Opt_tcp_keepidle int | Opt_tcp_keepintvl int | Opt_verbose int | Opt_errorbuffer | Opt_private
  | Opt_low_speed_time int | Opt_low_speed_limit int

record easy_answer =
  ea_init_ok :: bool
  ea_curl_res :: int
  ea_error :: string
  ea_response_code :: int
  ea_total_time :: double
  ea_effective_url :: string
  ea_content_length :: double

text \<open>\<open>CURLE_OK\<close> is 0.\<close>

definition CURLE_OK :: int where "CURLE_OK = 0"

text \<open>\<open>new_easy_handle\<close>: the options in the order they are set, or the exception.\<close>

definition new_easy_handle :: "bool \<Rightarrow> string \<Rightarrow> exn + easy_option list" where
  "new_easy_handle init_ok url =
     (if \<not> init_ok then Inl (Runtime_error ''curl_easy_init() failed, exiting!'')
      else Inr [Opt_url url, Opt_header 1, Opt_nobody 1, Opt_noprogress 1, Opt_write_memory,
        Opt_followlocation 1, Opt_useragent ''FyreDL/0.0.1'', Opt_maxredirs 12, Opt_tcp_keepalive 1,
        Opt_tcp_keepidle 120, Opt_tcp_keepintvl 60, Opt_verbose 1, Opt_errorbuffer, Opt_private,
        Opt_low_speed_time 3, Opt_low_speed_limit 10])"

section \<open>The answers\<close>

definition verifyFileExists :: "bool \<Rightarrow> (easy_option list \<Rightarrow> easy_answer) \<Rightarrow> string \<Rightarrow> exn + curl_info" where
  "verifyFileExists init_ok network url =
     (case new_easy_handle init_ok url of
        Inl e \<Rightarrow> Inl e
      | Inr opts \<Rightarrow>
          let a = network opts
          in if ea_curl_res a \<noteq> CURLE_OK
             then Inr \<lparr>ci_response_code = ea_curl_res a, ci_effective_url = ea_error a\<rparr>
             else Inr \<lparr>ci_response_code = ea_response_code a, ci_effective_url = ea_effective_url a\<rparr>)"

definition curlGrabInfo :: "bool \<Rightarrow> (easy_option list \<Rightarrow> easy_answer) \<Rightarrow> string \<Rightarrow> exn + curl_info_ext" where
  "curlGrabInfo init_ok network url =
     (case new_easy_handle init_ok url of
        Inl e \<Rightarrow> Inl e
      | Inr opts \<Rightarrow>
          let a = network opts
          in if ea_curl_res a \<noteq> CURLE_OK
             then Inr \<lparr>ce_status_ok = False, ce_status_msg = [], ce_response_code = ea_curl_res a,
                       ce_elapsed = Finite (- 1), ce_effective_url = ea_error a, ce_content_length = Finite (- 1)\<rparr>
             else Inr \<lparr>ce_status_ok = True, ce_status_msg = [], ce_response_code = ea_response_code a,
                       ce_elapsed = ea_total_time a, ce_effective_url = ea_effective_url a,
                       ce_content_length = ea_content_length a\<rparr>)"

section \<open>The handle\<close>

record easy_handle =
  eh_easy :: "nat option"
  eh_url :: string
  eh_memory :: string

definition curlCleanup :: "easy_handle \<Rightarrow> easy_handle" where
  "curlCleanup curl_init =
     (let c = (if eh_memory curl_init \<noteq> [] then curl_init\<lparr>eh_memory := []\<rparr> else curl_init)
      in c\<lparr>eh_easy := None, eh_url := []\<rparr>)"

definition curl_write_memory_callback :: "string \<Rightarrow> 64 word \<Rightarrow> 64 word \<Rightarrow> string \<Rightarrow> 64 word \<times> string" where
  "curl_write_memory_callback ptr sz nmemb memory =
     (let realsize = sz * nmemb in (realsize, memory @ take (unat realsize) ptr))"

end
