(* ===== verification/Main_Window.thy ===== *)
theory Main_Window
  imports Torrent_History Download_Model Sizes Contents_View Curl_Easy Curl_Multi
begin

text \<open>
  The main window (\<open>src/gui/mainwindow.cpp\<close>): the table of downloads, the cache of what is known about
  each, and the handlers of the buttons and of the signals. The state adds to the database, the disk
  and the downloads in progress what the window keeps, the signals and torrents it sent off, the
  connections it made, the answers the user gives to questions, and the library functions it calls.
  A handler's \<open>return\<close> out of a loop is \<open>Inr\<close>, see \<open>for_each\<close>.
\<close>

section \<open>State\<close>

datatype button = Yes | No | Cancel | Apply | Other_button

datatype gui_signal =
    Send_start_download string string bool
  | Send_stop_download string
  | Start_torrent torrent_info
  | Terminate_xfers
  | Finish_curl_multi_thread

datatype connection =
    Stats_to_window | Finished_to_window | Stop_to_multi | Torrent_stats_to_window
  | Start_to_multi | Finish_to_thread | Finish_to_multi | Menu_to_window | Stats_to_manage | Terminate_to_window
  | Keys_to_window

datatype label =
    FileNameData | DestData | TotSizeData | UrlData | EstWaitTimeData | HashTypeData
  | CreateTimeData | CompTimeData | GivenHashData | CalcHashData

record gui_library =
  gl_file_name :: "string \<Rightarrow> string"
  gl_remove_filename :: "string \<Rightarrow> string"
  gl_absolute_path :: "string \<Rightarrow> string"
  gl_locale_text :: "double \<Rightarrow> string"
  gl_variant_text :: "double \<Rightarrow> string"
  gl_date_text :: "int \<Rightarrow> string"
  gl_statvfs :: "string \<Rightarrow> 64 word \<times> 64 word"
  gl_digest :: "crypto_algorithm \<Rightarrow> string \<Rightarrow> string"
  gl_reads :: "string \<Rightarrow> bool"
  gl_easy_ok :: bool
  gl_network :: "easy_option list \<Rightarrow> easy_answer"
  gl_paths :: path_library
  gl_removable :: "string \<Rightarrow> bool"

record gui = multi +
  g_model :: download_model
  g_selected :: "model_index list"
  g_cache :: "download_info list"
  g_emitted :: "gui_signal list"
  g_connections :: "connection list"
  g_answers :: "nat \<Rightarrow> button"
  g_asked :: nat
  g_labels :: "label \<Rightarrow> string"
  g_contents :: "cv_item list option"
  g_exit :: "int option"
  g_garbage_status :: download_status
  g_garbage_hash :: file_hash
  g_lib :: gui_library

type_synonym ('z, 'a) window = "('z gui_scheme, 'a) prog"

definition modelp :: "'a model_op \<Rightarrow> ('z, 'a) window" where
  "modelp m = (\<lambda>w. let (r, m') = m (g_model w) in (r, w\<lparr>g_model := m'\<rparr>))"

text \<open>\<open>model->data(model->index(row, col)).toString()\<close>.\<close>

definition view_text :: "int \<Rightarrow> int \<Rightarrow> ('z, string) window" where
  "view_text row col =
     bindp (getp (\<lambda>w. model_data (model_index_at (g_model w) row col) DisplayRole (g_model w))) (\<lambda>r.
     bindp (liftp r) (\<lambda>x. ret (case x of Some s \<Rightarrow> s | None \<Rightarrow> [])))"

definition emit_gui :: "gui_signal \<Rightarrow> ('z, unit) window" where
  "emit_gui s = modifyp (\<lambda>w. w\<lparr>g_emitted := g_emitted w @ [s]\<rparr>)"

definition connect :: "connection \<Rightarrow> ('z, unit) window" where
  "connect c = modifyp (\<lambda>w. w\<lparr>g_connections := g_connections w @ [c]\<rparr>)"

definition ask :: "message_box \<Rightarrow> ('z, button) window" where
  "ask b = seqp (show_box b) (\<lambda>w. ret (g_answers w (g_asked w)) (w\<lparr>g_asked := Suc (g_asked w)\<rparr>))"

definition set_label :: "label \<Rightarrow> string \<Rightarrow> ('z, unit) window" where
  "set_label l s = modifyp (\<lambda>w. w\<lparr>g_labels := (g_labels w)(l := s)\<rparr>)"

text \<open>\<open>indexes.size() > 0 \<and> indexes.at(0).isValid()\<close>, and the row.\<close>

definition with_selection :: "(int \<Rightarrow> ('z, unit) window) \<Rightarrow> ('z, unit) window" where
  "with_selection body =
     bindp (getp g_selected) (\<lambda>indexes.
     if indexes \<noteq> [] \<and> is_valid (hd indexes) then body (mi_row (hd indexes)) else ret ())"

definition update_col :: "int \<Rightarrow> int \<Rightarrow> string \<Rightarrow> ('z, bool) window" where
  "update_col row col text =
     bindp (getp (\<lambda>w. model_index_at (g_model w) row col)) (\<lambda>i. modelp (updateCol i text col))"

text \<open>The calls that leave the later arguments at their defaults.\<close>

definition modify_status :: "string \<Rightarrow> download_status \<Rightarrow> ('z, bool) action" where
  "modify_status file_loc status = modifyCurlItem file_loc status 0 [] HashNone [] NotApplicable"

definition is_http :: "download_type \<Rightarrow> bool" where
  "is_http t \<longleftrightarrow> t = HTTP \<or> t = FTP"

definition is_torrent :: "download_type \<Rightarrow> bool" where
  "is_torrent t \<longleftrightarrow> t = Torrent \<or> t = TorrentMagnetLink"

section \<open>Rows and the cache\<close>

definition new_download_info :: "string \<Rightarrow> string \<Rightarrow> download_type \<Rightarrow> download_status \<Rightarrow> double \<Rightarrow> download_info" where
  "new_download_info unique_id down_dest download_type garbage_status garbage_length =
     \<lparr>di_dl_type = download_type, di_dl_dest = down_dest, di_unique_id = unique_id, di_url = [],
      di_stats = \<lparr>gs_dl_state = garbage_status, gs_timer_begin = 0, gs_content_length = garbage_length,
        gs_xfer_stats = [\<lparr>gx_upload_rate = Some (Finite 0), gx_download_rate = Finite 0, gx_progress_ppm = 0,
          gx_download_total = 0, gx_upload_total = Some 0, gx_num_pieces_dled = None, gx_cur_time = None\<rparr>]\<rparr>,
      di_down_speed_init = False, di_down_speed_vals = [(Finite 0, Finite 0)],
      di_to_info = None, di_curl_info = None\<rparr>"

definition torrent_length :: "general_info \<Rightarrow> double" where
  "torrent_length g = d_mul (d_of_int (gi_num_pieces g)) (d_of_int (gi_piece_length g))"

definition initCharts :: "string \<Rightarrow> string \<Rightarrow> download_type \<Rightarrow> ('z, unit) window" where
  "initCharts unique_id down_dest download_type =
     (if unique_id \<noteq> [] then
        bindp (getp g_cache) (\<lambda>cache.
        if unique_id \<in> di_unique_id ` set cache then
          raise (Invalid_argument ''already exists when it shouldn't!'')
        else
          bindp (getp (\<lambda>w. new_download_info unique_id down_dest download_type (g_garbage_status w) (h_garbage_double w))) (\<lambda>graph_info.
          bindp (if is_http download_type then
                   bindp readCurlItems (\<lambda>curl_dl_info.
                   ret (case find (\<lambda>d. cd_unique_id d = unique_id) curl_dl_info of
                          None \<Rightarrow> graph_info
                        | Some d \<Rightarrow> graph_info\<lparr>di_curl_info := Some d,
                            di_stats := (di_stats graph_info)\<lparr>gs_content_length := ce_content_length (cd_ext_info d)\<rparr>\<rparr>))
                 else
                   bindp (readTorrentItems False) (\<lambda>gk_torrent_info.
                   ret (case find (\<lambda>t. gi_unique_id (ti_general t) = unique_id) gk_torrent_info of
                          None \<Rightarrow> graph_info
                        | Some t \<Rightarrow> graph_info\<lparr>di_to_info := Some t,
                            di_stats := (di_stats graph_info)\<lparr>gs_content_length := torrent_length (ti_general t)\<rparr>\<rparr>))) (\<lambda>graph_info.
          modifyp (\<lambda>w. w\<lparr>g_cache := g_cache w @ [graph_info]\<rparr>))))
      else raise (Invalid_argument ''Unable to initialize charts! 'file_dest' is empty!''))"

definition set_cell :: "int \<times> string \<Rightarrow> ('z, unit) window" where
  "set_cell ct =
     (case ct of (col, text) \<Rightarrow>
        bindp (getp (\<lambda>w. model_index_at (g_model w) 0 col)) (\<lambda>i.
        bindp (modelp (setData i text DisplayRole)) (\<lambda>_. ret ())))"

definition row_texts :: "gui_library \<Rightarrow> string \<Rightarrow> double \<Rightarrow> int \<Rightarrow> double \<Rightarrow> int \<Rightarrow> int \<Rightarrow> download_status \<Rightarrow> string \<Rightarrow>
    string \<Rightarrow> string \<Rightarrow> (int \<times> string) list" where
  "row_texts lib fileName fileSize downloaded progress upSpeed downSpeed status url destination unique_id =
     [(MN_FILENAME_COL, gl_file_name lib fileName),
      (MN_FILESIZE_COL, numberConverter (gl_locale_text lib) fileSize),
      (MN_DOWNLOADED_COL, to_string_int downloaded),
      (MN_PROGRESS_COL, show_g 6 progress),
      (MN_UPSPEED_COL, to_string_int upSpeed),
      (MN_DOWNSPEED_COL, to_string_int downSpeed),
      (MN_SEEDERS_COL, ''<N/A>''),
      (MN_LEECHERS_COL, ''<N/A>''),
      (MN_STATUS_COL, convDlStat_toString status),
      (MN_DESTINATION_COL, destination),
      (MN_URL_COL, url),
      (MN_HIDDEN_UNIQUE_ID, unique_id)]"

definition insertNewRow :: "string \<Rightarrow> double \<Rightarrow> int \<Rightarrow> double \<Rightarrow> int \<Rightarrow> int \<Rightarrow> download_status \<Rightarrow> string \<Rightarrow> string \<Rightarrow>
    string \<Rightarrow> download_type \<Rightarrow> ('z, unit) window" where
  "insertNewRow fileName fileSize downloaded progress upSpeed downSpeed status url destination unique_id download_type =
     with_warning
       (bindp (modelp (insertRows 0 1)) (\<lambda>_.
        bindp (getp g_lib) (\<lambda>lib.
        seqp (each set_cell (row_texts lib fileName fileSize downloaded progress upSpeed downSpeed status url
                destination unique_id))
          (initCharts unique_id destination download_type)))) ()"

definition history_row :: "curl_dl_info \<Rightarrow> ('z, unit) window" where
  "history_row d =
     (if cd_file_loc d \<noteq> [] then
        (if d_less (Finite 0) (ce_content_length (cd_ext_info d)) then
           insertNewRow (ce_effective_url (cd_ext_info d)) (ce_content_length (cd_ext_info d)) 0 (Finite 0) 0 0
             (cd_dlStatus d) (ce_effective_url (cd_ext_info d)) (cd_file_loc d) (cd_unique_id d) HTTP
         else show_box (Information ''The size of the download could not be determined.''))
      else
        seqp (show_box (Warning ''The item below has no download destination!''))
          (if cd_unique_id d \<noteq> [] then seqp (delCurlItem [] (cd_unique_id d)) (ret ()) else ret ()))"

definition torrent_row :: "torrent_info \<Rightarrow> ('z, unit) window" where
  "torrent_row t =
     (let g = ti_general t in
      if gi_down_dest g \<noteq> [] then
        (if d_less (Finite 0) (torrent_length g) then
           insertNewRow (gi_torrent_name g) (torrent_length g) 0 (Finite 0) 0 0 (gi_dlStatus g) (gi_magnet_uri g)
             (gi_down_dest g) (gi_unique_id g) Torrent
         else show_box (Warning ''Content length for the below torrent is either zero or negative!''))
      else show_box (Warning ''The torrent below has no download destination!''))"

definition readFromHistoryFile :: "('z, unit) window" where
  "readFromHistoryFile =
     bindp readCurlItems (\<lambda>dl_history.
     bindp (readTorrentItems True) (\<lambda>gk_torrent_history.
     bindp (modelp (removeRows 0 (int (length dl_history)))) (\<lambda>_.
     seqp (each history_row dl_history) (each torrent_row gk_torrent_history))))"

text \<open>The first entry of the cache with the identifier goes; the types are all covered.\<close>

fun remove_first :: "('a \<Rightarrow> bool) \<Rightarrow> 'a list \<Rightarrow> 'a list" where
  "remove_first P [] = []"
| "remove_first P (x # xs) = (if P x then xs else x # remove_first P xs)"

definition removeSelRows :: "('z, unit) window" where
  "removeSelRows =
     bindp (getp (\<lambda>w. int (length (g_selected w)))) (\<lambda>countRow.
     with_selection (\<lambda>row.
       with_warning
         (bindp (view_text row MN_DESTINATION_COL) (\<lambda>file_dest.
          bindp (view_text row MN_HIDDEN_UNIQUE_ID) (\<lambda>sel_row_unique_id.
          bindp (getp (\<lambda>w. find (\<lambda>d. di_unique_id d = sel_row_unique_id) (g_cache w))) (\<lambda>item.
          seqp (case item of
                  None \<Rightarrow> ret ()
                | Some d \<Rightarrow>
                    seqp (if is_http (di_dl_type d) then seqp (delCurlItem file_dest []) (ret ())
                          else seqp (delTorrentItem (di_unique_id d)) (ret ()))
                      (modifyp (\<lambda>w. w\<lparr>g_cache := remove_first (\<lambda>d. di_unique_id d = sel_row_unique_id) (g_cache w)\<rparr>)))
            (bindp (modelp (removeRows row countRow)) (\<lambda>_. ret ())))))) ()))"

definition reset_row :: "nat \<Rightarrow> bool \<Rightarrow> ('z, bool + unit) window" where
  "reset_row i alreadyMentioned =
     bindp (getp (\<lambda>w. is_valid (model_index_at (g_model w) (int i) MN_STATUS_COL))) (\<lambda>valid.
         if valid then
           bindp (view_text (int i) MN_STATUS_COL) (\<lambda>stat_string.
           if stat_string = convDlStat_toString Downloading then
             bindp (view_text (int i) MN_DESTINATION_COL) (\<lambda>file_dest_string.
             bindp (view_text (int i) MN_HIDDEN_UNIQUE_ID) (\<lambda>unique_id_string.
             bindp (getp g_cache) (\<lambda>cache.
             with_warning
               (bindp (for_each (\<lambda>item alreadyMentioned.
                   if di_unique_id item = unique_id_string then
                     bindp (if is_http (di_dl_type item) then modify_status file_dest_string Paused
                            else modifyTorrentItem (di_unique_id item) Stopped) (\<lambda>ret_state.
                     bindp (update_col (int i) MN_STATUS_COL
                              (convDlStat_toString (if is_http (di_dl_type item) then Paused else Stopped))) (\<lambda>ret_update_col.
                     if (\<not> ret_state \<or> \<not> ret_update_col) \<and> \<not> alreadyMentioned
                     then seqp (show_box (Warning ''There has been an error at startup.'')) (ret (Inl True))
                     else ret (Inl alreadyMentioned)))
                   else ret (Inl alreadyMentioned)) cache alreadyMentioned) (\<lambda>r.
                case r of Inl m \<Rightarrow> ret (Inl m) | Inr () \<Rightarrow> ret (Inr ())))
               (Inr ()))))
           else ret (Inl alreadyMentioned))
         else ret (Inl alreadyMentioned))"

definition resetDlStateStartup :: "('z, unit) window" where
  "resetDlStateStartup =
     bindp (getp (\<lambda>w. length (getList (g_model w)))) (\<lambda>n.
     bindp (for_each reset_row [0..<n] False) (\<lambda>_. ret ()))"

end
