(* ===== verification/Window_Handlers.thy ===== *)
theory Window_Handlers
  imports Main_Window
begin

text \<open>
  The handlers of \<open>src/gui/mainwindow.cpp\<close> that start, stop, remove and show downloads, and the slots
  that take the figures and the ends of transfers. The signal \<open>updateDlStats\<close> is connected to the slot
  \<open>manageDlStats\<close> of the window itself, so emitting it is a call.
\<close>

section \<open>Starting downloads\<close>

definition FREE_DSK_SPACE_MULTIPLIER :: double where "FREE_DSK_SPACE_MULTIPLIER = Finite 3"

text \<open>The product of two 64-bit numbers, in 64 bits.\<close>

definition freeDiskSpace :: "(string \<Rightarrow> 64 word \<times> 64 word) \<Rightarrow> (string \<Rightarrow> string) \<Rightarrow> string \<Rightarrow> 64 word" where
  "freeDiskSpace statvfs remove_filename path =
     (case statvfs (remove_filename path) of (f_bavail, f_bsize) \<Rightarrow> f_bavail * f_bsize)"

definition startHttpDownload :: "string \<Rightarrow> string \<Rightarrow> bool \<Rightarrow> ('z, unit) window" where
  "startHttpDownload file_dest unique_id resumeDl =
     with_selection (\<lambda>row.
       bindp (view_text row MN_URL_COL) (\<lambda>url.
       bindp (view_text row MN_STATUS_COL) (\<lambda>stat.
       let status = convDlStat_StringToEnum stat
       in with_warning
            (bindp (getp (\<lambda>w. \<exists>d \<in> set (g_cache w). di_unique_id d = unique_id \<and> is_http (di_dl_type d))) (\<lambda>known.
             if known \<and> status \<noteq> Downloading then
               bindp (getp g_lib) (\<lambda>lib.
               let free = d_of_int (uint (freeDiskSpace (gl_statvfs lib) (gl_remove_filename lib) (gl_absolute_path lib file_dest)))
               in bindp (liftp (curlGrabInfo (gl_easy_ok lib) (gl_network lib) url)) (\<lambda>extended_info.
                  if d_less (d_mul (ce_content_length extended_info) FREE_DSK_SPACE_MULTIPLIER) free then
                    bindp (modify_status file_dest Downloading) (\<lambda>_.
                    bindp (update_col row MN_STATUS_COL (convDlStat_toString Downloading)) (\<lambda>_.
                    seqp (connect Stats_to_window)
                    (seqp (connect Finished_to_window)
                      (emit_gui (Send_start_download url file_dest resumeDl)))))
                  else raise (Runtime_error ''Not enough free disk space!'')))
             else ret ())) ())))"

text \<open>\<open>indexes.at(0)\<close> is read without looking whether there is a selection.\<close>

definition startTorrentDl :: "string \<Rightarrow> ('z, unit) window" where
  "startTorrentDl unique_id =
     bindp (getp g_selected) (\<lambda>indexes.
     if indexes = [] then undefinedp
     else
       let row = mi_row (hd indexes)
       in bindp (readTorrentItems False) (\<lambda>gk_ti.
          case find (\<lambda>t. gi_unique_id (ti_general t) = unique_id) gk_ti of
            None \<Rightarrow> ret ()
          | Some indice \<Rightarrow>
              seqp (connect Torrent_stats_to_window)
              (seqp (emit_gui (Start_torrent indice))
              (bindp (modifyTorrentItem unique_id Downloading) (\<lambda>_.
               bindp (update_col row MN_STATUS_COL (convDlStat_toString Downloading)) (\<lambda>_. ret ()))))))"

definition path_exists :: "'z gui_scheme \<Rightarrow> string \<Rightarrow> bool" where
  "path_exists w p = fd_exists (h_disk w p)"

definition is_regular_file :: "'z gui_scheme \<Rightarrow> string \<Rightarrow> bool" where
  "is_regular_file w p = (fd_exists (h_disk w p) \<and> \<not> fd_is_directory (h_disk w p))"

text \<open>\<open>fs::remove\<close>; its failure is thrown as a C string, which no handler catches.\<close>

definition remove_file :: "string \<Rightarrow> ('z, unit) window" where
  "remove_file p = (\<lambda>w.
     if gl_removable (g_lib w) p
     then ret () (w\<lparr>h_disk := (h_disk w)(p := (h_disk w p)\<lparr>fd_exists := False, fd_bytes := []\<rparr>)\<rparr>)
     else raise (Thrown_string ''system'') w)"

definition askDeleteHttpItem :: "string \<Rightarrow> string \<Rightarrow> bool \<Rightarrow> ('z, bool) window" where
  "askDeleteHttpItem file_dest unique_id noRestart =
     bindp (getp (\<lambda>w. path_exists w file_dest)) (\<lambda>exists.
     if exists then
       bindp (ask (Information (if noRestart then ''Do you want to erase the file?''
                else ''Do you want to erase the file and then restart the download?''))) (\<lambda>ret_button.
       if ret_button = Yes then
         with_warning
           (seqp (remove_file file_dest)
            (seqp (if \<not> noRestart then startHttpDownload file_dest unique_id False else ret ())
              (ret True))) False
       else ret False)
     else ret False)"

section \<open>The buttons\<close>

definition readd_box :: message_box where
  "readd_box = Warning ''Please delete the download before re-adding the information once more!''"

text \<open>All entries of the cache with the identifier are worked on, until one returns.\<close>

definition halt_entry :: "int \<Rightarrow> string \<Rightarrow> string \<Rightarrow> download_status \<Rightarrow> download_info \<Rightarrow> ('z, unit + unit) window" where
  "halt_entry row dest unique_id status d =
     (if di_unique_id d = unique_id then
        (if is_http (di_dl_type d) then
           (if status \<noteq> Stopped \<and> status \<noteq> Completed then
              (if status \<noteq> Failed then
                 (if status \<noteq> Invalid then
                    seqp (connect Stop_to_multi)
                    (seqp (emit_gui (Send_stop_download dest))
                    (bindp (modify_status dest Stopped) (\<lambda>_.
                     bindp (update_col row MN_STATUS_COL (convDlStat_toString Stopped)) (\<lambda>_.
                     bindp (askDeleteHttpItem dest unique_id True) (\<lambda>_. ret (Inl ()))))))
                  else ret (Inl ()))
               else seqp (show_box readd_box) (ret (Inr ())))
            else ret (Inl ()))
         else if di_dl_type d = Torrent then ret (Inr ())
         else ret (Inl ()))
      else ret (Inl ()))"

definition haltDownload :: "('z, unit) window" where
  "haltDownload =
     with_selection (\<lambda>row.
       with_warning
         (bindp (view_text row MN_URL_COL) (\<lambda>url.
          bindp (view_text row MN_DESTINATION_COL) (\<lambda>dest.
          bindp (view_text row MN_HIDDEN_UNIQUE_ID) (\<lambda>unique_id.
          bindp (view_text row MN_STATUS_COL) (\<lambda>stat.
          bindp (getp g_cache) (\<lambda>cache.
          bindp (for_each (\<lambda>d _. halt_entry row dest unique_id (convDlStat_StringToEnum stat) d) cache ()) (\<lambda>_.
          ret ()))))))) ())"

definition resume_http :: "string \<Rightarrow> string \<Rightarrow> download_status \<Rightarrow> ('z, unit) window" where
  "resume_http dest unique_id status =
     (if status = Paused then
        bindp (getp (\<lambda>w. is_regular_file w dest)) (\<lambda>there. startHttpDownload dest unique_id there)
      else if status = Unknown \<or> status = Stopped then
        bindp (getp (\<lambda>w. is_regular_file w dest)) (\<lambda>there.
        if there then
          bindp (ask (Information ''A pre-existing file with the same name has been detected.'')) (\<lambda>ret_button.
          if ret_button = Yes then startHttpDownload dest unique_id True
          else if ret_button = No then
            bindp (getp (\<lambda>w. is_regular_file w dest)) (\<lambda>there.
            if there then seqp (remove_file dest) (startHttpDownload dest unique_id False)
            else raise (Runtime_error ''Error with deleting file and/or starting download!''))
          else ret ())
        else startHttpDownload dest unique_id False)
      else show_box readd_box)"

text \<open>After an exception the loop goes on; every other way through an HTTP or a torrent entry returns.\<close>

definition resumeDownload :: "('z, unit) window" where
  "resumeDownload =
     with_selection (\<lambda>row.
       bindp (view_text row MN_DESTINATION_COL) (\<lambda>dest.
       bindp (view_text row MN_STATUS_COL) (\<lambda>stat.
       let status = convDlStat_StringToEnum stat
       in bindp (getp g_cache) (\<lambda>cache.
          bindp (for_each (\<lambda>d _.
            bindp (view_text row MN_HIDDEN_UNIQUE_ID) (\<lambda>unique_id.
            if di_unique_id d = unique_id then
              (if is_http (di_dl_type d) then
                 with_warning (seqp (resume_http dest unique_id status) (ret (Inr ()))) (Inl ())
               else seqp (startTorrentDl (di_unique_id d)) (ret (Inr ())))
            else ret (Inl ()))) cache ()) (\<lambda>_. ret ())))))"

definition pauseDownload :: "('z, unit) window" where
  "pauseDownload =
     with_selection (\<lambda>row.
       with_warning
         (bindp (view_text row MN_URL_COL) (\<lambda>url.
          bindp (view_text row MN_DESTINATION_COL) (\<lambda>dest.
          bindp (view_text row MN_HIDDEN_UNIQUE_ID) (\<lambda>unique_id.
          bindp (view_text row MN_STATUS_COL) (\<lambda>stat.
          let status = convDlStat_StringToEnum stat
          in if status \<noteq> Paused then
               bindp (getp g_cache) (\<lambda>cache.
               bindp (for_each (\<lambda>d _.
                 if di_unique_id d = unique_id then
                   (if is_http (di_dl_type d) then
                      (if status \<noteq> Completed \<and> status \<noteq> Stopped \<and> status \<noteq> Failed \<and> status \<noteq> Invalid then
                         seqp (connect Stop_to_multi)
                         (seqp (emit_gui (Send_stop_download dest))
                         (bindp (modify_status dest Paused) (\<lambda>_.
                          bindp (update_col row MN_STATUS_COL (convDlStat_toString Paused)) (\<lambda>_. ret (Inl ())))))
                       else seqp (show_box readd_box) (ret (Inr ())))
                    else if di_dl_type d = Torrent then ret (Inr ())
                    else ret (Inl ()))
                 else ret (Inl ())) cache ()) (\<lambda>_. ret ()))
             else ret ()))))) ())"

definition restartDownload :: "('z, unit) window" where
  "restartDownload =
     with_selection (\<lambda>row.
       bindp (view_text row MN_DESTINATION_COL) (\<lambda>dest.
       bindp (view_text row MN_HIDDEN_UNIQUE_ID) (\<lambda>unique_id.
       bindp (view_text row MN_STATUS_COL) (\<lambda>stat.
       let status = convDlStat_StringToEnum stat
       in bindp (getp g_cache) (\<lambda>cache.
          bindp (for_each (\<lambda>d _.
            if di_unique_id d = unique_id then
              (if is_http (di_dl_type d) then
                 (if status \<noteq> Invalid \<and> status \<noteq> Failed then
                    bindp (ask (Information ''Are you sure you wish to restart the download?'')) (\<lambda>ret_button.
                    if ret_button = Yes then
                      with_warning
                        (bindp (getp (\<lambda>w. is_regular_file w dest)) (\<lambda>there.
                         if there then seqp (remove_file dest) (seqp (startHttpDownload dest unique_id False) (ret (Inr ())))
                         else raise (Runtime_error ''Error with deleting file and/or starting download!''))) (Inr ())
                    else ret (Inr ()))
                  else ret (Inl ()))
               else if di_dl_type d = Torrent then ret (Inr ())
               else ret (Inl ()))
            else ret (Inl ())) cache ()) (\<lambda>_. ret ()))))))"

text \<open>\<open>clearOldHistory\<close> collects the completed rows, works off the database, and removes the rows from
  the last to the first; an exception returns before the rows are removed. The cache keeps the entries.\<close>

definition clear_row :: "nat \<Rightarrow> model_index list \<Rightarrow> ('z, model_index list + unit) window" where
  "clear_row i indexes =
     bindp (getp (\<lambda>w. model_index_at (g_model w) (int i) MN_STATUS_COL)) (\<lambda>find_index.
     bindp (view_text (int i) MN_STATUS_COL) (\<lambda>stat_string.
     if stat_string = convDlStat_toString Completed then
       bindp (view_text (int i) MN_DESTINATION_COL) (\<lambda>file_dest_string.
       with_warning
         (bindp (getp (\<lambda>w. is_regular_file w file_dest_string)) (\<lambda>there.
          if there then seqp (delCurlItem file_dest_string []) (ret (Inl (indexes @ [find_index])))
          else
            bindp (view_text (int i) MN_HIDDEN_UNIQUE_ID) (\<lambda>serial_col_string.
            seqp (delTorrentItem serial_col_string) (ret (Inl (indexes @ [find_index])))))) (Inr ()))
     else ret (Inl indexes)))"

definition clearOldHistory :: "('z, unit) window" where
  "clearOldHistory =
     bindp (ask (Information ''Are you sure about clearing all completed downloads?'')) (\<lambda>ret_button.
     if ret_button = Apply then
       bindp (getp (\<lambda>w. length (getList (g_model w)))) (\<lambda>n.
       bindp (for_each clear_row [0..<n] []) (\<lambda>r.
       case r of
         Inr () \<Rightarrow> ret ()
       | Inl indexes \<Rightarrow> each (\<lambda>i. bindp (modelp (removeRows (mi_row i) 1)) (\<lambda>_. ret ())) (rev indexes)))
     else ret ())"

end
