(* ===== verification/Window_Stats.thy ===== *)
theory Window_Stats
  imports Window_Handlers
begin

text \<open>
  The rest of \<open>src/gui/mainwindow.cpp\<close>: the details of the selected download, the statistics that
  transfers send, the end of a transfer, and new downloads from the dialogue.
\<close>

section \<open>Details\<close>

definition or_NA :: "bool \<Rightarrow> string \<Rightarrow> string" where
  "or_NA there s = (if there then s else ''N/A'')"

record details =
  dt_insert_time :: int
  dt_complt_time :: int
  dt_content_length :: double
  dt_hash_val_given :: string
  dt_hash_val_calc :: string
  dt_hashType :: string

definition no_details :: details where
  "no_details = \<lparr>dt_insert_time = 0, dt_complt_time = 0, dt_content_length = Finite 0,
     dt_hash_val_given = [], dt_hash_val_calc = [], dt_hashType = []\<rparr>"

text \<open>The loop over the cache leaves with the first HTTP entry and goes on after a torrent.\<close>

fun find_details :: "string \<Rightarrow> download_info list \<Rightarrow> details \<Rightarrow> details" where
  "find_details unique_id [] t = t"
| "find_details unique_id (d # ds) t =
     (if di_unique_id d = unique_id then
        (if is_http (di_dl_type d) then
           (case di_curl_info d of
              None \<Rightarrow> t
            | Some c \<Rightarrow> \<lparr>dt_insert_time = cd_insert_timestamp c, dt_complt_time = cd_complt_timestamp c,
                dt_content_length = ce_content_length (cd_ext_info c), dt_hash_val_given = cd_hash_val_given c,
                dt_hash_val_calc = cd_hash_val_rtrnd c, dt_hashType = convHashType_toString (cd_hash_type c)\<rparr>)
         else
           find_details unique_id ds
             (case di_to_info d of
                None \<Rightarrow> t
              | Some i \<Rightarrow> \<lparr>dt_insert_time = gi_insert_timestamp (ti_general i),
                  dt_complt_time = gi_complt_timestamp (ti_general i),
                  dt_content_length = torrent_length (ti_general i), dt_hash_val_given = ''N/A'',
                  dt_hash_val_calc = ''N/A'', dt_hashType = ''Unknown''\<rparr>))
      else find_details unique_id ds t)"

text \<open>What was downloaded and how fast, from the last statistic of the first entry with the path.\<close>

definition current_figures :: "string \<Rightarrow> download_info list \<Rightarrow> double \<times> double" where
  "current_figures dest cache =
     (case find (\<lambda>d. di_dl_dest d = dest) cache of
        Some d \<Rightarrow>
          if gs_xfer_stats (di_stats d) \<noteq> [] then
            let x = last (gs_xfer_stats (di_stats d)) in (d_of_int (gx_download_total x), gx_download_rate x)
          else (Finite 0, Finite 0)
      | None \<Rightarrow> (Finite 0, Finite 0))"

definition general_extraDetails :: "('z, unit) window" where
  "general_extraDetails =
     with_selection (\<lambda>row.
       bindp (view_text row MN_URL_COL) (\<lambda>url_string.
       bindp (view_text row MN_DESTINATION_COL) (\<lambda>dest_string.
       bindp (view_text row MN_FILESIZE_COL) (\<lambda>size_string.
       bindp (view_text row MN_HIDDEN_UNIQUE_ID) (\<lambda>unique_id_string.
       bindp (getp g_lib) (\<lambda>lib.
       bindp (getp g_cache) (\<lambda>cache.
       let t = find_details unique_id_string cache no_details;
           (curr_dl_amount, curr_dl_speed) = current_figures dest_string cache
       in each (\<lambda>(l, s). set_label l s)
            [(FileNameData, gl_file_name lib url_string),
             (DestData, gl_remove_filename lib dest_string),
             (TotSizeData, size_string),
             (UrlData, url_string),
             (EstWaitTimeData,
                if \<not> d_eq curr_dl_amount (Finite 0)
                then timeBeautify (estimatedTimeLeft (dt_content_length t) curr_dl_amount curr_dl_speed) else ''N/A''),
             (HashTypeData, dt_hashType t),
             (CreateTimeData, or_NA (0 < dt_insert_time t) (gl_date_text lib (dt_insert_time t mod 2 ^ 32))),
             (CompTimeData, or_NA (0 < dt_complt_time t) (gl_date_text lib (dt_complt_time t mod 2 ^ 32))),
             (GivenHashData, or_NA (dt_hash_val_given t \<noteq> []) (dt_hash_val_given t)),
             (CalcHashData, or_NA (dt_hash_val_calc t \<noteq> []) (dt_hash_val_calc t))])))))))"

definition transfer_extraDetails :: "('z, unit) window" where
  "transfer_extraDetails = with_selection (\<lambda>row. bindp (view_text row MN_URL_COL) (\<lambda>_. ret ()))"

definition contentsView_update :: "('z, unit) window" where
  "contentsView_update =
     with_selection (\<lambda>row.
       bindp (view_text row MN_HIDDEN_UNIQUE_ID) (\<lambda>unique_id.
       bindp (getp g_cache) (\<lambda>cache.
       each (\<lambda>d.
         if di_unique_id d = unique_id then
           (if is_torrent (di_dl_type d) then
              catchp
                (bindp (readTorrentItems False) (\<lambda>gk_ti.
                 bindp (getp g_lib) (\<lambda>lib.
                 each (\<lambda>t.
                   if gi_unique_id (ti_general t) = unique_id then
                     modifyp (\<lambda>w. w\<lparr>g_contents := Some (contents_tree (gl_paths lib) (map tf_file_path (ti_files_vec t)))\<rparr>)
                   else ret ()) gk_ti)))
                (\<lambda>e. if std_exception e then
                       seqp (show_box (Warning ''Aborting...'')) (modifyp (\<lambda>w. w\<lparr>g_exit := Some (- 1)\<rparr>))
                     else raise e)
            else modifyp (\<lambda>w. w\<lparr>g_contents := None\<rparr>))
         else ret ()) cache)))"

text \<open>\<open>selectRow\<close> ignores a row that is not there.\<close>

definition select_row :: "int \<Rightarrow> ('z, unit) window" where
  "select_row row = modifyp (\<lambda>w. if 0 \<le> row \<and> row < rowCount (g_model w)
     then w\<lparr>g_selected := [\<lparr>mi_row = row, mi_column = 0\<rparr>]\<rparr> else w)"

definition show_details :: "('z, unit) window" where
  "show_details = seqp general_extraDetails (seqp transfer_extraDetails contentsView_update)"

text \<open>Both slots read \<open>indexes.at(0)\<close> before they look whether there is one.\<close>

definition key_slot :: "int \<Rightarrow> ('z, unit) window" where
  "key_slot step =
     bindp (getp g_selected) (\<lambda>indexes.
     if indexes = [] then undefinedp
     else if is_valid (hd indexes) then seqp (select_row (mi_row (hd indexes) + step)) show_details
     else ret ())"

definition keyUpDlModelSlot :: "('z, unit) window" where
  "keyUpDlModelSlot = key_slot (- 1)"

definition keyDownDlModelSlot :: "('z, unit) window" where
  "keyDownDlModelSlot = key_slot 1"

section \<open>Statistics\<close>

text \<open>\<open>long\<close> division truncates.\<close>

definition progress_percent :: "int \<Rightarrow> int" where
  "progress_percent ppm = (if 0 \<le> ppm then ppm div 1000000 else - (- ppm div 1000000)) * 100"

definition set_cache :: "nat \<Rightarrow> download_info \<Rightarrow> ('z, unit) window" where
  "set_cache j d = modifyp (\<lambda>w. w\<lparr>g_cache := (g_cache w)[j := d]\<rparr>)"

definition entry_figures :: "nat \<Rightarrow> nat \<Rightarrow> download_info \<Rightarrow> ('z, unit) window" where
  "entry_figures i j d =
       bindp (getp g_lib) (\<lambda>lib.
       let x = last (gs_xfer_stats (di_stats d));
           dl_bps = numberConverter (gl_locale_text lib) (gx_download_rate x) @ ''/sec'';
           ul_bps = (case gx_upload_rate x of Some r \<Rightarrow> numberConverter (gl_locale_text lib) r | None \<Rightarrow> ''0'') @ ''/sec''
       in
         bindp (if is_torrent (di_dl_type d) then
                  update_col (int i) MN_PROGRESS_COL (show_g 6 (d_of_int (progress_percent (gx_progress_ppm x))))
                else
                  bindp (getFileSize (di_dl_dest d)) (\<lambda>cur_file_size.
                  update_col (int i) MN_PROGRESS_COL (gl_variant_text lib
                    (percentDownloaded (gs_content_length (di_stats d)) (d_of_int cur_file_size))))) (\<lambda>_.
         bindp (update_col (int i) MN_DOWNSPEED_COL dl_bps) (\<lambda>_.
         bindp (update_col (int i) MN_UPSPEED_COL ul_bps) (\<lambda>_.
         bindp (update_col (int i) MN_DOWNLOADED_COL (numberConverter (gl_locale_text lib) (d_of_int (gx_download_total x)))) (\<lambda>_.
         seqp (case gx_cur_time x of
                 None \<Rightarrow> ret ()
               | Some t \<Rightarrow>
                   if gs_timer_begin (di_stats d) = 0 then raise (Invalid_argument ''An invalid timer value has been given!'')
                   else set_cache j (d\<lparr>di_down_speed_vals := di_down_speed_vals d @
                          [(gx_download_rate x, d_of_int (t - gs_timer_begin (di_stats d)))]\<rparr>))
         (seqp general_extraDetails transfer_extraDetails))))))"

definition manage_entry :: "nat \<Rightarrow> string \<Rightarrow> nat \<Rightarrow> ('z, unit) window" where
  "manage_entry i unique_id_string j =
     bindp (getp (\<lambda>w. g_cache w ! j)) (\<lambda>d.
     if 1 < length (gs_xfer_stats (di_stats d)) \<and> unique_id_string = di_unique_id d then entry_figures i j d
     else ret ())"

definition manageDlStats :: "('z, unit) window" where
  "manageDlStats =
     with_warning
       (bindp (getp (\<lambda>w. (length (getList (g_model w)), length (g_cache w)))) (\<lambda>(n, c).
        each (\<lambda>i.
          bindp (view_text (int i) MN_DESTINATION_COL) (\<lambda>dest_string.
          bindp (view_text (int i) MN_HIDDEN_UNIQUE_ID) (\<lambda>unique_id_string.
          each (manage_entry i unique_id_string) [0..<c]))) [0..<n])) ()"

text \<open>The first entry that the predicate holds of gets a statistic; the first one starts its timer.\<close>

fun find_index :: "('a \<Rightarrow> bool) \<Rightarrow> 'a list \<Rightarrow> nat option" where
  "find_index P [] = None"
| "find_index P (x # xs) = (if P x then Some 0 else map_option Suc (find_index P xs))"

definition add_stats :: "int \<Rightarrow> gk_xfer_stats \<Rightarrow> download_info \<Rightarrow> download_info" where
  "add_stats now x d =
     (let s = di_stats d;
          s = (if gs_timer_begin s = 0 then s\<lparr>gs_timer_begin := now\<rparr> else s)
      in d\<lparr>di_stats := s\<lparr>gs_xfer_stats := gs_xfer_stats s @ [x]\<rparr>\<rparr>)"

definition recvCurl_XferStats :: "curl_progress \<Rightarrow> ('z, unit) window" where
  "recvCurl_XferStats info =
     (if cp_stat info = [] then undefinedp
      else
        let b = last (cp_stat info)
        in bindp (getp (\<lambda>w. \<lparr>gx_upload_rate = Some (cs_upnow b), gx_download_rate = cs_dlnow b,
                   gx_progress_ppm = w_garbage_int w, gx_download_total = cs_dltotal b,
                   gx_upload_total = Some (cs_uptotal b), gx_num_pieces_dled = None, gx_cur_time = Some (w_now w)\<rparr>)) (\<lambda>stats_temp.
           bindp (getp (\<lambda>w. find_index (\<lambda>d. is_http (di_dl_type d) \<and> di_dl_dest d = cp_file_dest info) (g_cache w))) (\<lambda>r.
           case r of
             None \<Rightarrow> ret ()
           | Some i \<Rightarrow>
               seqp (modifyp (\<lambda>w. w\<lparr>g_cache := (g_cache w)[i := add_stats (w_now w) stats_temp (g_cache w ! i)]\<rparr>))
                 manageDlStats)))"

text \<open>\<open>boost::optional::value\<close> throws on an empty optional, before the signal is emitted.\<close>

definition recvBitTorrent_XferStats :: "torrent_resume_info \<Rightarrow> ('z, unit) window" where
  "recvBitTorrent_XferStats gk_xfer_info =
     (case tr_xfer_stats gk_xfer_info of
        None \<Rightarrow> raise (Runtime_error ''bad_optional_access'')
      | Some x \<Rightarrow>
          bindp (getp (\<lambda>w. \<lparr>gx_upload_rate = Some (d_of_int (tx_ul_rate x)), gx_download_rate = d_of_int (tx_dl_rate x),
            gx_progress_ppm = tx_progress_ppm x, gx_download_total = tr_total_downloaded gk_xfer_info,
            gx_upload_total = Some (tr_total_uploaded gk_xfer_info),
            gx_num_pieces_dled = Some (tx_num_pieces_downloaded x), gx_cur_time = Some (w_now w)\<rparr>)) (\<lambda>stats_temp.
          bindp (getp (\<lambda>w. find_index (\<lambda>d. is_torrent (di_dl_type d) \<and> di_dl_dest d = tr_save_path gk_xfer_info) (g_cache w))) (\<lambda>r.
          case r of
            None \<Rightarrow> ret ()
          | Some i \<Rightarrow>
              seqp (modifyp (\<lambda>w. w\<lparr>g_cache := (g_cache w)[i := add_stats (w_now w) stats_temp (g_cache w ! i)]\<rparr>))
              (bindp (getp (\<lambda>w. g_cache w ! i)) (\<lambda>d.
               case di_to_info d of
                 None \<Rightarrow> raise (Runtime_error ''bad_optional_access'')
               | Some t \<Rightarrow>
                   seqp (set_cache i (d\<lparr>di_to_info := Some (t\<lparr>ti_resume_info := Some gk_xfer_info\<rparr>)\<rparr>))
                     manageDlStats)))))"

section \<open>The end of a transfer\<close>

definition hash_of_download :: "dl_status_msg \<Rightarrow> curl_dl_info list \<Rightarrow> ('z, file_hash) window" where
  "hash_of_download status items =
     (case find (\<lambda>d. cd_file_loc d = dm_file_loc status) items of
        None \<Rightarrow> getp g_garbage_hash
      | Some d \<Rightarrow>
          bindp (getp (\<lambda>w.
            let f = h_disk w (dm_file_loc status); lib = g_lib w
            in if cd_hash_type d = CannotDetermine \<or> cd_hash_type d = HashNone
               then cryptoFileHash (gl_digest lib) (gl_reads lib (dm_file_loc status)) f SHA1 []
               else cryptoFileHash (gl_digest lib) (gl_reads lib (dm_file_loc status)) f (cd_hash_type d) (cd_hash_val_given d)))
            liftp)"

text \<open>The checksum goes into the parameter \<open>hash_given\<close>; \<open>hash_rtrnd\<close> and \<open>ret_succ_type\<close> keep their defaults.\<close>

definition finish_row :: "dl_status_msg \<Rightarrow> nat \<Rightarrow> ('z, unit + unit) window" where
  "finish_row status i =
     bindp (view_text (int i) MN_URL_COL) (\<lambda>url.
     bindp (view_text (int i) MN_DESTINATION_COL) (\<lambda>dest.
     if dest = dm_file_loc status then
       bindp (view_text (int i) MN_STATUS_COL) (\<lambda>stat.
       if convDlStat_StringToEnum stat = Downloading then
         bindp readCurlItems (\<lambda>items.
         bindp (hash_of_download status items) (\<lambda>file_hash.
         bindp (getp w_now) (\<lambda>now.
         bindp (modifyCurlItem (dm_file_loc status) Completed now (fh_checksum file_hash)
                  (fh_hash_type file_hash) [] NotApplicable) (\<lambda>_.
         bindp (update_col (int i) MN_STATUS_COL (convDlStat_toString Completed)) (\<lambda>_.
         bindp (getp (\<lambda>w. gl_locale_text (g_lib w))) (\<lambda>locale_text.
         bindp (update_col (int i) MN_DOWNLOADED_COL (numberConverter locale_text (dm_content_len status))) (\<lambda>_.
         ret (Inr ()))))))))
       else ret (Inl ()))
     else ret (Inl ())))"

definition recvDlFinished :: "dl_status_msg \<Rightarrow> ('z, unit) window" where
  "recvDlFinished status =
     catchp
       (bindp (getp (\<lambda>w. length (getList (g_model w)))) (\<lambda>n.
        bindp (for_each (\<lambda>i _. finish_row status i) [0..<n] ()) (\<lambda>_. ret ())))
       (\<lambda>e. if std_exception e then
              seqp (show_box (Warning ''Aborting...'')) (modifyp (\<lambda>w. w\<lparr>g_exit := Some (- 1)\<rparr>))
            else raise e)"

section \<open>New downloads\<close>

text \<open>The row and the cache entry are made before the item is stored.\<close>

definition sendDetails :: "string \<Rightarrow> double \<Rightarrow> int \<Rightarrow> double \<Rightarrow> int \<Rightarrow> int \<Rightarrow> download_status \<Rightarrow> string \<Rightarrow> string \<Rightarrow>
    hash_type \<Rightarrow> string \<Rightarrow> int \<Rightarrow> bool \<Rightarrow> string \<Rightarrow> string \<Rightarrow> download_type \<Rightarrow> ('z, unit) window" where
  "sendDetails fileName fileSize downloaded progress upSpeed downSpeed status url destination hash_type hash_val
       resp_code stat_ok stat_msg unique_id down_type =
     bindp (getp (\<lambda>w. getList (g_model w))) (\<lambda>rows.
     if (if is_http down_type then destination else url) \<in> \<Union> (set ` set rows) then
       show_box (Information ''There has been an attempt at a duplicate entry!'')
     else
       seqp (insertNewRow fileName fileSize downloaded progress upSpeed downSpeed status url destination unique_id down_type)
        (if is_http down_type then
           bindp (getp (\<lambda>w. (w_garbage_int w, h_garbage_double w, fh_hash_verif (g_garbage_hash w)))) (\<lambda>(n, x, v).
           bindp (addCurlItem
             \<lparr>cd_file_loc = destination, cd_insert_timestamp = 0, cd_complt_timestamp = n, cd_dlStatus = status,
              cd_ext_info = \<lparr>ce_status_ok = stat_ok, ce_status_msg = stat_msg, ce_response_code = resp_code,
                ce_elapsed = x, ce_effective_url = url, ce_content_length = fileSize\<rparr>,
              cd_unique_id = unique_id, cd_hash_type = hash_type, cd_hash_val_given = hash_val,
              cd_hash_val_rtrnd = [], cd_hash_succ_type = v\<rparr>) (\<lambda>_. ret ()))
         else ret ()))"

end
