(* ===== verification/Window_Facts.thy ===== *)
theory Window_Facts
  imports Window_Stats
begin

text \<open>
  What the handlers of the window rest on: the operations on the history leave the window's own
  state alone and the window's changes leave the history alone, the cells of a table of full rows,
  and what a new row and a new entry of the cache hold.
\<close>

named_theorems window_frame \<open>what a change of the window's state leaves alone\<close>

section \<open>The database under the window\<close>

text \<open>The operations on the history keep the environment, and with it all the window adds.\<close>

lemma env_try_lock: "preserves same_env m \<Longrightarrow> preserves same_env n \<Longrightarrow> preserves same_env (try_lock l m n)"
  unfolding try_lock_def by (intro env.keeps)

lemma env_warning: "preserves same_env m \<Longrightarrow> preserves same_env (with_warning m a)"
  unfolding with_warning_def by (intro env.keeps env_keeps)

lemma env_modify: "preserves same_env (modifyCurlItem p s c g t h v)"
  unfolding modifyCurlItem_def Let_def add_items_def
  by (intro env_warning env_try_lock env.keeps env_keeps)

text \<open>The state the operations of the database look at.\<close>

definition same_store :: "'y world_scheme \<Rightarrow> 'z world_scheme \<Rightarrow> bool" where
  "same_store w w' \<longleftrightarrow> w_kv w' = w_kv w \<and> w_db_ok w' = w_db_ok w \<and> w_bucket_order w' = w_bucket_order w \<and>
     w_held w' = w_held w \<and> w_now w' = w_now w \<and> w_garbage w' = w_garbage w \<and> w_garbage_int w' = w_garbage_int w"

lemma same_world_store: "same_world w w' \<Longrightarrow> same_store w w'"
  by (simp add: same_world_def same_env_def same_store_def)

lemma same_store_trans [trans]: "same_store w w' \<Longrightarrow> same_store w' w'' \<Longrightarrow> same_store w w''"
  by (simp add: same_store_def)

lemma same_store_refl [simp]: "same_store w w"
  by (simp add: same_store_def)

lemma same_storeD:
  assumes "same_store w w'"
  shows "history w' es = history w es" "curl_items w' es = curl_items w es" "healthy w' = healthy w"
    "fair_order w' = fair_order w" "w_held w' = w_held w" "w_now w' = w_now w" "registered w' es = registered w es"
    "w_garbage w' = w_garbage w" "w_garbage_int w' = w_garbage_int w"
proof -
  have kv: "kv_get w' k = kv_get w k" for k using assms by (simp add: same_store_def kv_get_def)
  have it: "item_get w' i k = item_get w i k" for i k by (simp add: item_get_def kv)
  have g: "w_garbage w' = w_garbage w" using assms by (simp add: same_store_def)
  have d: "decoded_curl w' e = decoded_curl w e" for e by (cases e) (simp add: decoded_curl_def it g)
  show reg: "registered w' es = registered w es" by (simp add: registered_def registry_text_def kv)
  show "history w' es = history w es" by (simp add: history_def reg d)
  show "curl_items w' es = curl_items w es" by (simp add: curl_items_def d)
qed (use assms in \<open>simp_all add: same_store_def healthy_def fair_order_def\<close>)

lemma window_same_store [simp, window_frame]:
  "same_store w (w'\<lparr>g_model := m\<rparr>) = same_store w w'" "same_store w (w'\<lparr>g_cache := c\<rparr>) = same_store w w'"
  "same_store w (w'\<lparr>g_emitted := s\<rparr>) = same_store w w'" "same_store w (w'\<lparr>g_connections := k\<rparr>) = same_store w w'"
  by (simp_all add: same_store_def)

text \<open>Two states that differ in the parts of \<open>world\<close> only have the same window.\<close>

definition same_window :: "'z gui_scheme \<Rightarrow> 'z gui_scheme \<Rightarrow> bool" where
  "same_window w w' \<longleftrightarrow> world.more w' = world.more w"

lemma same_windowD:
  assumes "same_window w w'"
  shows "g_model w' = g_model w" "g_cache w' = g_cache w" "g_selected w' = g_selected w" "g_lib w' = g_lib w"
    "g_emitted w' = g_emitted w" "g_connections w' = g_connections w" "h_disk w' = h_disk w"
    "g_garbage_status w' = g_garbage_status w" "h_garbage_double w' = h_garbage_double w"
    "g_garbage_hash w' = g_garbage_hash w" "g_exit w' = g_exit w"
  using assms unfolding same_window_def by (cases w; cases w'; simp)+

lemma same_env_window: "same_env w w' \<Longrightarrow> same_window w w'"
  by (simp add: same_env_def same_window_def)

lemma same_world_window: "same_world w w' \<Longrightarrow> same_window w w'"
  by (simp add: same_world_def same_env_window)

text \<open>The same up to the table and the cache.\<close>

definition same_but_table :: "'z gui_scheme \<Rightarrow> 'z gui_scheme \<Rightarrow> bool" where
  "same_but_table w w' \<longleftrightarrow> same_window w (w'\<lparr>g_model := g_model w, g_cache := g_cache w\<rparr>)"

lemma same_but_tableD:
  assumes "same_but_table w w'"
  shows "g_selected w' = g_selected w" "g_lib w' = g_lib w" "g_emitted w' = g_emitted w"
    "g_connections w' = g_connections w" "h_disk w' = h_disk w" "g_garbage_status w' = g_garbage_status w"
    "h_garbage_double w' = h_garbage_double w" "g_garbage_hash w' = g_garbage_hash w" "g_exit w' = g_exit w"
  using assms unfolding same_but_table_def by (auto dest: same_windowD)

section \<open>Cells\<close>

lemma modelp_run: "m (g_model w) = (r, m') \<Longrightarrow> modelp m w = (r, w\<lparr>g_model := m'\<rparr>)"
  by (simp add: modelp_def)

lemma view_text_cell:
  assumes "full_rows (g_model w)" and "i < length (dv_rows (g_model w))" and "0 \<le> c" and "c < 12"
  shows "view_text (int i) c w = (Ok (cell_text (g_model w) (i, nat c)), w)"
proof -
  have "length (dv_rows (g_model w) ! i) = 12" using assms(1,2) by (simp add: full_rows_def)
  then show ?thesis
    using assms(2-4)
    by (simp add: view_text_def model_index_at_def rowCount_def columnCount_def MN_COL_COUNT_def model_data_def
        is_valid_def cell_text_def bindp_def)
qed

lemma update_col_cell:
  assumes "full_rows (g_model w)" and "i < length (dv_rows (g_model w))" and "0 \<le> c" and "c < 12"
  shows "update_col (int i) c x w = (Ok True, w\<lparr>g_model := put_cell (i, nat c) x (g_model w)\<rparr>)"
    and "full_rows (put_cell (i, nat c) x (g_model w))"
proof -
  have len: "length (dv_rows (g_model w) ! i) = 12" using assms(1,2) by (simp add: full_rows_def)
  then have "in_table (g_model w) (i, nat c)" using assms(2-4) by (simp add: in_table_def)
  note u = updateCol_full [OF assms(1) this, of x]
  show "full_rows (put_cell (i, nat c) x (g_model w))" by (rule u(2))
  show "update_col (int i) c x w = (Ok True, w\<lparr>g_model := put_cell (i, nat c) x (g_model w)\<rparr>)"
    using u(1) assms(2-4)
    by (simp add: update_col_def model_index_at_def rowCount_def columnCount_def MN_COL_COUNT_def modelp_def)
qed

text \<open>Filling the first row from a column on.\<close>

lemma set_cell_run:
  assumes "dv_rows (g_model w) = row # rows" and "length row = c" and "c < 12"
  shows "set_cell (int c, x) w = (Ok (), w\<lparr>g_model := \<lparr>dv_rows = (row @ [x]) # rows,
    dv_signals = dv_signals (g_model w) @ [DataChanged 0 (int c)]\<rparr>\<rparr>)"
proof -
  have "setData \<lparr>mi_row = int 0, mi_column = int c\<rparr> x DisplayRole (g_model w) =
    (Ok True, (g_model w)\<lparr>dv_rows := (dv_rows (g_model w))[0 := dv_rows (g_model w) ! 0 @ [x]],
       dv_signals := dv_signals (g_model w) @ [DataChanged (int 0) (int c)]\<rparr>)"
    by (rule setData_append) (use assms in auto)
  then show ?thesis
    using assms by (cases "g_model w")
      (simp add: set_cell_def model_index_at_def rowCount_def columnCount_def MN_COL_COUNT_def modelp_def bindp_def)
qed

lemma set_cells_run:
  "dv_rows (g_model w) = row # rows \<Longrightarrow> length row = c \<Longrightarrow> c + length xs \<le> 12 \<Longrightarrow>
     \<exists>sg. each set_cell (zip (map int [c..<c + length xs]) xs) w =
       (Ok (), w\<lparr>g_model := \<lparr>dv_rows = (row @ xs) # rows, dv_signals = sg\<rparr>\<rparr>)"
proof (induction xs arbitrary: w row c)
  case Nil
  then show ?case by (cases "g_model w") (intro exI [of _ "dv_signals (g_model w)"], simp)
next
  case (Cons x xs)
  let ?w = "w\<lparr>g_model := \<lparr>dv_rows = (row @ [x]) # rows, dv_signals = dv_signals (g_model w) @ [DataChanged 0 (int c)]\<rparr>\<rparr>"
  have c: "c < 12" using Cons.prems(3) by simp
  note s = set_cell_run [OF Cons.prems(1,2) c, of x]
  have "dv_rows (g_model ?w) = (row @ [x]) # rows" "length (row @ [x]) = Suc c" "Suc c + length xs \<le> 12"
    using Cons.prems by simp_all
  from Cons.IH [OF this] obtain sg where "each set_cell (zip (map int [Suc c..<Suc c + length xs]) xs) ?w =
      (Ok (), ?w\<lparr>g_model := \<lparr>dv_rows = ((row @ [x]) @ xs) # rows, dv_signals = sg\<rparr>\<rparr>)" by blast
  moreover have "zip (map int [c..<c + length (x # xs)]) (x # xs) =
      (int c, x) # zip (map int [Suc c..<Suc c + length xs]) xs"
    by (simp add: upt_conv_Cons del: upt_Suc)
  ultimately show ?case using s by (auto simp: seqp_Ok)
qed

lemma row_texts_columns:
  "row_texts lib a b c d e f g h i j = zip (map int [0..<0 + length (map snd (row_texts lib a b c d e f g h i j))])
     (map snd (row_texts lib a b c d e f g h i j))"
  by (simp add: row_texts_def column_numbers upt_rec)

lemma new_row_run:
  "\<exists>sg. bindp (modelp (insertRows 0 1)) (\<lambda>_. bindp (getp g_lib) (\<lambda>lib.
      seqp (each set_cell (row_texts lib a b c d e f g h i j)) m)) w =
    m (w\<lparr>g_model := \<lparr>dv_rows = map snd (row_texts (g_lib w) a b c d e f g h i j) # dv_rows (g_model w), dv_signals = sg\<rparr>\<rparr>)"
proof -
  define w1 where "w1 = w\<lparr>g_model := (g_model w)\<lparr>dv_rows := [] # dv_rows (g_model w),
    dv_signals := dv_signals (g_model w) @ [RowsInserted 0 0]\<rparr>\<rparr>"
  have i: "modelp (insertRows 0 1) w = (Ok True, w1)"
    by (simp add: modelp_def insertRows_def emit_signal_def list_insert_def w1_def)
  have l: "g_lib w1 = g_lib w" by (simp add: w1_def)
  let ?t = "map snd (row_texts (g_lib w) a b c d e f g h i j)"
  have "length ?t = 12" by (simp add: row_texts_def)
  then obtain sg where "each set_cell (zip (map int [0..<0 + length ?t]) ?t) w1 =
      (Ok (), w1\<lparr>g_model := \<lparr>dv_rows = ([] @ ?t) # dv_rows (g_model w), dv_signals = sg\<rparr>\<rparr>)"
    using set_cells_run [of w1 "[]" "dv_rows (g_model w)" 0 ?t] by (auto simp: w1_def)
  then have "each set_cell (row_texts (g_lib w) a b c d e f g h i j) w1 =
      (Ok (), w\<lparr>g_model := \<lparr>dv_rows = ?t # dv_rows (g_model w), dv_signals = sg\<rparr>\<rparr>)"
    unfolding row_texts_columns [symmetric] by (simp add: w1_def)
  then show ?thesis using i l by (auto simp: bindp_Ok seqp_Ok)
qed

section \<open>The entries of the cache\<close>

lemma find_permuted:
  assumes "distinct (map f xs)" and "mset xs = mset ys"
  shows "find (\<lambda>x. f x = a) xs = find (\<lambda>x. f x = a) ys"
proof -
  have d: "distinct (map f ys)" using assms by (metis mset_map mset_eq_imp_distinct_iff)
  have one: "find (\<lambda>x. f x = a) zs = Some z" if "distinct (map f zs)" "z \<in> set zs" "f z = a" for zs z
    using that by (induction zs) auto
  have s: "set xs = set ys" using assms(2) by (rule mset_eq_setD)
  show ?thesis
  proof (cases "\<exists>z \<in> set xs. f z = a")
    case True
    then obtain z where "z \<in> set xs" "f z = a" by blast
    then show ?thesis using one [OF assms(1)] one [OF d] s by simp
  next
    case False
    then have "find (\<lambda>x. f x = a) xs = None" "find (\<lambda>x. f x = a) ys = None" using s by (auto simp: find_None_iff)
    then show ?thesis by simp
  qed
qed

lemma curl_items_ids: "history w es \<Longrightarrow> map cd_unique_id (curl_items w es) = map fst (filter (\<lambda>(i, p, t). \<not> t) es)"
proof -
  assume h: "history w es"
  have "cd_unique_id (projr (decoded_curl w e)) = fst e" if "e \<in> set (filter (\<lambda>(i, p, t). \<not> t) es)" for e
  proof -
    obtain i p where e: "e = (i, p, False)" "(i, p, False) \<in> set es" using \<open>e \<in> _\<close> by auto
    then obtain d where "decoded_curl w e = Inr d" using historyD(5) [OF h] by blast
    then show ?thesis using decoded_curl_id e(1) by force
  qed
  then show ?thesis by (simp add: curl_items_def)
qed

lemma curl_items_distinct: "history w es \<Longrightarrow> distinct (map cd_unique_id (curl_items w es))"
  by (simp add: curl_items_ids historyD(2) distinct_map_filter)

text \<open>The entry \<open>initCharts\<close> makes for an HTTP or FTP download, from the items of the history.\<close>

definition http_entry :: "string \<Rightarrow> string \<Rightarrow> download_type \<Rightarrow> 'z gui_scheme \<Rightarrow> curl_dl_info list \<Rightarrow> download_info" where
  "http_entry unique_id down_dest ty w items =
     (let e = new_download_info unique_id down_dest ty (g_garbage_status w) (h_garbage_double w)
      in case find (\<lambda>d. cd_unique_id d = unique_id) items of
           None \<Rightarrow> e
         | Some d \<Rightarrow> e\<lparr>di_curl_info := Some d,
             di_stats := (di_stats e)\<lparr>gs_content_length := ce_content_length (cd_ext_info d)\<rparr>\<rparr>)"

lemma http_entry_id: "di_unique_id (http_entry i p ty w items) = i" "di_dl_dest (http_entry i p ty w items) = p"
  "di_dl_type (http_entry i p ty w items) = ty"
  by (simp_all add: http_entry_def new_download_info_def Let_def split: option.splits)

lemma initCharts_http:
  assumes "history w es" and "healthy w" and "fair_order w" and "\<not> w_held w R_curl"
    and "i \<noteq> []" and "i \<notin> di_unique_id ` set (g_cache w)" and "is_http ty"
  shows "\<exists>w1. same_world w w1 \<and> initCharts i p ty w =
    (Ok (), w1\<lparr>g_cache := g_cache w @ [http_entry i p ty w (curl_items w es)]\<rparr>)"
proof -
  obtain out w1 where r: "readCurlItems w = (Ok out, w1)" "mset out = mset (curl_items w es)" and s: "same_world w w1"
    using read_curl_history [OF assms(1-4)] by blast
  have "find (\<lambda>d. cd_unique_id d = i) out = find (\<lambda>d. cd_unique_id d = i) (curl_items w es)"
    using find_permuted [OF curl_items_distinct [OF assms(1)] r(2) [symmetric]] by simp
  moreover have "g_cache w1 = g_cache w" using same_windowD [OF same_world_window [OF s]] by simp
  ultimately have "initCharts i p ty w = (Ok (), w1\<lparr>g_cache := g_cache w @ [http_entry i p ty w (curl_items w es)]\<rparr>)"
    using assms(5-7) r(1)
    by (simp add: initCharts_def http_entry_def bindp_def Let_def split: option.split)
  with s show ?thesis by blast
qed

text \<open>A row for an HTTP or FTP download.\<close>

lemma insertNewRow_http:
  assumes "history w es" and "healthy w" and "fair_order w" and "\<not> w_held w R_curl"
    and "i \<noteq> []" and "i \<notin> di_unique_id ` set (g_cache w)" and "is_http ty"
  shows "\<exists>w'. insertNewRow name sz dl prog up down status url p i ty w = (Ok (), w') \<and> same_store w w' \<and>
    dv_rows (g_model w') = map snd (row_texts (g_lib w) name sz dl prog up down status url p i) # dv_rows (g_model w) \<and>
    g_cache w' = g_cache w @ [http_entry i p ty w (curl_items w es)] \<and> w_boxes w' = w_boxes w \<and> same_but_table w w'"
proof -
  let ?t = "row_texts (g_lib w) name sz dl prog up down status url p i"
  obtain sg where sg: "bindp (modelp (insertRows 0 1)) (\<lambda>_. bindp (getp g_lib) (\<lambda>lib.
      seqp (each set_cell (row_texts lib name sz dl prog up down status url p i)) (initCharts i p ty))) w =
    initCharts i p ty (w\<lparr>g_model := \<lparr>dv_rows = map snd ?t # dv_rows (g_model w), dv_signals = sg\<rparr>\<rparr>)"
    using new_row_run [of name sz dl prog up down status url p i "initCharts i p ty" w] by blast
  define w1 where "w1 = w\<lparr>g_model := \<lparr>dv_rows = map snd ?t # dv_rows (g_model w), dv_signals = sg\<rparr>\<rparr>"
  have st: "same_store w w1" by (simp add: w1_def)
  note d = same_storeD [OF st]
  have "history w1 es" "healthy w1" "fair_order w1" "\<not> w_held w1 R_curl" "i \<notin> di_unique_id ` set (g_cache w1)"
    using assms(1-4,6) d by (simp_all add: w1_def)
  then obtain w2 where w2: "same_world w1 w2" "initCharts i p ty w1 =
      (Ok (), w2\<lparr>g_cache := g_cache w1 @ [http_entry i p ty w1 (curl_items w1 es)]\<rparr>)"
    using initCharts_http assms(5,7) by blast
  have "http_entry i p ty w1 (curl_items w1 es) = http_entry i p ty w (curl_items w es)"
    using d by (simp add: http_entry_def w1_def)
  then have run: "insertNewRow name sz dl prog up down status url p i ty w =
      (Ok (), w2\<lparr>g_cache := g_cache w @ [http_entry i p ty w (curl_items w es)]\<rparr>)"
    unfolding insertNewRow_def using sg w2(2) by (intro with_warning_Ok) (simp add: w1_def)
  have "same_store w w2" using st same_world_store [OF w2(1)] by (rule same_store_trans)
  moreover have "g_model w2 = g_model w1" using same_windowD [OF same_world_window [OF w2(1)]] by simp
  moreover have "same_but_table w (w2\<lparr>g_cache := c\<rparr>)" for c
    using same_world_window [OF w2(1)] unfolding same_but_table_def same_window_def w1_def
    by (cases w; cases w2) simp
  moreover have "w_boxes w2 = w_boxes w" using same_worldD(5) [OF w2(1)] by (simp add: w1_def)
  ultimately show ?thesis using run by (simp add: w1_def)
qed

end
