(* ===== verification/Window_Samples.thy ===== *)
theory Window_Samples
  imports Window_Facts
begin

text \<open>
  A small window to apply the properties of the handlers to: a window over the history of a given
  world, and the world whose history is the one item \<open>sample_curl\<close>.
\<close>

definition absent_file :: file_on_disk where
  "absent_file = \<lparr>fd_exists = False, fd_is_directory = False, fd_opens = True, fd_bytes = []\<rparr>"

definition sample_library :: gui_library where
  "sample_library =
     \<lparr>gl_file_name = (\<lambda>s. s), gl_remove_filename = (\<lambda>s. s), gl_absolute_path = (\<lambda>s. s),
      gl_locale_text = (\<lambda>_. ''2''), gl_variant_text = (\<lambda>_. ''50''), gl_date_text = (\<lambda>_. ''today''),
      gl_statvfs = (\<lambda>_. (1000, 4096)), gl_digest = (\<lambda>_ s. s), gl_reads = (\<lambda>_. True), gl_easy_ok = True,
      gl_network = (\<lambda>_. \<lparr>ea_init_ok = True, ea_curl_res = 0, ea_error = [], ea_response_code = 200,
        ea_total_time = Finite 1, ea_effective_url = ''http://h/disc.iso'', ea_content_length = Finite 2048\<rparr>),
      gl_paths = \<lparr>pl_components = (\<lambda>_. []), pl_parent = (\<lambda>s. s), pl_has_extension = (\<lambda>_. True), pl_dir_name = (\<lambda>s. s)\<rparr>,
      gl_removable = (\<lambda>_. True)\<rparr>"

definition sample_gui :: "world \<Rightarrow> string list list \<Rightarrow> download_info list \<Rightarrow> model_index list \<Rightarrow> gui" where
  "sample_gui w rows cache selected =
     \<lparr>w_kv = w_kv w, w_db_ok = w_db_ok w, w_db_calls = w_db_calls w, w_csv = w_csv w, w_random = w_random w,
      w_drawn = w_drawn w, w_bucket_order = w_bucket_order w, w_boxes = [], w_held = w_held w, w_now = w_now w,
      w_garbage = w_garbage w, w_garbage_int = w_garbage_int w,
      h_disk = (\<lambda>_. absent_file), h_writable = (\<lambda>_. True), h_garbage_double = NaN,
      mu_gi = False, mu_multi_ok = True, mu_still_running = 0, mu_eh_vec = [], mu_monitoring = [],
      mu_active = 0, mu_last_time = 0,
      mu_progs = (\<lambda>_. \<lparr>cp_stat = [], cp_url = [], cp_file_dest = [], cp_timer_set = False, cp_content_length = Finite 0\<rparr>),
      mu_streams = (\<lambda>_. None), mu_signals = [], mu_attached = [], mu_resume_from = (\<lambda>_. 0), mu_messages = [],
      mu_next_easy = 0, mu_easy_ok = (\<lambda>_. True), mu_add_code = (\<lambda>_. CURLM_OK), mu_calls = 0,
      mu_perform = (\<lambda>n. \<lparr>pf_code = CURLM_OK, pf_running = 0, pf_events = [], pf_done = []\<rparr>),
      mu_wait = (\<lambda>n. \<lparr>wt_code = CURLM_OK, wt_events = []\<rparr>), mu_content_length = (\<lambda>_. Finite 0),
      g_model = \<lparr>dv_rows = rows, dv_signals = []\<rparr>, g_selected = selected, g_cache = cache, g_emitted = [],
      g_connections = [], g_answers = (\<lambda>_. No), g_asked = 0, g_labels = (\<lambda>_. []), g_contents = None,
      g_exit = None, g_garbage_status = Unknown, g_garbage_hash = no_hash, g_lib = sample_library\<rparr>"

lemma sample_gui_simps [simp]:
  "same_store w (sample_gui w rows cache sel)" "g_model (sample_gui w rows cache sel) = \<lparr>dv_rows = rows, dv_signals = []\<rparr>"
  "g_selected (sample_gui w rows cache sel) = sel" "g_cache (sample_gui w rows cache sel) = cache"
  "g_emitted (sample_gui w rows cache sel) = []" "g_connections (sample_gui w rows cache sel) = []"
  "g_lib (sample_gui w rows cache sel) = sample_library" "w_boxes (sample_gui w rows cache sel) = []"
  "h_disk (sample_gui w rows cache sel) f = absent_file" "g_garbage_status (sample_gui w rows cache sel) = Unknown"
  "h_garbage_double (sample_gui w rows cache sel) = NaN" "g_garbage_hash (sample_gui w rows cache sel) = no_hash"
  by (simp_all add: sample_gui_def same_store_def)

text \<open>The row and the entry of the cache of the sample item.\<close>

definition sample_row :: "download_status \<Rightarrow> string list" where
  "sample_row status =
     [''disc.iso'', ''2'', ''0'', ''0'', ''0'', ''0'', ''<N/A>'', ''<N/A>'', convDlStat_toString status,
      ''/home/u/disc.iso'', ''http://h/disc.iso'', ''0123456789'']"

definition sample_info :: download_info where
  "sample_info = new_download_info ''0123456789'' ''/home/u/disc.iso'' HTTP Unknown NaN"

lemma sample_info_simps [simp]:
  "di_unique_id sample_info = ''0123456789''" "di_dl_dest sample_info = ''/home/u/disc.iso''"
  "di_dl_type sample_info = HTTP"
  by (simp_all add: sample_info_def new_download_info_def)

text \<open>A world whose history is the sample item, and what holds in a window over it.\<close>

abbreviation sample_entries :: "id_entry list" where
  "sample_entries \<equiv> [(''0123456789'', ''/home/u/disc.iso'', False)]"

definition stored_sample :: curl_dl_info where
  "stored_sample = curl_readback False (stamp_curl 7 sample_curl)"

lemma stored_sample_simps [simp]:
  "cd_unique_id stored_sample = ''0123456789''" "cd_file_loc stored_sample = ''/home/u/disc.iso''"
  "ce_content_length (cd_ext_info stored_sample) = Finite 2048" "cd_dlStatus stored_sample = Unknown"
  by (simp_all add: stored_sample_def curl_readback_def stamp_curl_def sample_curl_def)

definition holds_sample :: "world \<Rightarrow> bool" where
  "holds_sample w \<longleftrightarrow> history w sample_entries \<and> curl_items w sample_entries = [stored_sample] \<and> same_env (fresh_world 7) w"

lemma sample_exists: obtains w where "holds_sample w"
  using sample_history unfolding holds_sample_def stored_sample_def by blast

lemma sample_window:
  assumes "holds_sample w"
  shows "history (sample_gui w rows cache sel) sample_entries"
    "curl_items (sample_gui w rows cache sel) sample_entries = [stored_sample]"
    "healthy (sample_gui w rows cache sel)" "fair_order (sample_gui w rows cache sel)"
    "\<not> w_held (sample_gui w rows cache sel) m" "w_now (sample_gui w rows cache sel) = 7"
proof -
  have e: "same_env (fresh_world 7) w" using assms by (simp add: holds_sample_def)
  note s = same_storeD [OF sample_gui_simps(1)] same_envD [OF e]
  show "history (sample_gui w rows cache sel) sample_entries"
    "curl_items (sample_gui w rows cache sel) sample_entries = [stored_sample]"
    "healthy (sample_gui w rows cache sel)" "fair_order (sample_gui w rows cache sel)"
    "\<not> w_held (sample_gui w rows cache sel) m" "w_now (sample_gui w rows cache sel) = 7"
    using assms by (simp_all add: s holds_sample_def)
qed

end
