(* ===== verification/Window_Actions.thy ===== *)
theory Window_Actions
  imports Window_Samples
begin

text \<open>
  The handlers that work on one download of the table: starting, stopping and removing the selected
  one, and the end of a transfer. Each changes the table, the cache and the history together.
\<close>

section \<open>The selected row\<close>

lemma with_selection_run: "g_selected w = i # is \<Longrightarrow> is_valid i \<Longrightarrow> with_selection body w = body (mi_row i) w"
  by (simp add: with_selection_def)

lemmas cells_run = view_text_cell update_col_cell

definition selects :: "'z gui_scheme \<Rightarrow> nat \<Rightarrow> bool" where
  "selects w r \<longleftrightarrow> full_rows (g_model w) \<and> r < length (dv_rows (g_model w)) \<and>
     g_selected w = [\<lparr>mi_row = int r, mi_column = 0\<rparr>]"

abbreviation shown :: "'z gui_scheme \<Rightarrow> nat \<Rightarrow> nat \<Rightarrow> string" where
  "shown w r c \<equiv> cell_text (g_model w) (r, c)"

lemma selectsD:
  assumes "selects w r"
  shows "with_selection body w = body (int r) w" "full_rows (g_model w)" "r < length (dv_rows (g_model w))"
  using assms by (simp_all add: selects_def with_selection_def is_valid_def)

lemma view_shown:
  assumes "full_rows (g_model w)" and "r < length (dv_rows (g_model w))"
  shows "view_text (int r) MN_URL_COL w = (Ok (shown w r 10), w)"
    "view_text (int r) MN_DESTINATION_COL w = (Ok (shown w r 9), w)"
    "view_text (int r) MN_HIDDEN_UNIQUE_ID w = (Ok (shown w r 11), w)"
    "view_text (int r) MN_STATUS_COL w = (Ok (shown w r 8), w)"
  using view_text_cell [OF assms] by (simp_all add: column_numbers)

lemma update_shown:
  assumes "full_rows (g_model w)" and "r < length (dv_rows (g_model w))"
  shows "update_col (int r) MN_STATUS_COL x w = (Ok True, w\<lparr>g_model := put_cell (r, 8) x (g_model w)\<rparr>)"
    "update_col (int r) MN_DOWNLOADED_COL x w = (Ok True, w\<lparr>g_model := put_cell (r, 2) x (g_model w)\<rparr>)"
  using update_col_cell(1) [OF assms] by (simp_all add: column_numbers)

lemma put_cell_full: "full_rows m \<Longrightarrow> r < length (dv_rows m) \<Longrightarrow> c < 12 \<Longrightarrow> full_rows (put_cell (r, c) x m)"
  by (rule updateCol_full(2)) (simp_all add: in_table_def full_rows_def)

section \<open>Loops with one element that matters\<close>

lemma for_each_skip:
  "\<forall>x \<in> set ys. f x a w = (Ok (Inl a), w) \<Longrightarrow> for_each f (ys @ zs) a w = for_each f zs a w"
  by (induction ys) (simp_all add: bindp_Ok)

lemma for_each_skip_all: "\<forall>x \<in> set xs. f x a w = (Ok (Inl a), w) \<Longrightarrow> for_each f xs a w = (Ok (Inl a), w)"
  by (induction xs) (simp_all add: bindp_Ok)

lemma for_each_one:
  assumes "\<And>y v. y \<in> set ys \<Longrightarrow> f y a v = (Ok (Inl a), v)" and "\<And>y v. y \<in> set zs \<Longrightarrow> f y a v = (Ok (Inl a), v)"
    and "f x a w = (Ok (Inl a), w')"
  shows "for_each f (ys @ x # zs) a w = (Ok (Inl a), w')"
proof -
  have "for_each f (ys @ x # zs) a w = for_each f (x # zs) a w" using assms(1) by (intro for_each_skip) simp
  also have "\<dots> = (Ok (Inl a), w')" using assms(3) for_each_skip_all [of zs f a w'] assms(2) by (simp add: bindp_Ok)
  finally show ?thesis .
qed

text \<open>The entry of the cache with an identifier, when no other has it.\<close>

lemma split_unique:
  assumes "distinct (map f xs)" and "x \<in> set xs"
  obtains ys zs where "xs = ys @ x # zs" and "\<And>y. y \<in> set ys \<union> set zs \<Longrightarrow> f y \<noteq> f x"
proof -
  obtain ys zs where s: "xs = ys @ x # zs" using assms(2) by (meson split_list)
  with assms(1) show ?thesis by (intro that [OF s]) (force simp: image_iff)+
qed

section \<open>Removing the selected download\<close>

lemma env_del: "preserves same_env (delCurlItem p i)"
  unfolding delCurlItem_def by (intro env_warning env_try_lock env.keeps env_keeps)

text \<open>Deleting by path is deleting by the identifier the registry has for it.\<close>

lemma delCurlItem_by_path:
  assumes "history w es" and "healthy w" and "fair_order w" and "\<not> w_held w W_curl"
    and "(i, p, False) \<in> set es" and "\<And>j u. (j, p, u) \<in> set es \<Longrightarrow> j = i"
  shows "\<exists>w' es'. delCurlItem p [] w = (Ok True, w') \<and> history w' es' \<and>
    mset es' = mset (filter (\<lambda>(j, q, t). \<not> t \<and> j \<noteq> i) es) \<and>
    mset (curl_items w' es') = mset (filter (\<lambda>d. cd_unique_id d \<noteq> i) (curl_items w es)) \<and>
    w_boxes w' = w_boxes w \<and> same_env w w'"
proof -
  note h = historyD [OF assms(1)]
  have v: "i \<noteq> []" "p \<noteq> []" "UNDERSCORE \<notin> set i"
    using h(3,4) assms(5) by (auto simp: list_all_iff valid_entry_def clean_field_def)
  obtain w1 where w1: "determine_download_id p w = (Ok (i, False), w1)" "same_world w w1"
    using determine_unique [OF h(1) assms(2) h(2) assms(5,6)] .
  note s = same_storeD [OF same_world_store [OF w1(2)]]
  have "delCurlItem p [] w = delCurlItem p i w1"
    using w1(1) v assms(4) s
    by (simp add: delCurlItem_def with_warning_def catchp_def try_lock_free bindp_Ok)
  moreover obtain w' es' where "delCurlItem p i w1 = (Ok True, w')" "history w' es'"
    "mset es' = mset (filter (\<lambda>(j, q, t). \<not> t \<and> j \<noteq> i) es)"
    "mset (curl_items w' es') = mset (filter (\<lambda>d. cd_unique_id d \<noteq> i) (curl_items w1 es))" "w_boxes w' = w_boxes w1"
    using del_curl_history [of w1 es i p] assms(1-4) v s by auto
  moreover have "w_boxes w1 = w_boxes w" using same_worldD(5) [OF w1(2)] .
  ultimately show ?thesis using s(2) env_run [OF env_del, of p "[]" w] by (intro exI [of _ w'] exI [of _ es']) simp
qed

lemma remove_first_filter: "distinct (map f xs) \<Longrightarrow> remove_first (\<lambda>x. f x = a) xs = filter (\<lambda>x. f x \<noteq> a) xs"
proof (induction xs)
  case (Cons x xs)
  have "filter (\<lambda>y. f y \<noteq> a) xs = xs" if "f x = a" using Cons.prems that by (force simp: filter_id_conv image_iff)
  with Cons show ?case by simp
qed simp

lemma find_unique: "x \<in> set xs \<Longrightarrow> P x \<Longrightarrow> \<forall>y \<in> set xs. P y \<longrightarrow> y = x \<Longrightarrow> find P xs = Some x"
proof (induction xs)
  case (Cons y ys)
  show ?case
  proof (cases "P y")
    case True
    then have "y = x" using Cons.prems(3) by (metis list.set_intros(1))
    with True show ?thesis by simp
  next
    case False
    then have "x \<in> set ys" using Cons.prems(1,2) by (metis set_ConsD)
    with Cons.IH Cons.prems(2,3) False show ?thesis by (metis find.simps(2) list.set_intros(2))
  qed
qed simp

text \<open>C18: Removing the selected HTTP or FTP download takes its row, its entry of the cache and its item; the
  other rows, entries and HTTP and FTP items stay. Every torrent of the history is lost with it.\<close>

theorem removeSelRows_removes:
  assumes "history w es" and "healthy w" and "fair_order w" and "\<not> w_held w W_curl" and "selects w r"
    and "(shown w r 11, shown w r 9, False) \<in> set es"
    and "\<And>j u. (j, shown w r 9, u) \<in> set es \<Longrightarrow> j = shown w r 11"
    and "d \<in> set (g_cache w)" and "di_unique_id d = shown w r 11" and "is_http (di_dl_type d)"
    and "distinct (map di_unique_id (g_cache w))"
  shows "\<exists>w' es'. removeSelRows w = (Ok (), w') \<and> history w' es' \<and>
    mset es' = mset (filter (\<lambda>(j, q, t). \<not> t \<and> j \<noteq> shown w r 11) es) \<and>
    mset (curl_items w' es') = mset (filter (\<lambda>d. cd_unique_id d \<noteq> shown w r 11) (curl_items w es)) \<and>
    dv_rows (g_model w') = take r (dv_rows (g_model w)) @ drop (Suc r) (dv_rows (g_model w)) \<and>
    g_cache w' = filter (\<lambda>d. di_unique_id d \<noteq> shown w r 11) (g_cache w) \<and> w_boxes w' = w_boxes w"
proof -
  define i where "i = shown w r 11"
  define p where "p = shown w r 9"
  note sel = selectsD [OF assms(5)]
  note v = view_shown [OF sel(2,3), folded i_def p_def]
  have f: "find (\<lambda>d. di_unique_id d = i) (g_cache w) = Some d"
    using assms(8-11) unfolding i_def by (intro find_unique) (auto simp: distinct_map inj_on_def)
  obtain w1 es' where w1: "delCurlItem p [] w = (Ok True, w1)" "history w1 es'"
    "mset es' = mset (filter (\<lambda>(j, q, t). \<not> t \<and> j \<noteq> i) es)"
    "mset (curl_items w1 es') = mset (filter (\<lambda>d. cd_unique_id d \<noteq> i) (curl_items w es))"
    "w_boxes w1 = w_boxes w" "same_env w w1"
    using delCurlItem_by_path [OF assms(1-4), of i p] assms(6,7) unfolding i_def p_def by blast
  note s1 = same_windowD [OF same_env_window [OF w1(6)]]
  define w2 where "w2 = w1\<lparr>g_cache := filter (\<lambda>d. di_unique_id d \<noteq> i) (g_cache w),
    g_model := \<lparr>dv_rows = list_remove_at (int r) (dv_rows (g_model w)),
      dv_signals = dv_signals (g_model w) @ [RowsRemoved (int r) (int r)]\<rparr>\<rparr>"
  have rm: "remove_first (\<lambda>d. di_unique_id d = i) (g_cache w1) = filter (\<lambda>d. di_unique_id d \<noteq> i) (g_cache w)"
    using remove_first_filter [OF assms(11)] s1 by simp
  have len: "length (g_selected w) = 1" using assms(5) by (simp add: selects_def)
  have "removeSelRows w = (Ok (), w2)"
    unfolding removeSelRows_def
    using sel(1) v f w1(1) assms(10) s1 rm
    by (cases "g_model w") (simp add: len prog_simps modelp_def removeRows_def emit_signal_def w2_def)
  moreover have "same_store w1 w2" by (simp add: w2_def)
  note s2 = same_storeD [OF this]
  ultimately show ?thesis
    using w1(2-5) unfolding i_def [symmetric]
    by (intro exI [of _ w2] exI [of _ es'])
      (simp add: s2 w2_def list_remove_at_def)
qed

section \<open>Stopping the selected download\<close>

text \<open>A status in the history and in the table.\<close>

lemma modify_status_run:
  assumes "history w es" and "healthy w" and "\<not> w_held w W_curl"
    and "(i, p, False) \<in> set es" and "\<And>j u. (j, p, u) \<in> set es \<Longrightarrow> j = i"
  shows "\<exists>w'. modify_status p status w = (Ok True, w') \<and> history w' es \<and>
    curl_items w' es = map (\<lambda>d. if cd_unique_id d = i then d\<lparr>cd_dlStatus := status\<rparr> else d) (curl_items w es) \<and>
    w_boxes w' = w_boxes w \<and> same_env w w'"
proof -
  have "fits64 0" by (simp add: fits64_def int64_min_def int64_max_def)
  from modify_curl_history [OF assms(1-3) this assms(4), where status = status and given = "[]" and ty = HashNone
      and rtrnd = "[]" and succ = NotApplicable] assms(5)
  show ?thesis by (auto simp: modify_status_def modified_curl_def)
qed

text \<open>C16: Stopping the selected HTTP or FTP download that is neither finished, failed, invalid nor stopped: one
  stop signal for its file, its status is Stopped in the history and in the table, and nothing else of
  either changes; without a file on the disk no question is asked.\<close>

theorem haltDownload_stops:
  assumes "history w es" and "healthy w" and "\<not> w_held w W_curl" and "selects w r"
    and "(shown w r 11, shown w r 9, False) \<in> set es"
    and "\<And>j u. (j, shown w r 9, u) \<in> set es \<Longrightarrow> j = shown w r 11"
    and "d \<in> set (g_cache w)" and "di_unique_id d = shown w r 11" and "is_http (di_dl_type d)"
    and "distinct (map di_unique_id (g_cache w))"
    and "convDlStat_StringToEnum (shown w r 8) \<notin> {Stopped, Completed, Failed, Invalid}"
    and "\<not> fd_exists (h_disk w (shown w r 9))"
  shows "\<exists>w'. haltDownload w = (Ok (), w') \<and> history w' es \<and>
    curl_items w' es = map (\<lambda>d. if cd_unique_id d = shown w r 11 then d\<lparr>cd_dlStatus := Stopped\<rparr> else d) (curl_items w es) \<and>
    g_emitted w' = g_emitted w @ [Send_stop_download (shown w r 9)] \<and>
    g_model w' = put_cell (r, 8) (convDlStat_toString Stopped) (g_model w) \<and>
    g_cache w' = g_cache w \<and> w_boxes w' = w_boxes w"
proof -
  define i where "i = shown w r 11"
  define p where "p = shown w r 9"
  define st where "st = convDlStat_StringToEnum (shown w r 8)"
  note [simp del] = convDlStat_toString.simps
  note sel = selectsD [OF assms(4)]
  note v = view_shown [OF sel(2,3), folded i_def p_def]
  define w1 where "w1 = w\<lparr>g_connections := g_connections w @ [Stop_to_multi],
    g_emitted := g_emitted w @ [Send_stop_download p]\<rparr>"
  have "same_store w w1" by (simp add: w1_def)
  note d1 = same_storeD [OF this]
  have h1: "history w1 es" "healthy w1" "\<not> w_held w1 W_curl" using assms(1-3) by (simp_all add: d1)
  obtain w2 where w2: "modify_status p Stopped w1 = (Ok True, w2)" "history w2 es"
    "curl_items w2 es = map (\<lambda>d. if cd_unique_id d = i then d\<lparr>cd_dlStatus := Stopped\<rparr> else d) (curl_items w es)"
    "w_boxes w2 = w_boxes w1" "same_env w1 w2"
    using modify_status_run [OF h1 assms(5), where status = Stopped] assms(6) unfolding i_def p_def d1(2) by blast
  note s2 = same_windowD [OF same_env_window [OF w2(5)]]
  define w3 where "w3 = w2\<lparr>g_model := put_cell (r, 8) (convDlStat_toString Stopped) (g_model w2)\<rparr>"
  have u: "update_col (int r) MN_STATUS_COL (convDlStat_toString Stopped) w2 = (Ok True, w3)"
    using update_shown(1) [of w2 r] sel(2,3) s2 by (simp add: w1_def w3_def)
  have "askDeleteHttpItem p i True w3 = (Ok False, w3)"
    using assms(12) s2 by (simp add: askDeleteHttpItem_def path_exists_def w3_def w1_def p_def)
  then have a: "bindp (askDeleteHttpItem p i True) f w3 = f False w3" for f
    by (simp add: bindp_def)
  obtain ys zs where c: "g_cache w = ys @ d # zs" and o: "\<And>y. y \<in> set ys \<union> set zs \<Longrightarrow> di_unique_id y \<noteq> di_unique_id d"
    using split_unique [OF assms(10,7)] by blast
  have st: "st \<noteq> Stopped" "st \<noteq> Completed" "st \<noteq> Failed" "st \<noteq> Invalid" using assms(11) by (simp_all add: st_def)
  have c1: "connect Stop_to_multi w = (Ok (), w\<lparr>g_connections := g_connections w @ [Stop_to_multi]\<rparr>)"
    by (simp add: connect_def)
  have e1: "emit_gui (Send_stop_download p) (w\<lparr>g_connections := g_connections w @ [Stop_to_multi]\<rparr>) = (Ok (), w1)"
    by (simp add: emit_gui_def w1_def)
  have step: "halt_entry (int r) p i st d w = (Ok (Inl ()), w3)"
    using st assms(9) assms(8) [folded i_def] by (simp add: halt_entry_def seqp_Ok bindp_Ok c1 e1 w2(1) u a)
  have "for_each (\<lambda>d _. halt_entry (int r) p i st d) (g_cache w) () w = (Ok (Inl ()), w3)"
    unfolding c by (rule for_each_one) (use o assms(8) step in \<open>auto simp: halt_entry_def i_def\<close>)
  then have "haltDownload w = (Ok (), w3)"
    unfolding haltDownload_def sel(1) by (intro with_warning_Ok) (simp add: v bindp_Ok st_def)
  moreover have "same_store w2 w3" by (simp add: w3_def)
  note d3 = same_storeD [OF this]
  ultimately show ?thesis
    using w2(2-4) s2 unfolding i_def [symmetric] p_def [symmetric]
    by (intro exI [of _ w3]) (simp add: d3, simp add: w3_def w1_def)
qed

section \<open>The end of a transfer\<close>

lemma cryptoFileHash_opens: "fd_opens f \<Longrightarrow> \<exists>h. cryptoFileHash digest reads f t given = Inr h"
  by (auto simp: cryptoFileHash_def Let_def split: option.splits)

lemma hash_of_download_opens:
  "fd_opens (h_disk w (dm_file_loc status)) \<Longrightarrow> \<exists>h. hash_of_download status items w = (Ok h, w)"
proof (cases "find (\<lambda>d. cd_file_loc d = dm_file_loc status) items")
  case (Some d)
  assume "fd_opens (h_disk w (dm_file_loc status))"
  note c = cryptoFileHash_opens [OF this]
  show ?thesis
    using c [of "gl_digest (g_lib w)" "gl_reads (g_lib w) (dm_file_loc status)" SHA1 "[]"]
      c [of "gl_digest (g_lib w)" "gl_reads (g_lib w) (dm_file_loc status)" "cd_hash_type d" "cd_hash_val_given d"] Some
    by (auto simp: hash_of_download_def Let_def)
qed (simp add: hash_of_download_def)

lemma finish_row_other:
  assumes "full_rows (g_model w)" and "k < length (dv_rows (g_model w))" and "shown w k 9 \<noteq> dm_file_loc status"
  shows "finish_row status k w = (Ok (Inl ()), w)"
  using assms(3) by (simp add: finish_row_def bindp_Ok view_shown [OF assms(1,2)])

lemma finish_row_run:
  assumes "history w es" and "healthy w" and "fair_order w" and "\<not> w_held w R_curl" and "\<not> w_held w W_curl"
    and "full_rows (g_model w)" and "r < length (dv_rows (g_model w))"
    and "shown w r 9 = dm_file_loc status" and "convDlStat_StringToEnum (shown w r 8) = Downloading"
    and "(i, dm_file_loc status, False) \<in> set es" and "\<And>j u. (j, dm_file_loc status, u) \<in> set es \<Longrightarrow> j = i"
    and "0 < w_now w" and "fits64 (w_now w)" and "fd_opens (h_disk w (dm_file_loc status))"
  shows "\<exists>w'. finish_row status r w = (Ok (Inr ()), w') \<and> history w' es \<and>
    curl_items w' es = map (\<lambda>d. if cd_unique_id d = i
      then d\<lparr>cd_dlStatus := Completed, cd_complt_timestamp := w_now w\<rparr> else d) (curl_items w es) \<and>
    g_model w' = put_cell (r, 2) (numberConverter (gl_locale_text (g_lib w)) (dm_content_len status))
      (put_cell (r, 8) (convDlStat_toString Completed) (g_model w)) \<and>
    g_cache w' = g_cache w \<and> g_exit w' = g_exit w \<and> w_boxes w' = w_boxes w"
proof -
  note [simp del] = convDlStat_toString.simps
  define p where "p = dm_file_loc status"
  note v = view_shown [OF assms(6,7)]
  obtain items w1 where w1: "readCurlItems w = (Ok items, w1)" "same_world w w1"
    using read_curl_history [OF assms(1-4)] by blast
  note d1 = same_storeD [OF same_world_store [OF w1(2)]] same_windowD [OF same_world_window [OF w1(2)]]
  obtain h where h: "hash_of_download status items w1 = (Ok h, w1)"
    using hash_of_download_opens [of w1 status items] assms(14) d1 by auto
  have h1: "history w1 es" "healthy w1" "\<not> w_held w1 W_curl" "fits64 (w_now w)" using assms(1,2,5,13) d1 by simp_all
  obtain w2 where w2: "modifyCurlItem p Completed (w_now w) (fh_checksum h) (fh_hash_type h) [] NotApplicable w1 = (Ok True, w2)"
    "history w2 es" "w_boxes w2 = w_boxes w1" "same_env w1 w2"
    "curl_items w2 es = map (\<lambda>d. if cd_unique_id d = i
      then modified_curl Completed (w_now w) (fh_checksum h) (fh_hash_type h) [] NotApplicable d else d) (curl_items w es)"
    using modify_curl_history [OF h1 assms(10), where status = Completed and given = "fh_checksum h" and ty = "fh_hash_type h"
        and rtrnd = "[]" and succ = NotApplicable] assms(11) unfolding p_def d1(2) by blast
  note s2 = same_windowD [OF same_env_window [OF w2(4)]]
  define w3 where "w3 = w2\<lparr>g_model := put_cell (r, 8) (convDlStat_toString Completed) (g_model w2)\<rparr>"
  define w4 where "w4 = w3\<lparr>g_model := put_cell (r, 2) (numberConverter (gl_locale_text (g_lib w)) (dm_content_len status)) (g_model w3)\<rparr>"
  have m2: "full_rows (g_model w2)" "r < length (dv_rows (g_model w2))" using assms(6,7) d1 s2 by simp_all
  have u: "update_col (int r) MN_STATUS_COL (convDlStat_toString Completed) w2 = (Ok True, w3)"
    using update_shown(1) [OF m2] by (simp add: w3_def)
  have m3: "full_rows (g_model w3)" "r < length (dv_rows (g_model w3))"
    using put_cell_full [OF m2, of 8] m2 by (simp_all add: w3_def put_cell_def)
  have u': "update_col (int r) MN_DOWNLOADED_COL (numberConverter (gl_locale_text (g_lib w)) (dm_content_len status)) w3 = (Ok True, w4)"
    using update_shown(2) [OF m3] by (simp add: w4_def)
  have l3: "g_lib w3 = g_lib w" using d1 s2 by (simp add: w3_def)
  have "finish_row status r w = (Ok (Inr ()), w4)"
    using assms(8,9)
    by (simp add: finish_row_def bindp_Ok v w1(1) h d1(6) w2(1) [unfolded p_def] u l3 u')
  moreover have "same_store w2 w4" by (simp add: w4_def w3_def)
  note d4 = same_storeD [OF this]
  moreover have "w_boxes w4 = w_boxes w" using same_worldD(5) [OF w1(2)] w2(3) by (simp add: w4_def w3_def)
  ultimately show ?thesis
    using w2(2,5) s2 d1 assms(12) by (intro exI [of _ w4]) (simp add: d4 modified_curl_def, simp add: w4_def w3_def)
qed

text \<open>C17: At the end of a transfer the first downloading row with its destination becomes Completed, in the
  table and in the history, with the time of completion and the amount that was downloaded. The digest
  of the file is computed and not stored: the hash data of the item are the old ones. The cache keeps
  the old item.\<close>

theorem recvDlFinished_completes:
  assumes "history w es" and "healthy w" and "fair_order w" and "\<not> w_held w R_curl" and "\<not> w_held w W_curl"
    and "full_rows (g_model w)" and "r < length (dv_rows (g_model w))"
    and "shown w r 9 = dm_file_loc status" and "convDlStat_StringToEnum (shown w r 8) = Downloading"
    and "\<forall>k < r. shown w k 9 \<noteq> dm_file_loc status"
    and "(i, dm_file_loc status, False) \<in> set es" and "\<And>j u. (j, dm_file_loc status, u) \<in> set es \<Longrightarrow> j = i"
    and "0 < w_now w" and "fits64 (w_now w)" and "fd_opens (h_disk w (dm_file_loc status))"
  shows "\<exists>w'. recvDlFinished status w = (Ok (), w') \<and> history w' es \<and>
    curl_items w' es = map (\<lambda>d. if cd_unique_id d = i
      then d\<lparr>cd_dlStatus := Completed, cd_complt_timestamp := w_now w\<rparr> else d) (curl_items w es) \<and>
    g_model w' = put_cell (r, 2) (numberConverter (gl_locale_text (g_lib w)) (dm_content_len status))
      (put_cell (r, 8) (convDlStat_toString Completed) (g_model w)) \<and>
    g_cache w' = g_cache w \<and> g_exit w' = g_exit w \<and> w_boxes w' = w_boxes w"
proof -
  let ?n = "length (dv_rows (g_model w))"
  obtain w' where w': "finish_row status r w = (Ok (Inr ()), w')" "history w' es"
    "curl_items w' es = map (\<lambda>d. if cd_unique_id d = i
      then d\<lparr>cd_dlStatus := Completed, cd_complt_timestamp := w_now w\<rparr> else d) (curl_items w es)"
    "g_model w' = put_cell (r, 2) (numberConverter (gl_locale_text (g_lib w)) (dm_content_len status))
      (put_cell (r, 8) (convDlStat_toString Completed) (g_model w))"
    "g_cache w' = g_cache w" "g_exit w' = g_exit w" "w_boxes w' = w_boxes w"
    using finish_row_run [OF assms(1-9,11) _ assms(13-15)] assms(12) by blast
  have "[0..<?n] = [0..<r] @ r # [Suc r..<?n]"
    using assms(7) by (metis le_add_diff_inverse less_imp_le_nat upt_add_eq_append upt_conv_Cons zero_le)
  moreover have "\<forall>k \<in> set [0..<r]. finish_row status k w = (Ok (Inl ()), w)"
    using assms(7,10) finish_row_other [OF assms(6)] by simp
  then have "for_each (\<lambda>i _. finish_row status i) ([0..<r] @ r # [Suc r..<?n]) () w =
      for_each (\<lambda>i _. finish_row status i) (r # [Suc r..<?n]) () w"
    by (intro for_each_skip)
  ultimately have "for_each (\<lambda>i _. finish_row status i) [0..<?n] () w = (Ok (Inr ()), w')"
    using w'(1) by (simp add: bindp_Ok)
  then have "recvDlFinished status w = (Ok (), w')"
    unfolding recvDlFinished_def by (intro catchp_Ok) (simp add: getList_def bindp_Ok)
  with w'(2-7) show ?thesis by blast
qed

section \<open>Starting a download\<close>

definition enough_space :: "'z gui_scheme \<Rightarrow> string \<Rightarrow> curl_info_ext \<Rightarrow> bool" where
  "enough_space w p info = d_less (d_mul (ce_content_length info) FREE_DSK_SPACE_MULTIPLIER)
     (d_of_int (uint (freeDiskSpace (gl_statvfs (g_lib w)) (gl_remove_filename (g_lib w)) (gl_absolute_path (g_lib w) p))))"

text \<open>C19: Starting the selected HTTP or FTP download sends the start signal and sets the status Downloading, in
  the table and in the history, if three times the length the server reports fits into the free disk
  space; otherwise it shows a message and changes nothing.\<close>

theorem startHttpDownload_gate:
  assumes "history w es" and "healthy w" and "\<not> w_held w W_curl" and "selects w r"
    and "(i, p, False) \<in> set es" and "\<And>j u. (j, p, u) \<in> set es \<Longrightarrow> j = i"
    and "d \<in> set (g_cache w)" and "di_unique_id d = i" and "is_http (di_dl_type d)"
    and "convDlStat_StringToEnum (shown w r 8) \<noteq> Downloading"
    and "curlGrabInfo (gl_easy_ok (g_lib w)) (gl_network (g_lib w)) (shown w r 10) = Inr info"
  shows "\<exists>w'. startHttpDownload p i resumeDl w = (Ok (), w') \<and> history w' es \<and> g_cache w' = g_cache w \<and>
    (if enough_space w p info then
       g_emitted w' = g_emitted w @ [Send_start_download (shown w r 10) p resumeDl] \<and>
       g_model w' = put_cell (r, 8) (convDlStat_toString Downloading) (g_model w) \<and>
       curl_items w' es = map (\<lambda>d. if cd_unique_id d = i then d\<lparr>cd_dlStatus := Downloading\<rparr> else d) (curl_items w es) \<and>
       w_boxes w' = w_boxes w
     else
       g_emitted w' = g_emitted w \<and> g_model w' = g_model w \<and> curl_items w' es = curl_items w es \<and>
       w_boxes w' = w_boxes w @ [Warning ''Error!''])"
proof -
  note [simp del] = convDlStat_toString.simps
  note sel = selectsD [OF assms(4)]
  note v = view_shown [OF sel(2,3)]
  have known: "\<exists>d \<in> set (g_cache w). di_unique_id d = i \<and> is_http (di_dl_type d)" using assms(7-9) by blast
  show ?thesis
  proof (cases "enough_space w p info")
    case False
    then have "startHttpDownload p i resumeDl w = (Ok (), w\<lparr>w_boxes := w_boxes w @ [Warning ''Error!'']\<rparr>)"
      using known assms(10,11) unfolding startHttpDownload_def sel(1)
      by (simp add: v bindp_Ok seqp_Ok with_warning_def catchp_def Let_def enough_space_def)
    moreover have "same_store w (w\<lparr>w_boxes := w_boxes w @ [Warning ''Error!'']\<rparr>)" by (simp add: same_store_def)
    note same_storeD [OF this]
    ultimately show ?thesis using False assms(1)
      by (intro exI [of _ "w\<lparr>w_boxes := w_boxes w @ [Warning ''Error!'']\<rparr>"]) simp
  next
    case True
    obtain w2 where w2: "modify_status p Downloading w = (Ok True, w2)" "history w2 es"
      "curl_items w2 es = map (\<lambda>d. if cd_unique_id d = i then d\<lparr>cd_dlStatus := Downloading\<rparr> else d) (curl_items w es)"
      "w_boxes w2 = w_boxes w" "same_env w w2"
      using modify_status_run [OF assms(1-3,5), where status = Downloading] assms(6) by blast
    note s2 = same_windowD [OF same_env_window [OF w2(5)]]
    define w3 where "w3 = w2\<lparr>g_model := put_cell (r, 8) (convDlStat_toString Downloading) (g_model w2)\<rparr>"
    have u: "update_col (int r) MN_STATUS_COL (convDlStat_toString Downloading) w2 = (Ok True, w3)"
      using update_shown(1) [of w2 r] sel(2,3) s2 by (simp add: w3_def)
    define w4 where "w4 = w3\<lparr>g_connections := g_connections w3 @ [Stats_to_window, Finished_to_window],
      g_emitted := g_emitted w3 @ [Send_start_download (shown w r 10) p resumeDl]\<rparr>"
    have c: "seqp (connect Stats_to_window) (seqp (connect Finished_to_window)
        (emit_gui (Send_start_download (shown w r 10) p resumeDl))) w3 = (Ok (), w4)"
      by (simp add: connect_def emit_gui_def w4_def)
    have "startHttpDownload p i resumeDl w = (Ok (), w4)"
      using known assms(10,11) True unfolding startHttpDownload_def sel(1)
      by (simp add: v bindp_Ok Let_def enough_space_def with_warning_Ok w2(1) u c)
    moreover have "same_store w2 w4" by (simp add: w4_def w3_def)
    note d4 = same_storeD [OF this]
    ultimately show ?thesis
      using True w2(2-4) s2 by (intro exI [of _ w4]) (simp add: d4, simp add: w4_def w3_def)
  qed
qed

section \<open>At a concrete window\<close>

text \<open>The window over the sample item, its row selected, and what the theorems ask of it.\<close>

definition sample_selected :: "world \<Rightarrow> download_status \<Rightarrow> gui" where
  "sample_selected w status = sample_gui w [sample_row status] [sample_info] [\<lparr>mi_row = 0, mi_column = 0\<rparr>]"

lemma sample_selected_facts:
  assumes "holds_sample w"
  shows "history (sample_selected w st) sample_entries" "healthy (sample_selected w st)" "fair_order (sample_selected w st)"
    "\<not> w_held (sample_selected w st) m" "selects (sample_selected w st) 0"
    "curl_items (sample_selected w st) sample_entries = [stored_sample]" "w_now (sample_selected w st) = 7"
  using sample_window [OF assms]
  by (simp_all add: sample_selected_def selects_def full_rows_def sample_row_def)

lemma sample_selected_simps:
  "shown (sample_selected w st) 0 8 = convDlStat_toString st" "shown (sample_selected w st) 0 9 = ''/home/u/disc.iso''"
  "shown (sample_selected w st) 0 10 = ''http://h/disc.iso''" "shown (sample_selected w st) 0 11 = ''0123456789''"
  "g_cache (sample_selected w st) = [sample_info]" "h_disk (sample_selected w st) f = absent_file"
  "w_boxes (sample_selected w st) = []" "g_emitted (sample_selected w st) = []" "g_lib (sample_selected w st) = sample_library"
  "dv_rows (g_model (sample_selected w st)) = [sample_row st]"
  by (simp_all add: sample_selected_def cell_text_def sample_row_def)

theorem removeSelRows_removes_witness:
  "\<exists>w w'. removeSelRows (sample_selected w Paused) = (Ok (), w') \<and> dv_rows (g_model w') = [] \<and> g_cache w' = []"
proof -
  obtain w where w: "holds_sample w" by (rule sample_exists)
  note f = sample_selected_facts [OF w]
  show ?thesis
    using removeSelRows_removes [OF f(1,2,3,4,5), of Paused sample_info]
    by (intro exI [of _ w]) (auto simp: sample_selected_simps is_http_def)
qed

theorem haltDownload_stops_witness:
  "\<exists>w w'. haltDownload (sample_selected w Downloading) = (Ok (), w') \<and>
     g_emitted w' = [Send_stop_download ''/home/u/disc.iso''] \<and>
     curl_items w' sample_entries = [stored_sample\<lparr>cd_dlStatus := Stopped\<rparr>]"
proof -
  obtain w where w: "holds_sample w" by (rule sample_exists)
  note f = sample_selected_facts [OF w]
  show ?thesis
    using haltDownload_stops [OF f(1,2,4,5), of Downloading sample_info]
    by (intro exI [of _ w]) (auto simp: sample_selected_simps is_http_def absent_file_def f(6) convDlStat_StringToEnum_def)
qed

theorem recvDlFinished_completes_witness:
  "\<exists>w w'. recvDlFinished \<lparr>dm_content_len = Finite 2048, dm_url = ''http://h/disc.iso'', dm_file_loc = ''/home/u/disc.iso''\<rparr>
       (sample_selected w Downloading) = (Ok (), w') \<and>
     curl_items w' sample_entries = [stored_sample\<lparr>cd_dlStatus := Completed, cd_complt_timestamp := 7\<rparr>]"
proof -
  obtain w where w: "holds_sample w" by (rule sample_exists)
  note f = sample_selected_facts [OF w]
  show ?thesis
    using recvDlFinished_completes [OF f(1,2,3,4,4) selectsD(2,3) [OF f(5)], of Downloading
        "\<lparr>dm_content_len = Finite 2048, dm_url = ''http://h/disc.iso'', dm_file_loc = ''/home/u/disc.iso''\<rparr>" "''0123456789''"]
    by (intro exI [of _ w]) (auto simp: sample_selected_simps absent_file_def f(6,7) convDlStat_StringToEnum_def
        fits64_def int64_min_def int64_max_def)
qed

theorem startHttpDownload_gate_witness:
  "\<exists>w w'. startHttpDownload ''/home/u/disc.iso'' ''0123456789'' True (sample_selected w Paused) = (Ok (), w') \<and>
     g_emitted w' = [Send_start_download ''http://h/disc.iso'' ''/home/u/disc.iso'' True]"
proof -
  obtain w where w: "holds_sample w" by (rule sample_exists)
  note f = sample_selected_facts [OF w]
  let ?i = "\<lparr>ce_status_ok = True, ce_status_msg = [], ce_response_code = 200, ce_elapsed = Finite 1,
    ce_effective_url = ''http://h/disc.iso'', ce_content_length = Finite 2048\<rparr>"
  have i: "curlGrabInfo (gl_easy_ok sample_library) (gl_network sample_library) u = Inr ?i" for u
    by (simp add: curlGrabInfo_def new_easy_handle_def sample_library_def CURLE_OK_def)
  have e: "enough_space (sample_selected w Paused) p ?i" for p
    using rnd_of_int [of 6144]
    by (simp add: enough_space_def FREE_DSK_SPACE_MULTIPLIER_def freeDiskSpace_def sample_library_def sample_selected_simps)
  show ?thesis
    using startHttpDownload_gate [OF f(1,2,4,5) [where st = Paused], where i = "''0123456789''" and p = "''/home/u/disc.iso''"
        and d = sample_info and info = ?i and resumeDl = True] i e
    by (intro exI [of _ w]) (auto simp: sample_selected_simps is_http_def convDlStat_StringToEnum_def)
qed

end
