(* ===== verification/Window_Figures.thy ===== *)
theory Window_Figures
  imports Window_Samples
begin

text \<open>
  The statistics of the transfers in the window: what they may change. \<open>figures_only\<close> relates two
  states with the same database, the same identifiers, addresses, destinations and states in the
  table, and the same downloads with the same statistics in the cache; \<open>manageDlStats\<close> keeps to it.
\<close>

section \<open>The relation\<close>

definition figures_only :: "'z gui_scheme \<Rightarrow> 'z gui_scheme \<Rightarrow> bool" where
  "figures_only w w' \<longleftrightarrow> same_store w w' \<and>
     map (drop 8) (dv_rows (g_model w')) = map (drop 8) (dv_rows (g_model w)) \<and>
     map length (dv_rows (g_model w')) = map length (dv_rows (g_model w)) \<and>
     map (\<lambda>d. d\<lparr>di_down_speed_vals := []\<rparr>) (g_cache w') = map (\<lambda>d. d\<lparr>di_down_speed_vals := []\<rparr>) (g_cache w) \<and>
     g_emitted w' = g_emitted w \<and> g_connections w' = g_connections w \<and> h_disk w' = h_disk w"

interpretation fig: frame figures_only
  by unfold_locales (auto simp: figures_only_def reflp_def transp_def same_store_def)

named_theorems figures \<open>parts of the window that change figures only\<close>

lemma figures_updates [figures]:
  "preserves figures_only (show_box b)" "preserves figures_only (set_label l s)" "preserves figures_only (view_text r c)"
  "preserves figures_only (getFileSize p)"
proof -
  show "preserves figures_only (show_box b)" "preserves figures_only (set_label l s)"
    by (simp_all add: preserves_def figures_only_def same_store_def set_label_def)
  show "preserves figures_only (view_text r c)" "preserves figures_only (getFileSize p)"
    unfolding view_text_def getFileSize_def by (intro fig.keeps)+
qed

lemma figures_warning [figures]: "preserves figures_only m \<Longrightarrow> preserves figures_only (with_warning m a)"
  unfolding with_warning_def by (intro fig.keeps figures_updates)

lemma figures_selection [figures]: "(\<And>r. preserves figures_only (f r)) \<Longrightarrow> preserves figures_only (with_selection f)"
  unfolding with_selection_def by (intro fig.keeps)

lemma replace_row_kept:
  assumes "c < 8" and "r < length rows"
  shows "map (drop 8) (rows[r := (rows ! r)[c := x]]) = map (drop 8) rows"
    and "map length (rows[r := (rows ! r)[c := x]]) = map length rows"
proof -
  have "drop 8 ((rows ! r)[c := x]) = drop 8 (rows ! r)" using assms(1) by (simp add: drop_update_cancel)
  then show "map (drop 8) (rows[r := (rows ! r)[c := x]]) = map (drop 8) rows"
    using assms(2) by (simp add: map_update list_update_same_conv)
  show "map length (rows[r := (rows ! r)[c := x]]) = map length rows"
    using assms(2) by (simp add: map_update list_update_same_conv)
qed

lemma figures_update_col [figures]: "0 \<le> c \<Longrightarrow> c < 8 \<Longrightarrow> preserves figures_only (update_col row c x)"
  unfolding preserves_def
proof
  fix w
  assume c: "0 \<le> c" "c < 8"
  have r: "nat row < length (dv_rows (g_model w))" if "0 \<le> row" "row < rowCount (g_model w)"
    using that by (simp add: rowCount_def)
  have n: "nat c < 8" using c by simp
  show "figures_only w (snd (update_col row c x w))"
  proof (cases "0 \<le> row \<and> row < rowCount (g_model w) \<and> nat c < length (dv_rows (g_model w) ! nat row)")
    case True
    then show ?thesis
      using c r replace_row_kept [OF n, of "nat row" "dv_rows (g_model w)" x]
      by (simp add: update_col_def model_index_at_def columnCount_def column_numbers modelp_def updateCol_def is_valid_def
          replace_row_def emit_signal_def bindp_def seqp_def figures_only_def same_store_def)
  next
    case False
    then show ?thesis
      using c
      by (auto simp: update_col_def model_index_at_def columnCount_def column_numbers modelp_def updateCol_def is_valid_def
          replace_row_def emit_signal_def bindp_def seqp_def figures_only_def same_store_def)
  qed
qed

lemma figures_general [figures]: "preserves figures_only general_extraDetails"
  unfolding general_extraDetails_def Let_def by (intro figures fig.keeps)

lemma figures_transfer [figures]: "preserves figures_only transfer_extraDetails"
  unfolding transfer_extraDetails_def by (intro figures fig.keeps)

section \<open>The statistics\<close>

text \<open>Seen from a fixed state: what is reached from it by figures only stays so. An entry of the cache
  may be written back when only its chart grew.\<close>

definition figures_from :: "'z gui_scheme \<Rightarrow> 'z gui_scheme \<Rightarrow> 'z gui_scheme \<Rightarrow> bool" where
  "figures_from w0 w w' \<longleftrightarrow> (figures_only w0 w \<longrightarrow> figures_only w0 w')"

interpretation figf: frame "figures_from w0" for w0
  by unfold_locales (auto simp: figures_from_def reflp_def transp_def)

lemma figures_from: "preserves figures_only m \<Longrightarrow> preserves (figures_from w0) m"
  using fig.trans by (auto simp: preserves_def figures_from_def dest: transpD)

lemma set_cache_figures:
  assumes "d\<lparr>di_down_speed_vals := []\<rparr> = (g_cache w0 ! j)\<lparr>di_down_speed_vals := []\<rparr>"
  shows "preserves (figures_from w0) (set_cache j d)"
  unfolding preserves_def figures_from_def
proof (intro allI impI)
  fix w
  assume w: "figures_only w0 w"
  let ?f = "\<lambda>d :: download_info. d\<lparr>di_down_speed_vals := []\<rparr>"
  have m: "map ?f (g_cache w) = map ?f (g_cache w0)" using w by (simp add: figures_only_def)
  have "map ?f ((g_cache w)[j := d]) = map ?f (g_cache w)"
  proof (cases "j < length (g_cache w)")
    case True
    then have "?f (g_cache w ! j) = ?f (g_cache w0 ! j)" using m by (metis length_map nth_map)
    then show ?thesis using True assms by (simp add: map_update list_update_same_conv)
  qed (simp add: list_update_beyond)
  then show "figures_only w0 (snd (set_cache j d w))"
    using w by (simp add: set_cache_def figures_only_def same_store_def)
qed

lemma figures_entry [figures]: "preserves figures_only (manage_entry i u j)"
  unfolding preserves_def
proof
  fix w :: "'a gui_scheme"
  define d where "d = g_cache w ! j"
  have "preserves (figures_from w) (entry_figures i j d)"
    unfolding entry_figures_def Let_def
    by (intro figf.keeps set_cache_figures figures_from figures; simp add: d_def column_numbers)
  then have "figures_from w w (snd (entry_figures i j d w))" by (simp add: preserves_def)
  then have "figures_only w (snd (entry_figures i j d w))"
    using reflpD [OF fig.refl, of w] by (simp add: figures_from_def)
  then show "figures_only w (snd (manage_entry i u j w))"
    using reflpD [OF fig.refl, of w] by (simp add: manage_entry_def d_def)
qed

lemma figures_manage: "preserves figures_only manageDlStats"
  unfolding manageDlStats_def by (intro fig.keeps figures)

section \<open>Properties\<close>

lemma figures_onlyD:
  assumes "figures_only w w'"
  shows "same_store w w'" "map (drop 8) (dv_rows (g_model w')) = map (drop 8) (dv_rows (g_model w))"
    "map length (dv_rows (g_model w')) = map length (dv_rows (g_model w))" "map di_stats (g_cache w') = map di_stats (g_cache w)"
    "map di_unique_id (g_cache w') = map di_unique_id (g_cache w)" "g_emitted w' = g_emitted w"
proof -
  let ?f = "\<lambda>d :: download_info. d\<lparr>di_down_speed_vals := []\<rparr>"
  have m: "map ?f (g_cache w') = map ?f (g_cache w)" using assms by (simp add: figures_only_def)
  have "map di_stats (map ?f ds) = map di_stats ds" "map di_unique_id (map ?f ds) = map di_unique_id ds" for ds
    by (simp_all add: o_def)
  with m show "map di_stats (g_cache w') = map di_stats (g_cache w)"
    "map di_unique_id (g_cache w') = map di_unique_id (g_cache w)" by metis+
qed (use assms in \<open>simp_all add: figures_only_def\<close>)

lemma find_index_some: "find_index P xs = Some i \<Longrightarrow> i < length xs \<and> P (xs ! i) \<and> (\<forall>k < i. \<not> P (xs ! k))"
proof (induction P xs arbitrary: i rule: find_index.induct)
  case (2 P x xs)
  show ?case
  proof (cases "P x")
    case False
    then obtain k where "i = Suc k" "find_index P xs = Some k" using "2.prems" by auto
    with "2.IH" [OF False this(2)] False show ?thesis by (auto simp: less_Suc_eq_0_disj)
  qed (use "2.prems" in auto)
qed simp

definition new_stat :: "'z gui_scheme \<Rightarrow> curl_dl_stats \<Rightarrow> gk_xfer_stats" where
  "new_stat w b = \<lparr>gx_upload_rate = Some (cs_upnow b), gx_download_rate = cs_dlnow b,
     gx_progress_ppm = w_garbage_int w, gx_download_total = cs_dltotal b,
     gx_upload_total = Some (cs_uptotal b), gx_num_pieces_dled = None, gx_cur_time = Some (w_now w)\<rparr>"

text \<open>C25: A statistic of a transfer goes to the end of the first HTTP or FTP download of the cache with its
  destination, whose timer it starts if it is the first one, and to no other download; no item of the
  history, no identifier, destination, address or status in the table and no row changes.\<close>

theorem recvCurl_XferStats_figures:
  assumes "cp_stat info \<noteq> []"
    and "find_index (\<lambda>d. is_http (di_dl_type d) \<and> di_dl_dest d = cp_file_dest info) (g_cache w) = Some k"
  shows "\<exists>r w'. recvCurl_XferStats info w = (r, w') \<and> k < length (g_cache w) \<and>
    di_dl_dest (g_cache w ! k) = cp_file_dest info \<and>
    map di_stats (g_cache w') = (map di_stats (g_cache w))
      [k := di_stats (add_stats (w_now w) (new_stat w (last (cp_stat info))) (g_cache w ! k))] \<and>
    map di_unique_id (g_cache w') = map di_unique_id (g_cache w) \<and>
    map (drop 8) (dv_rows (g_model w')) = map (drop 8) (dv_rows (g_model w)) \<and>
    map length (dv_rows (g_model w')) = map length (dv_rows (g_model w)) \<and> same_store w w'"
proof -
  define w1 where "w1 = w\<lparr>g_cache := (g_cache w)[k := add_stats (w_now w) (new_stat w (last (cp_stat info))) (g_cache w ! k)]\<rparr>"
  note k = find_index_some [OF assms(2)]
  have run: "recvCurl_XferStats info w = manageDlStats w1"
    using assms by (simp add: recvCurl_XferStats_def Let_def new_stat_def w1_def)
  obtain r w' where w': "manageDlStats w1 = (r, w')" by (cases "manageDlStats w1")
  note f = figures_onlyD [OF preservesD [OF figures_manage w']]
  have id: "di_unique_id (add_stats n x d) = di_unique_id d" for n x and d :: download_info
    by (simp add: add_stats_def Let_def)
  have "map di_unique_id (g_cache w1) = map di_unique_id (g_cache w)"
    using k by (simp add: w1_def map_update id list_update_same_conv)
  moreover have "same_store w w1" by (simp add: w1_def)
  then have "same_store w w'" using f(1) by (rule same_store_trans)
  ultimately show ?thesis
    using run w' f k by (simp add: w1_def map_update)
qed

theorem recvCurl_XferStats_figures_witness:
  "\<exists>r w'. recvCurl_XferStats \<lparr>cp_stat = [\<lparr>cs_dltotal = 5, cs_uptotal = 0, cs_dlnow = Finite 1, cs_upnow = Finite 0, cs_cur_time = 0\<rparr>],
       cp_url = ''http://h/disc.iso'', cp_file_dest = ''/home/u/disc.iso'', cp_timer_set = False, cp_content_length = Finite 0\<rparr>
     (sample_gui (fresh_world 7) [sample_row Downloading] [sample_info] []) = (r, w') \<and>
     map (\<lambda>d. length (gs_xfer_stats (di_stats d))) (g_cache w') = [2] \<and>
     map (\<lambda>d. gs_timer_begin (di_stats d)) (g_cache w') = [7]"
proof -
  let ?w = "sample_gui (fresh_world 7) [sample_row Downloading] [sample_info] []"
  let ?i = "\<lparr>cp_stat = [\<lparr>cs_dltotal = 5, cs_uptotal = 0, cs_dlnow = Finite 1, cs_upnow = Finite 0, cs_cur_time = 0\<rparr>],
    cp_url = ''http://h/disc.iso'', cp_file_dest = ''/home/u/disc.iso'', cp_timer_set = False, cp_content_length = Finite 0\<rparr>"
  have t: "w_now ?w = 7" by (simp add: sample_gui_def)
  obtain r w' where w': "recvCurl_XferStats ?i ?w = (r, w')"
    "map di_stats (g_cache w') = [di_stats (add_stats 7 (new_stat ?w (last (cp_stat ?i))) sample_info)]"
    using recvCurl_XferStats_figures [of ?i ?w 0] by (auto simp: is_http_def t)
  have "map (\<lambda>d. length (gs_xfer_stats (di_stats d))) (g_cache w') = map (\<lambda>s. length (gs_xfer_stats s)) (map di_stats (g_cache w'))"
    "map (\<lambda>d. gs_timer_begin (di_stats d)) (g_cache w') = map gs_timer_begin (map di_stats (g_cache w'))"
    by (simp_all add: o_def)
  then show ?thesis
    using w' by (simp add: add_stats_def sample_info_def new_download_info_def Let_def)
qed

end
