(* ===== verification/Window_Slots.thy ===== *)
theory Window_Slots
  imports Window_Figures Window_Actions
begin

text \<open>
  The start, the slots and the end of the main window (\<open>src/gui/mainwindow.cpp\<close>), and the window as
  a system: the events that reach it, and the states they lead to. The record \<open>app\<close> adds to the state of
  the handlers the dialogues that were opened and whether the thread of the transfers runs.
\<close>

section \<open>State\<close>

datatype dialog = Add_url_dialog | About_dialog | Settings_dialog | Context_menu "string list"

record app = gui +
  a_dialogs :: "dialog list"
  a_thread :: bool

type_synonym ('z, 'a) application = "('z app_scheme, 'a) prog"

definition open_dialog :: "dialog \<Rightarrow> ('z, unit) application" where
  "open_dialog d = modifyp (\<lambda>w. w\<lparr>a_dialogs := a_dialogs w @ [d]\<rparr>)"

section \<open>Start and end\<close>

text \<open>The constructor, after the database is open: the table is empty, and an exception from the
  history is shown.\<close>

definition window_startup :: "('z, unit) application" where
  "window_startup =
     seqp (show_box (Warning ''FyreDL is currently under intense development at this time!''))
     (seqp (connect Start_to_multi)
     (seqp (connect Finish_to_thread)
     (seqp (connect Finish_to_multi)
     (seqp (modifyp (\<lambda>w. w\<lparr>a_thread := True\<rparr>))
     (seqp (modifyp (\<lambda>w. w\<lparr>g_model := \<lparr>dv_rows = [], dv_signals = []\<rparr>\<rparr>))
     (seqp (connect Menu_to_window)
     (seqp (connect Stats_to_manage)
     (seqp (catchp readFromHistoryFile
              (\<lambda>e. if std_exception e then show_box (Warning ''Error!'') else raise e))
     (seqp (connect Terminate_to_window)
     (seqp (connect Keys_to_window)
        resetDlStateStartup))))))))))"

definition terminate_curl_downloads :: "('z, unit) application" where
  "terminate_curl_downloads =
     seqp (emit_gui Finish_curl_multi_thread) (modifyp (\<lambda>w. w\<lparr>a_thread := False\<rparr>))"

text \<open>The destructor; the signal is connected to \<open>terminate_curl_downloads\<close>.\<close>

definition window_end :: "('z, unit) application" where
  "window_end =
     seqp (emit_gui Terminate_xfers)
     (seqp terminate_curl_downloads (modifyp (\<lambda>w. w\<lparr>g_cache := []\<rparr>)))"

section \<open>Slots\<close>

datatype top_action = Open_a_File | Enter_URL | Exit_program | About_program | Documentation

datatype tool_button =
    Tool_addurl | Tool_addfile | Tool_print | Tool_dlstart | Tool_dlpause | Tool_dlstop | Tool_remove
  | Tool_clearhistory | Tool_settings | Tool_restart

datatype menu_action =
    Comma_Separated_Values | Reset_all_dialog_prompts | Preferences | Halt | Resume | Pause
  | Cleanup_erroneous_tasks | Restart | Edit_item | Delete_item

definition addDownload :: "('z, unit) application" where
  "addDownload = open_dialog Add_url_dialog"

definition removeDlItem :: "('z, unit) window" where
  "removeDlItem = removeSelRows"

fun top_slot :: "top_action \<Rightarrow> ('z, unit) application" where
  "top_slot Open_a_File = addDownload"
| "top_slot Enter_URL = addDownload"
| "top_slot Exit_program = modifyp (\<lambda>w. w\<lparr>g_exit := Some 0\<rparr>)"
| "top_slot About_program = open_dialog About_dialog"
| "top_slot Documentation = show_box (Information ''This function is not yet implemented.'')"

fun tool_slot :: "tool_button \<Rightarrow> ('z, unit) application" where
  "tool_slot Tool_addurl = addDownload"
| "tool_slot Tool_addfile = ret ()"
| "tool_slot Tool_print = ret ()"
| "tool_slot Tool_dlstart = resumeDownload"
| "tool_slot Tool_dlpause = pauseDownload"
| "tool_slot Tool_dlstop = haltDownload"
| "tool_slot Tool_remove = removeDlItem"
| "tool_slot Tool_clearhistory = clearOldHistory"
| "tool_slot Tool_settings = open_dialog Settings_dialog"
| "tool_slot Tool_restart = restartDownload"

definition not_implemented :: "('z, unit) application" where
  "not_implemented = show_box (Information ''This function is not implemented yet! Check back another time.'')"

fun menu_slot :: "menu_action \<Rightarrow> ('z, unit) application" where
  "menu_slot Comma_Separated_Values = not_implemented"
| "menu_slot Reset_all_dialog_prompts = not_implemented"
| "menu_slot Preferences = not_implemented"
| "menu_slot Halt = haltDownload"
| "menu_slot Resume = resumeDownload"
| "menu_slot Pause = pauseDownload"
| "menu_slot Cleanup_erroneous_tasks = clearOldHistory"
| "menu_slot Restart = restartDownload"
| "menu_slot Edit_item = ret ()"
| "menu_slot Delete_item = removeDlItem"

definition on_downloadView_customContextMenuRequested :: "('z, unit) application" where
  "on_downloadView_customContextMenuRequested = open_dialog (Context_menu [''Edit'', ''Delete''])"

definition on_downloadView_activated :: "('z, unit) window" where
  "on_downloadView_activated = show_details"

definition on_downloadView_clicked :: "('z, unit) window" where
  "on_downloadView_clicked = show_details"

text \<open>The arguments of the signal \<open>sendDetails\<close>, in the order of the slot.\<close>

record dl_details =
  sd_fileName :: string
  sd_fileSize :: double
  sd_downloaded :: int
  sd_progress :: double
  sd_upSpeed :: int
  sd_downSpeed :: int
  sd_status :: download_status
  sd_url :: string
  sd_destination :: string
  sd_hash_type :: hash_type
  sd_hash_val :: string
  sd_resp_code :: int
  sd_stat_ok :: bool
  sd_stat_msg :: string
  sd_unique_id :: string
  sd_down_type :: download_type

definition sendDetails_slot :: "dl_details \<Rightarrow> ('z, unit) window" where
  "sendDetails_slot x =
     sendDetails (sd_fileName x) (sd_fileSize x) (sd_downloaded x) (sd_progress x) (sd_upSpeed x) (sd_downSpeed x)
       (sd_status x) (sd_url x) (sd_destination x) (sd_hash_type x) (sd_hash_val x) (sd_resp_code x)
       (sd_stat_ok x) (sd_stat_msg x) (sd_unique_id x) (sd_down_type x)"

section \<open>Events\<close>

datatype window_event =
    Top top_action
  | Tool tool_button
  | Menu menu_action
  | Context_menu_requested
  | Activated
  | Clicked
  | Key_up
  | Key_down
  | Details dl_details
  | Curl_stats curl_progress
  | Torrent_stats torrent_resume_info
  | Update_stats
  | Dl_finished dl_status_msg

fun window_slot :: "window_event \<Rightarrow> ('z, unit) application" where
  "window_slot (Top a) = top_slot a"
| "window_slot (Tool b) = tool_slot b"
| "window_slot (Menu a) = menu_slot a"
| "window_slot Context_menu_requested = on_downloadView_customContextMenuRequested"
| "window_slot Activated = on_downloadView_activated"
| "window_slot Clicked = on_downloadView_clicked"
| "window_slot Key_up = keyUpDlModelSlot"
| "window_slot Key_down = keyDownDlModelSlot"
| "window_slot (Details x) = sendDetails_slot x"
| "window_slot (Curl_stats i) = recvCurl_XferStats i"
| "window_slot (Torrent_stats i) = recvBitTorrent_XferStats i"
| "window_slot Update_stats = manageDlStats"
| "window_slot (Dl_finished s) = recvDlFinished s"

text \<open>
  The states a window comes to: from the constructor, by slots that return, and by what happens around
  it, which leaves the table and the cache alone.
\<close>

inductive window_run :: "'z app_scheme \<Rightarrow> 'z app_scheme \<Rightarrow> bool" for w0 where
  started: "g_cache w0 = [] \<Longrightarrow> window_startup w0 = (Ok (), w) \<Longrightarrow> window_run w0 w"
| slot: "window_run w0 w \<Longrightarrow> window_slot e w = (Ok (), w') \<Longrightarrow> window_run w0 w'"
| around: "window_run w0 w \<Longrightarrow> g_model w' = g_model w \<Longrightarrow> g_cache w' = g_cache w \<Longrightarrow> window_run w0 w'"

end
