(* ===== verification/Window_Invariant.thy ===== *)
theory Window_Invariant
  imports Window_Slots
begin

text \<open>
  The invariant of the main window: every row of the table has all its cells, and the entries of the
  cache have distinct identifiers, none of them empty. Every slot keeps it, whatever the database, the
  disk, the network and the user answer, and so does the constructor; it holds in every state the
  window comes to.
\<close>

section \<open>The invariant\<close>

definition window_ok :: "'z gui_scheme \<Rightarrow> bool" where
  "window_ok w \<longleftrightarrow> full_rows (g_model w) \<and> distinct (map di_unique_id (g_cache w)) \<and>
     [] \<notin> di_unique_id ` set (g_cache w)"

definition ok_kept :: "'z gui_scheme \<Rightarrow> 'z gui_scheme \<Rightarrow> bool" where
  "ok_kept w w' \<longleftrightarrow> (window_ok w \<longrightarrow> window_ok w')"

interpretation okf: frame ok_kept
  by unfold_locales (auto simp: ok_kept_def reflp_def transp_def)

lemma ok_kept_refl [simp]: "ok_kept w w"
  by (simp add: ok_kept_def)

lemma ok_kept_window: "g_model w' = g_model w \<Longrightarrow> g_cache w' = g_cache w \<Longrightarrow> ok_kept w w'"
  by (simp add: ok_kept_def window_ok_def)

named_theorems ok_keeps \<open>parts of the window that keep its invariant\<close>

text \<open>An operation on the history does not reach the window.\<close>

lemma ok_of_env: "preserves same_env m \<Longrightarrow> preserves ok_kept m"
  unfolding preserves_def using same_windowD(1,2) [OF same_env_window] by (metis ok_kept_window)

named_theorems history_env \<open>operations on the history that keep the environment\<close>

lemma env_torrent_addenda [history_env]:
  "preserves same_env (read_torrent_files_addendum n k)" "preserves same_env (read_torrent_trkrs_addendum n k)"
proof -
  have o: "preserves same_env (open_checked s hs us)" for s hs us
    unfolding open_checked_def by (intro env.keeps env_keeps)
  have row: "preserves same_env (read_file_row k vs f)" for vs f
    unfolding read_file_row_def Let_def by (intro env.keeps env_keeps o)
  have step: "preserves same_env (file_rows_step rd k x)" for rd x
    unfolding file_rows_step_def by (intro env.keeps env_keeps row)
  have "preserves same_env (read_files_from m c k fs)" for m c fs
  proof (induction m arbitrary: c fs)
    case (Suc m)
    then show ?case unfolding read_files_from.simps Let_def by (intro env.keeps env.while env_keeps o step) simp_all
  qed (simp add: env.keeps)
  then show "preserves same_env (read_torrent_files_addendum n k)"
    unfolding read_torrent_files_addendum_def by (intro env.keeps)
  show "preserves same_env (read_torrent_trkrs_addendum n k)"
    unfolding read_torrent_trkrs_addendum_def by (intro env.keeps env_keeps o)
qed

lemma env_history [history_env]:
  "preserves same_env readCurlItems" "preserves same_env (readTorrentItems b)" "preserves same_env (addCurlItem d)"
  "preserves same_env (delCurlItem p i)" "preserves same_env (modifyCurlItem p s c g t h v)"
  "preserves same_env (modify_status p s)" "preserves same_env (modifyTorrentItem i s)" "preserves same_env (delTorrentItem i)"
proof -
  have "preserves same_env (read_curl_item e)" for e
    unfolding read_curl_item_def by (intro env.keeps env_keeps)
  then show "preserves same_env readCurlItems"
    unfolding readCurlItems_def by (intro env_warning env_try_lock env.keeps env_keeps)
  have "preserves same_env (read_torrent_item b e)" for e
    unfolding read_torrent_item_def Let_def by (intro env.keeps env_keeps history_env)
  then show "preserves same_env (readTorrentItems b)"
    unfolding readTorrentItems_def by (intro env_warning env_try_lock env.keeps env_keeps)
  show "preserves same_env (addCurlItem d)"
    unfolding addCurlItem_def add_items_def Let_def by (intro env_warning env_try_lock env.keeps env_keeps)
  show "preserves same_env (delCurlItem p i)" by (rule env_del)
  show m: "preserves same_env (modifyCurlItem p s c g t h v)" for p s c g t h v by (rule env_modify)
  show "preserves same_env (modify_status p s)" unfolding modify_status_def by (rule m)
  show "preserves same_env (modifyTorrentItem i s)" "preserves same_env (delTorrentItem i)"
    unfolding modifyTorrentItem_def delTorrentItem_def by (intro env.keeps)+
qed

lemmas ok_history [ok_keeps] = history_env [THEN ok_of_env]

section \<open>The parts of the window\<close>

lemma ok_window_parts [ok_keeps]:
  "preserves ok_kept (show_box b)" "preserves ok_kept (emit_gui s)" "preserves ok_kept (connect c)"
  "preserves ok_kept (ask b)" "preserves ok_kept (set_label l t)" "preserves ok_kept (remove_file p)"
  "preserves ok_kept (select_row r)" "preserves ok_kept (modifyp (\<lambda>w. w\<lparr>g_exit := x\<rparr>))"
  "preserves ok_kept (modifyp (\<lambda>w. w\<lparr>g_contents := v\<rparr>))" "preserves ok_kept (view_text r k)"
  "preserves ok_kept (getFileSize p)"
proof -
  show "preserves ok_kept (view_text r k)" "preserves ok_kept (getFileSize p)"
    unfolding view_text_def getFileSize_def by (intro okf.keeps)+
qed (auto simp: preserves_def show_box_def emit_gui_def connect_def ask_def set_label_def remove_file_def select_row_def
  seqp_def bindp_def intro!: ok_kept_window)

lemma ok_warning [ok_keeps]: "preserves ok_kept m \<Longrightarrow> preserves ok_kept (with_warning m a)"
  unfolding with_warning_def by (intro okf.keeps ok_keeps)

lemma ok_selection [ok_keeps]: "(\<And>r. preserves ok_kept (f r)) \<Longrightarrow> preserves ok_kept (with_selection f)"
  unfolding with_selection_def by (intro okf.keeps)

text \<open>The table.\<close>

lemma full_rows_replace: "full_rows m \<Longrightarrow> length r = 12 \<Longrightarrow> full_rows (m\<lparr>dv_rows := (dv_rows m)[i := r], dv_signals := s\<rparr>)"
  unfolding full_rows_def by (auto dest!: set_update_subset_insert [THEN subsetD])

lemma full_rows_signals [simp]: "full_rows (m\<lparr>dv_signals := s\<rparr>) = full_rows m"
  by (simp add: full_rows_def)

lemma full_rows_remove: "full_rows m \<Longrightarrow> full_rows (snd (removeRows i n m))"
proof -
  assume f: "full_rows m"
  have one: "set (list_remove_at i xs) \<subseteq> set xs" for xs :: "string list list"
    unfolding list_remove_at_def by (auto dest: in_set_takeD in_set_dropD)
  have "set ((list_remove_at i ^^ k) xs) \<subseteq> set xs" for k and xs :: "string list list"
    by (induction k arbitrary: xs) (use one in \<open>force+\<close>)
  then show ?thesis
    using f unfolding removeRows_def full_rows_def emit_signal_def by (auto simp: seqp_def bindp_def)
qed

lemma ok_remove [ok_keeps]: "preserves ok_kept (modelp (removeRows i n))"
  unfolding preserves_def ok_kept_def window_ok_def modelp_def
  using full_rows_remove by (auto split: prod.splits) (metis snd_conv)

lemma updateCol_keeps_full: "full_rows m \<Longrightarrow> full_rows (snd (updateCol i x c m))"
proof -
  assume f: "full_rows m"
  have "length (dv_rows m ! nat (mi_row i)) = 12" if "0 \<le> mi_row i" "mi_row i < rowCount m"
    using f that by (simp add: full_rows_def rowCount_def)
  then show ?thesis
    using f full_rows_replace [OF f]
    by (auto simp: updateCol_def replace_row_def emit_signal_def bindp_def seqp_def)
qed

lemma ok_update [ok_keeps]: "preserves ok_kept (update_col r c x)"
  unfolding preserves_def ok_kept_def window_ok_def modelp_def update_col_def
  using updateCol_keeps_full by (auto split: prod.splits) (metis snd_conv)

text \<open>A new row is filled to its last cell before anything else happens.\<close>

text \<open>The entry goes to the cache of a state with the same window as the one that was looked at.\<close>

lemma ok_add_entry:
  assumes "preserves same_env m" and "\<And>r. di_unique_id (f r) = i" and "i \<noteq> []" and "i \<notin> di_unique_id ` set (g_cache w)"
  shows "ok_kept w (snd (bindp m (\<lambda>r. modifyp (\<lambda>w. w\<lparr>g_cache := g_cache w @ [f r]\<rparr>)) w))"
proof -
  obtain r w1 where m: "m w = (r, w1)" by (cases "m w")
  have "same_window w w1" using preservesD [OF assms(1) m] by (rule same_env_window)
  then have "g_model w1 = g_model w" "g_cache w1 = g_cache w" by (rule same_windowD)+
  then show ?thesis
    using m assms(2-4) by (cases r) (auto simp: bindp_def ok_kept_def window_ok_def)
qed

lemma ok_initCharts [ok_keeps]: "preserves ok_kept (initCharts i p ty)"
  unfolding preserves_def
proof
  fix w :: "'a gui_scheme"
  define e where "e = new_download_info i p ty (g_garbage_status w) (h_garbage_double w)"
  have e: "di_unique_id e = i" by (simp add: e_def new_download_info_def)
  let ?add = "\<lambda>m f. bindp (bindp m (\<lambda>x. ret (f x))) (\<lambda>r. modifyp (\<lambda>w :: 'a gui_scheme. w\<lparr>g_cache := g_cache w @ [r]\<rparr>)) w"
  have add: "ok_kept w (snd (?add m f))"
    if "preserves same_env m" "\<And>x. di_unique_id (f x) = i" "i \<noteq> []" "i \<notin> di_unique_id ` set (g_cache w)" for m f
  proof -
    have "?add m f = bindp m (\<lambda>r. modifyp (\<lambda>w :: 'a gui_scheme. w\<lparr>g_cache := g_cache w @ [f r]\<rparr>)) w"
      by (simp add: bindp_def split: prod.splits outcome.splits)
    then show ?thesis using ok_add_entry [OF that] by simp
  qed
  show "ok_kept w (snd (initCharts i p ty w))"
  proof (cases "i \<noteq> [] \<and> i \<notin> di_unique_id ` set (g_cache w)")
    case True
    then show ?thesis
      using add [OF env_history(1)] add [OF env_history(2)] e
      by (simp add: initCharts_def e_def [symmetric] split: option.split)
  next
    case False
    then show ?thesis by (auto simp: initCharts_def)
  qed
qed

lemma ok_insertNewRow [ok_keeps]: "preserves ok_kept (insertNewRow name sz dl prog up down status url p i ty :: ('z, unit) window)"
proof -
  let ?body = "bindp (modelp (insertRows 0 1)) (\<lambda>_. bindp (getp g_lib) (\<lambda>lib.
    seqp (each set_cell (row_texts lib name sz dl prog up down status url p i)) (initCharts i p ty))) :: ('z, unit) window"
  have "preserves ok_kept ?body"
    unfolding preserves_def
  proof
    fix w :: "'z gui_scheme"
    let ?t = "map snd (row_texts (g_lib w) name sz dl prog up down status url p i)"
    obtain sg where r: "?body w = initCharts i p ty (w\<lparr>g_model := \<lparr>dv_rows = ?t # dv_rows (g_model w), dv_signals = sg\<rparr>\<rparr>)"
      (is "_ = initCharts i p ty ?w") using new_row_run by blast
    have "length ?t = 12" by (simp add: row_texts_def)
    then have "ok_kept w ?w" by (simp add: ok_kept_def window_ok_def full_rows_def)
    moreover have "ok_kept ?w (snd (initCharts i p ty ?w))"
      using ok_initCharts [of i p ty] unfolding preserves_def by blast
    ultimately show "ok_kept w (snd (?body w))" using r by (simp add: ok_kept_def)
  qed
  then show ?thesis unfolding insertNewRow_def by (rule ok_warning)
qed

section \<open>The handlers\<close>

lemma ok_each [ok_keeps]: "(\<And>x. preserves ok_kept (f x)) \<Longrightarrow> preserves ok_kept (each f xs)"
  by (rule okf.loop)

lemma ok_for_each [ok_keeps]: "(\<And>x a. preserves ok_kept (f x a)) \<Longrightarrow> preserves ok_kept (for_each f xs a)"
  by (rule okf.for_each)

lemma ok_start [ok_keeps]:
  "preserves ok_kept (startHttpDownload p i b)" "preserves ok_kept (startTorrentDl i)"
proof -
  show "preserves ok_kept (startHttpDownload p i b)"
    unfolding startHttpDownload_def Let_def by (intro ok_keeps okf.keeps)
  show "preserves ok_kept (startTorrentDl i)"
    unfolding startTorrentDl_def Let_def by (intro ok_keeps okf.keeps)
qed

lemma ok_askDelete [ok_keeps]: "preserves ok_kept (askDeleteHttpItem p i b)"
  unfolding askDeleteHttpItem_def by (intro ok_keeps okf.keeps)

lemma ok_resume_http [ok_keeps]: "preserves ok_kept (resume_http p i s)"
  unfolding resume_http_def by (intro ok_keeps okf.keeps)

lemma ok_halt_entry [ok_keeps]: "preserves ok_kept (halt_entry r p i s d)"
  unfolding halt_entry_def by (intro ok_keeps okf.keeps)

lemma ok_buttons [ok_keeps]:
  "preserves ok_kept haltDownload" "preserves ok_kept resumeDownload" "preserves ok_kept pauseDownload"
  "preserves ok_kept restartDownload" "preserves ok_kept clearOldHistory"
proof -
  have c: "preserves ok_kept (clear_row i js)" for i js
    unfolding clear_row_def by (intro ok_keeps okf.keeps)
  show "preserves ok_kept haltDownload" "preserves ok_kept resumeDownload" "preserves ok_kept pauseDownload"
    "preserves ok_kept restartDownload"
    unfolding haltDownload_def resumeDownload_def pauseDownload_def restartDownload_def Let_def
    by (intro ok_keeps okf.keeps)+
  show "preserves ok_kept clearOldHistory"
    unfolding clearOldHistory_def by (intro ok_keeps okf.keeps okf.sum c) (simp add: okf.basic split: unit.split)
qed

lemma ok_details [ok_keeps]:
  "preserves ok_kept general_extraDetails" "preserves ok_kept transfer_extraDetails" "preserves ok_kept contentsView_update"
  unfolding general_extraDetails_def transfer_extraDetails_def contentsView_update_def Let_def
  by (intro ok_keeps okf.keeps)+

lemma ok_show_details [ok_keeps]: "preserves ok_kept show_details"
  unfolding show_details_def by (intro ok_keeps okf.keeps)

lemma ok_keys [ok_keeps]: "preserves ok_kept (key_slot n)"
  unfolding key_slot_def by (intro ok_keeps okf.keeps)

lemma ok_finished [ok_keeps]: "preserves ok_kept (recvDlFinished s)"
proof -
  have h: "preserves ok_kept (hash_of_download s items)" for items
    unfolding hash_of_download_def by (intro ok_keeps okf.keeps)
  have "preserves ok_kept (finish_row s i)" for i
    unfolding finish_row_def by (intro ok_keeps okf.keeps h)
  then show ?thesis unfolding recvDlFinished_def by (intro ok_keeps okf.keeps)
qed

lemma ok_sendDetails [ok_keeps]:
  "preserves ok_kept (sendDetails name sz dl prog up down status url p ht hv code ok msg i ty)"
  unfolding sendDetails_def Let_def by (intro ok_keeps okf.keeps)

section \<open>The figures\<close>

lemma ok_figures: "figures_only w w' \<Longrightarrow> ok_kept w w'"
proof -
  assume f: "figures_only w w'"
  then have l: "map length (dv_rows (g_model w')) = map length (dv_rows (g_model w))"
    and u: "map di_unique_id (g_cache w') = map di_unique_id (g_cache w)" by (rule figures_onlyD)+
  from l have "set (map length (dv_rows (g_model w'))) = set (map length (dv_rows (g_model w)))" by (rule arg_cong)
  then have full: "full_rows (g_model w) \<Longrightarrow> full_rows (g_model w')"
    unfolding full_rows_def by (metis (no_types, lifting) image_iff list.set_map)
  from u have "set (map di_unique_id (g_cache w')) = set (map di_unique_id (g_cache w))" by (rule arg_cong)
  then have "di_unique_id ` set (g_cache w') = di_unique_id ` set (g_cache w)" by simp
  with full u show ?thesis by (simp add: ok_kept_def window_ok_def)
qed

lemma ok_manage [ok_keeps]: "preserves ok_kept manageDlStats"
  using figures_manage ok_figures by (auto simp: preserves_def)

lemma ok_entry_replaced:
  assumes "di_unique_id d = di_unique_id (g_cache w ! i)"
  shows "ok_kept w (w\<lparr>g_cache := (g_cache w)[i := d]\<rparr>)"
proof -
  have m: "map di_unique_id ((g_cache w)[i := d]) = map di_unique_id (g_cache w)"
  proof (cases "i < length (g_cache w)")
    case True
    then show ?thesis using assms by (simp add: map_update list_update_same_conv)
  qed (simp add: list_update_beyond)
  then have "di_unique_id ` set ((g_cache w)[i := d]) = di_unique_id ` set (g_cache w)" by (metis list.set_map)
  with m show ?thesis by (simp add: ok_kept_def window_ok_def)
qed

lemma add_stats_id: "di_unique_id (add_stats now x d) = di_unique_id d"
  by (simp add: add_stats_def Let_def)

lemma ok_add_stats [ok_keeps]:
  "preserves ok_kept (modifyp (\<lambda>w. w\<lparr>g_cache := (g_cache w)[i := add_stats (w_now w) x (g_cache w ! i)]\<rparr>))"
  by (rule okf.modify) (intro ok_entry_replaced add_stats_id)

lemma ok_stats [ok_keeps]:
  "preserves ok_kept (recvCurl_XferStats info)" "preserves ok_kept (recvBitTorrent_XferStats rinfo)"
proof -
  show "preserves ok_kept (recvCurl_XferStats info)"
    unfolding recvCurl_XferStats_def Let_def by (intro ok_keeps okf.keeps)
  have set: "preserves ok_kept (bindp (getp (\<lambda>w. g_cache w ! i)) (\<lambda>d.
      case di_to_info d of None \<Rightarrow> raise e | Some t \<Rightarrow> seqp (set_cache i (d\<lparr>di_to_info := Some (f t)\<rparr>)) manageDlStats))" for i e f
    unfolding preserves_def
  proof
    fix w :: "'z gui_scheme"
    have "ok_kept w (snd (seqp (set_cache i ((g_cache w ! i)\<lparr>di_to_info := Some t\<rparr>)) manageDlStats w))" for t
    proof -
      let ?w = "w\<lparr>g_cache := (g_cache w)[i := (g_cache w ! i)\<lparr>di_to_info := Some t\<rparr>]\<rparr>"
      have "ok_kept w ?w" by (rule ok_entry_replaced) simp
      moreover have "ok_kept ?w (snd (manageDlStats ?w))" using ok_manage unfolding preserves_def by blast
      ultimately show ?thesis by (simp add: set_cache_def ok_kept_def)
    qed
    then show "ok_kept w (snd (bindp (getp (\<lambda>w. g_cache w ! i)) (\<lambda>d.
      case di_to_info d of None \<Rightarrow> raise e | Some t \<Rightarrow> seqp (set_cache i (d\<lparr>di_to_info := Some (f t)\<rparr>)) manageDlStats) w))"
      by (simp split: option.split)
  qed
  show "preserves ok_kept (recvBitTorrent_XferStats rinfo)"
    unfolding recvBitTorrent_XferStats_def by (intro ok_keeps okf.keeps set)
qed

section \<open>Slots, start and reachable states\<close>

lemma ok_open_dialog [ok_keeps]: "preserves ok_kept (open_dialog d)"
  by (simp add: open_dialog_def preserves_def ok_kept_def window_ok_def)

lemma ok_removeSelRows [ok_keeps]: "preserves ok_kept removeSelRows"
proof -
  have sub: "set (map di_unique_id (remove_first P ds)) \<subseteq> set (map di_unique_id ds)" for P ds
    by (induction ds) auto
  have dis: "distinct (map di_unique_id ds) \<Longrightarrow> distinct (map di_unique_id (remove_first P ds))" for P ds
    by (induction ds) (use sub in auto)
  have "ok_kept w (w\<lparr>g_cache := remove_first P (g_cache w)\<rparr>)" for w :: "'z gui_scheme" and P
    using sub [of P "g_cache w"] dis [of "g_cache w" P] by (auto simp: ok_kept_def window_ok_def)
  then have "preserves ok_kept (modifyp (\<lambda>w :: 'z gui_scheme. w\<lparr>g_cache := remove_first P (g_cache w)\<rparr>))" for P
    by (rule okf.modify)
  then show ?thesis
    unfolding removeSelRows_def by (intro ok_keeps okf.keeps)
qed

lemma ok_history_rows [ok_keeps]:
  "preserves ok_kept (history_row d)" "preserves ok_kept (torrent_row t)"
  unfolding history_row_def torrent_row_def Let_def by (intro ok_keeps okf.keeps)+

lemma ok_startup_parts [ok_keeps]: "preserves ok_kept readFromHistoryFile" "preserves ok_kept resetDlStateStartup"
proof -
  show "preserves ok_kept readFromHistoryFile"
    unfolding readFromHistoryFile_def by (intro ok_keeps okf.keeps)
  have "preserves ok_kept (reset_row i b)" for i b
    unfolding reset_row_def by (intro ok_keeps okf.keeps okf.sum) (simp add: okf.basic split: unit.split)
  then show "preserves ok_kept resetDlStateStartup"
    unfolding resetDlStateStartup_def by (intro ok_keeps okf.keeps)
qed

lemma ok_slot: "preserves ok_kept (window_slot e)"
proof (cases e)
  case (Top a)
  then show ?thesis by (cases a) (simp_all add: ok_keeps addDownload_def)
next
  case (Tool b)
  then show ?thesis by (cases b) (simp_all add: ok_keeps addDownload_def removeDlItem_def okf.basic)
next
  case (Menu a)
  then show ?thesis by (cases a) (simp_all add: ok_keeps not_implemented_def removeDlItem_def okf.basic)
qed (simp_all add: ok_keeps on_downloadView_customContextMenuRequested_def on_downloadView_activated_def
  on_downloadView_clicked_def keyUpDlModelSlot_def keyDownDlModelSlot_def sendDetails_slot_def)

text \<open>The constructor empties the table before it reads the history.\<close>

lemma ok_startup:
  fixes w :: "'z app_scheme"
  assumes "g_cache w = []"
  shows "window_ok (snd (window_startup w))"
proof -
  define rest :: "('z, unit) application" where
    "rest = seqp (connect Menu_to_window) (seqp (connect Stats_to_manage)
       (seqp (catchp readFromHistoryFile (\<lambda>e. if std_exception e then show_box (Warning ''Error!'') else raise e))
       (seqp (connect Terminate_to_window) (seqp (connect Keys_to_window) resetDlStateStartup))))"
  have rest: "preserves ok_kept rest"
    unfolding rest_def by (intro ok_keeps okf.keeps)
  obtain w1 where w1: "window_startup w = rest w1" and "window_ok w1"
  proof
    let ?w1 = "snd (seqp (show_box (Warning ''FyreDL is currently under intense development at this time!''))
     (seqp (connect Start_to_multi) (seqp (connect Finish_to_thread) (seqp (connect Finish_to_multi)
     (seqp (modifyp (\<lambda>w. w\<lparr>a_thread := True\<rparr>)) (modifyp (\<lambda>w. w\<lparr>g_model := \<lparr>dv_rows = [], dv_signals = []\<rparr>\<rparr>)))))) w)"
    show "window_startup w = rest ?w1"
      unfolding window_startup_def rest_def show_box_def connect_def by simp
    show "window_ok ?w1"
      using assms unfolding show_box_def connect_def by (simp add: window_ok_def full_rows_def)
  qed
  then show ?thesis using rest by (simp add: preserves_def ok_kept_def)
qed

lemma window_run_ok: "window_run w0 w \<Longrightarrow> window_ok w"
proof (induction rule: window_run.induct)
  case (started w)
  then show ?case using ok_startup [of w0] by simp
next
  case (slot w e w')
  then show ?case using preservesD [OF ok_slot slot.hyps(2)] by (simp add: ok_kept_def)
next
  case (around w w')
  then show ?case by (simp add: window_ok_def)
qed

end
