(* ===== verification/Window_Properties.thy ===== *)
theory Window_Properties
  imports Window_Samples
begin

text \<open>
  What the handlers of the main window do to the table, the cache and the history together: new
  downloads, the history shown at the start, the end of a transfer, stopping, removing, starting, and
  the statistics. The histories of the statements are well-formed (\<open>history\<close>), the database answers
  (\<open>healthy\<close>), and no other thread holds the mutexes.
\<close>

section \<open>The item a new download is stored as\<close>

definition sent_item :: "'z gui_scheme \<Rightarrow> double \<Rightarrow> download_status \<Rightarrow> string \<Rightarrow> string \<Rightarrow> hash_type \<Rightarrow> string \<Rightarrow> int \<Rightarrow>
    bool \<Rightarrow> string \<Rightarrow> string \<Rightarrow> curl_dl_info" where
  "sent_item w fileSize status url destination hash_type hash_val resp_code stat_ok stat_msg unique_id =
     \<lparr>cd_file_loc = destination, cd_insert_timestamp = 0, cd_complt_timestamp = w_garbage_int w, cd_dlStatus = status,
      cd_ext_info = \<lparr>ce_status_ok = stat_ok, ce_status_msg = stat_msg, ce_response_code = resp_code,
        ce_elapsed = h_garbage_double w, ce_effective_url = url, ce_content_length = fileSize\<rparr>,
      cd_unique_id = unique_id, cd_hash_type = hash_type, cd_hash_val_given = hash_val,
      cd_hash_val_rtrnd = [], cd_hash_succ_type = fh_hash_verif (g_garbage_hash w)\<rparr>"

lemma sendDetails_stores:
  assumes "history w es" and "healthy w" and "fair_order w" and "\<not> w_held w R_curl" and "\<not> w_held w W_curl"
    and "is_http ty" and "stat_ok" and "status \<in> {Stopped, Invalid, Unknown}"
    and "valid_entry (i, p, False)" and "UNDERSCORE \<notin> set i" and "i \<notin> fst ` set es"
    and "i \<notin> di_unique_id ` set (g_cache w)" and "p \<notin> \<Union> (set ` set (dv_rows (g_model w)))"
    and "fits64 (w_now w)" and "fits64 resp" and "sz = Finite (of_int n)" and "\<bar>n\<bar> < 2 ^ 53"
  shows "\<exists>w'. sendDetails name sz dl prog up down status url p ht hv resp stat_ok msg i ty w = (Ok (), w') \<and>
    history w' (es @ [(i, p, False)]) \<and>
    curl_items w' (es @ [(i, p, False)]) = curl_items w es @
      [curl_readback (w_garbage w) (stamp_curl (w_now w) (sent_item w sz status url p ht hv resp stat_ok msg i))] \<and>
    dv_rows (g_model w') = map snd (row_texts (g_lib w) name sz dl prog up down status url p i) # dv_rows (g_model w) \<and>
    g_cache w' = g_cache w @ [new_download_info i p ty (g_garbage_status w) (h_garbage_double w)] \<and>
    w_boxes w' = w_boxes w \<and> g_lib w' = g_lib w"
proof -
  have "i \<noteq> []" using assms(9) by (auto simp: valid_entry_def clean_field_def)
  then obtain w1 where w1: "insertNewRow name sz dl prog up down status url p i ty w = (Ok (), w1)" "same_store w w1"
    and rows: "dv_rows (g_model w1) = map snd (row_texts (g_lib w) name sz dl prog up down status url p i) # dv_rows (g_model w)"
    and cache: "g_cache w1 = g_cache w @ [http_entry i p ty w (curl_items w es)]" and box: "w_boxes w1 = w_boxes w"
    and same: "same_but_table w w1"
    using insertNewRow_http [OF assms(1-4) _ assms(12,6)] by blast
  note d = same_storeD [OF w1(2)] same_but_tableD [OF same]
  have "i \<notin> cd_unique_id ` set (curl_items w es)"
    using assms(11) arg_cong [OF curl_items_ids [OF assms(1)], of set] by auto
  then have "find (\<lambda>d. cd_unique_id d = i) (curl_items w es) = None" by (auto simp: find_None_iff)
  then have entry: "http_entry i p ty w (curl_items w es) = new_download_info i p ty (g_garbage_status w) (h_garbage_double w)"
    by (simp add: http_entry_def)
  let ?dl = "sent_item w sz status url p ht hv resp stat_ok msg i"
  have "\<exists>w'. addCurlItem ?dl w1 = (Ok (True, stamp_curl (w_now w1) ?dl), w') \<and>
    history w' (es @ [(cd_unique_id ?dl, cd_file_loc ?dl, False)]) \<and>
    curl_items w' (es @ [(cd_unique_id ?dl, cd_file_loc ?dl, False)]) =
      curl_items w1 es @ [curl_readback (w_garbage w1) (stamp_curl (w_now w1) ?dl)] \<and>
    w_boxes w' = w_boxes w1 \<and> same_env w1 w'"
  proof (rule add_curl_history)
    show "storable_curl (stamp_curl (w_now w1) ?dl)"
      using assms(14-17) d by (auto simp: storable_curl_def stamp_curl_def sent_item_def fits64_def int64_min_def int64_max_def)
  qed (use assms(1-11) d in \<open>simp_all add: sent_item_def\<close>)
  then obtain w2 where w2: "addCurlItem ?dl w1 = (Ok (True, stamp_curl (w_now w1) ?dl), w2)"
    and h2: "history w2 (es @ [(i, p, False)])" "w_boxes w2 = w_boxes w1" "same_env w1 w2"
      "curl_items w2 (es @ [(i, p, False)]) = curl_items w es @ [curl_readback (w_garbage w) (stamp_curl (w_now w) ?dl)]"
    using d by (auto simp: sent_item_def)
  have run: "sendDetails name sz dl prog up down status url p ht hv resp stat_ok msg i ty w = (Ok (), w2)"
    using assms(6,13) w1(1) w2 d
    by (simp add: sendDetails_def getList_def seqp_Ok bindp_def sent_item_def)
  moreover have "g_model w2 = g_model w1" "g_cache w2 = g_cache w1" "g_lib w2 = g_lib w1" using same_windowD [OF same_env_window [OF h2(3)]] by simp_all
  ultimately show ?thesis using h2 rows cache box entry d by simp
qed

lemma fresh_window:
  "history (sample_gui (fresh_world 7) rows cache sel) []" "healthy (sample_gui (fresh_world 7) rows cache sel)"
  "fair_order (sample_gui (fresh_world 7) rows cache sel)" "\<not> w_held (sample_gui (fresh_world 7) rows cache sel) m"
  "w_now (sample_gui (fresh_world 7) rows cache sel) = 7" "curl_items (sample_gui (fresh_world 7) rows cache sel) [] = []"
  using sample_facts(1,2) by (simp_all add: same_storeD [OF sample_gui_simps(1)])

section \<open>The history shown at the start\<close>

lemma same_but_table_trans: "same_but_table w w' \<Longrightarrow> same_but_table w' w'' \<Longrightarrow> same_but_table w w''"
  unfolding same_but_table_def same_window_def by (cases w; cases w'; cases w'') simp

lemma same_but_table_refl [simp]: "same_but_table w w"
  unfolding same_but_table_def same_window_def by (cases w) simp

lemma same_window_but_table: "same_window w w' \<Longrightarrow> same_but_table w (w'\<lparr>g_model := m\<rparr>)"
  unfolding same_but_table_def same_window_def by (cases w; cases w') simp

lemma readTorrentItems_none:
  assumes "history w es" and "healthy w" and "fair_order w" and "\<And>i p t. (i, p, t) \<in> set es \<Longrightarrow> \<not> t"
  shows "\<exists>w'. readTorrentItems b w = (Ok [], w') \<and> same_world w w'"
proof (cases "w_held w R_torrent")
  case True
  then have "readTorrentItems b w = (Ok [], w)"
    unfolding readTorrentItems_def by (intro with_warning_Ok) (simp add: try_lock_held)
  then show ?thesis by (intro exI [of _ w]) simp
next
  case False
  note h = historyD [OF assms(1)]
  obtain ids w1 where x: "extract_download_ids True w = (Ok ids, w1)" "same_world w w1"
    and ids: "mset ids = mset (filter (\<lambda>(i, p, t). t = True) es)"
    using extract_registered [OF h(1) assms(2,3) h(2)] by blast
  have "filter (\<lambda>(i, p, t). t = True) es = []" using assms(4) by (auto simp: filter_empty_conv)
  then have "ids = []" using ids by simp
  with x False have "readTorrentItems b w = (Ok [], w1)"
    unfolding readTorrentItems_def by (intro with_warning_Ok) (simp add: try_lock_free bindp_Ok)
  with x(2) show ?thesis by blast
qed

definition history_texts :: "gui_library \<Rightarrow> curl_dl_info \<Rightarrow> string list" where
  "history_texts lib d = map snd (row_texts lib (ce_effective_url (cd_ext_info d)) (ce_content_length (cd_ext_info d)) 0
     (Finite 0) 0 0 (cd_dlStatus d) (ce_effective_url (cd_ext_info d)) (cd_file_loc d) (cd_unique_id d))"

lemma history_rows_run:
  "history w es \<Longrightarrow> healthy w \<Longrightarrow> fair_order w \<Longrightarrow> \<not> w_held w R_curl \<Longrightarrow>
   \<forall>d \<in> set ds. cd_file_loc d \<noteq> [] \<and> cd_unique_id d \<noteq> [] \<and> d_less (Finite 0) (ce_content_length (cd_ext_info d)) \<Longrightarrow>
   distinct (map cd_unique_id ds) \<Longrightarrow> cd_unique_id ` set ds \<inter> di_unique_id ` set (g_cache w) = {} \<Longrightarrow>
   \<exists>w'. each history_row ds w = (Ok (), w') \<and> same_store w w' \<and> same_but_table w w' \<and> w_boxes w' = w_boxes w \<and>
     dv_rows (g_model w') = rev (map (history_texts (g_lib w)) ds) @ dv_rows (g_model w) \<and>
     g_cache w' = g_cache w @ map (\<lambda>d. http_entry (cd_unique_id d) (cd_file_loc d) HTTP w (curl_items w es)) ds"
proof (induction ds arbitrary: w)
  case Nil
  then show ?case by (intro exI [of _ w]) simp
next
  case (Cons d ds)
  obtain w1 where w1: "history_row d w = (Ok (), w1)" "same_store w w1" "same_but_table w w1" "w_boxes w1 = w_boxes w"
    "dv_rows (g_model w1) = history_texts (g_lib w) d # dv_rows (g_model w)"
    "g_cache w1 = g_cache w @ [http_entry (cd_unique_id d) (cd_file_loc d) HTTP w (curl_items w es)]"
    using insertNewRow_http [OF Cons.prems(1-4), where i = "cd_unique_id d" and p = "cd_file_loc d" and ty = HTTP
        and name = "ce_effective_url (cd_ext_info d)" and sz = "ce_content_length (cd_ext_info d)" and dl = 0
        and prog = "Finite 0" and up = 0 and down = 0 and status = "cd_dlStatus d"
        and url = "ce_effective_url (cd_ext_info d)"] Cons.prems(5,7)
    by (auto simp: history_row_def history_texts_def is_http_def)
  note f = same_storeD [OF w1(2)] same_but_tableD [OF w1(3)]
  have "history w1 es" "healthy w1" "fair_order w1" "\<not> w_held w1 R_curl" using Cons.prems(1-4) f by simp_all
  moreover have "cd_unique_id ` set ds \<inter> di_unique_id ` set (g_cache w1) = {}"
    using Cons.prems(6,7) by (auto simp: w1(6) http_entry_id)
  ultimately obtain w2 where w2: "each history_row ds w1 = (Ok (), w2)" "same_store w1 w2" "same_but_table w1 w2"
    "w_boxes w2 = w_boxes w1" "dv_rows (g_model w2) = rev (map (history_texts (g_lib w1)) ds) @ dv_rows (g_model w1)"
    "g_cache w2 = g_cache w1 @ map (\<lambda>d. http_entry (cd_unique_id d) (cd_file_loc d) HTTP w1 (curl_items w1 es)) ds"
    using Cons.IH [of w1] Cons.prems(5,6) by auto
  have "http_entry i p HTTP w1 (curl_items w1 es) = http_entry i p HTTP w (curl_items w es)" for i p
    using f by (simp add: http_entry_def)
  with w1 w2 f same_store_trans [OF w1(2) w2(2)] same_but_table_trans [OF w1(3) w2(3)] show ?case
    by (simp add: seqp_Ok)
qed

lemma http_entry_stored:
  assumes "distinct (map cd_unique_id items)" and "d \<in> set items"
  shows "di_curl_info (http_entry (cd_unique_id d) p ty w items) = Some d"
    and "gs_content_length (di_stats (http_entry (cd_unique_id d) p ty w items)) = ce_content_length (cd_ext_info d)"
proof -
  have "find (\<lambda>x. cd_unique_id x = cd_unique_id d) items = Some d" using assms by (induction items) auto
  then show "di_curl_info (http_entry (cd_unique_id d) p ty w items) = Some d"
    "gs_content_length (di_stats (http_entry (cd_unique_id d) p ty w items)) = ce_content_length (cd_ext_info d)"
    by (simp_all add: http_entry_def Let_def)
qed

lemma curl_items_valid:
  assumes "history w es" and "d \<in> set (curl_items w es)"
  shows "valid_entry (cd_unique_id d, cd_file_loc d, False)"
proof -
  obtain i p where e: "(i, p, False) \<in> set es" "d = projr (decoded_curl w (i, p, False))"
    using assms(2) by (auto simp: curl_items_def)
  then obtain d' where "decoded_curl w (i, p, False) = Inr d'" using historyD(5) [OF assms(1)] by blast
  with e decoded_curl_id have "cd_unique_id d = i" "cd_file_loc d = p" by force+
  with e(1) historyD(3) [OF assms(1)] show ?thesis by (auto simp: list_all_iff)
qed

lemma remove_from_empty: "(list_remove_at k ^^ n) [] = []"
proof (induction n)
  case (Suc n)
  then show ?case by (simp add: list_remove_at_def [of k "[]"])
qed simp

lemma history_shown:
  assumes "history w es" and "healthy w" and "fair_order w" and "\<not> w_held w R_curl"
    and "\<forall>(i, p, t) \<in> set es. \<not> t" and "dv_rows (g_model w) = []" and "g_cache w = []"
    and "\<forall>d \<in> set (curl_items w es). d_less (Finite 0) (ce_content_length (cd_ext_info d))"
  shows "\<exists>w' ds. readFromHistoryFile w = (Ok (), w') \<and> mset ds = mset (curl_items w es) \<and>
    dv_rows (g_model w') = rev (map (history_texts (g_lib w)) ds) \<and>
    map di_curl_info (g_cache w') = map Some ds \<and> map di_unique_id (g_cache w') = map cd_unique_id ds \<and>
    map di_dl_dest (g_cache w') = map cd_file_loc ds \<and>
    map di_dl_type (g_cache w') = map (\<lambda>_. HTTP) ds \<and> g_lib w' = g_lib w \<and>
    same_store w w' \<and> w_boxes w' = w_boxes w"
proof -
  obtain ds w1 where ds: "readCurlItems w = (Ok ds, w1)" "mset ds = mset (curl_items w es)" "same_world w w1"
    using read_curl_history [OF assms(1-4)] by blast
  note s1 = same_storeD [OF same_world_store [OF ds(3)]] same_windowD [OF same_world_window [OF ds(3)]]
  obtain w2 where w2: "readTorrentItems True w1 = (Ok [], w2)" "same_world w1 w2"
    using readTorrentItems_none [of w1 es True] assms(1-3,5) s1 by fastforce
  note s2 = same_storeD [OF same_world_store [OF w2(2)]] same_windowD [OF same_world_window [OF w2(2)]]
  define w3 where "w3 = w2\<lparr>g_model := \<lparr>dv_rows = [], dv_signals = dv_signals (g_model w2) @
    [RowsRemoved 0 (int (length ds) - 1)]\<rparr>\<rparr>"
  have r: "modelp (removeRows 0 (int (length ds))) w2 = (Ok True, w3)"
    using assms(6) s1 s2
    by (cases "g_model w2") (simp add: modelp_def removeRows_def emit_signal_def remove_from_empty w3_def)
  have st: "same_store w w3" using same_world_store [OF ds(3)] same_world_store [OF w2(2)] by (simp add: w3_def same_store_trans)
  note d3 = same_storeD [OF st]
  have set: "set ds = set (curl_items w es)" using ds(2) by (rule mset_eq_setD)
  have dist: "distinct (map cd_unique_id ds)"
    using curl_items_distinct [OF assms(1)] ds(2) by (metis mset_map mset_eq_imp_distinct_iff)
  have ok: "\<forall>d \<in> set ds. cd_file_loc d \<noteq> [] \<and> cd_unique_id d \<noteq> [] \<and> d_less (Finite 0) (ce_content_length (cd_ext_info d))"
    using assms(8) curl_items_valid [OF assms(1)] by (auto simp: set valid_entry_def clean_field_def)
  have "history w3 es" "healthy w3" "fair_order w3" "\<not> w_held w3 R_curl" "g_cache w3 = []"
    using assms(1-4,7) d3 s1 s2 by (simp_all add: w3_def)
  then obtain w4 where w4: "each history_row ds w3 = (Ok (), w4)" "same_store w3 w4" "w_boxes w4 = w_boxes w3"
    "dv_rows (g_model w4) = rev (map (history_texts (g_lib w3)) ds) @ dv_rows (g_model w3)"
    "g_cache w4 = map (\<lambda>d. http_entry (cd_unique_id d) (cd_file_loc d) HTTP w3 (curl_items w es)) ds"
    "same_but_table w3 w4"
    using history_rows_run [OF _ _ _ _ ok dist, of w3 es] d3 by auto
  have run: "readFromHistoryFile w = (Ok (), w4)"
    using ds(1) w2(1) r w4(1) by (simp add: readFromHistoryFile_def bindp_Ok seqp_Ok)
  have "map di_curl_info (g_cache w4) = map Some ds"
    by (simp add: w4(5) set o_def http_entry_stored(1) [OF curl_items_distinct [OF assms(1)]])
  moreover have "w_boxes w4 = w_boxes w"
    using w4(3) same_worldD(5) [OF ds(3)] same_worldD(5) [OF w2(2)] by (simp add: w3_def)
  moreover have "dv_rows (g_model w4) = rev (map (history_texts (g_lib w)) ds)" using w4(4) s1 s2 by (simp add: w3_def)
  moreover have "map di_unique_id (g_cache w4) = map cd_unique_id ds" "map di_dl_dest (g_cache w4) = map cd_file_loc ds"
    by (simp_all add: w4(5) o_def http_entry_id)
  moreover have "map di_dl_type (g_cache w4) = map (\<lambda>_. HTTP) ds"
    by (simp add: w4(5) o_def http_entry_id)
  moreover have "g_lib w4 = g_lib w" using same_but_tableD(2) [OF w4(6)] s1 s2 by (simp add: w3_def)
  ultimately show ?thesis using run ds(2) same_store_trans [OF st w4(2)] by blast
qed

text \<open>C2: At the start the table and the cache are made from the history: for a history of HTTP and FTP
  items with positive lengths every item has one row, which shows its address, size, status and
  destination, and one entry of the cache, which holds the item; the history is as it was.\<close>

theorem readFromHistoryFile_shows:
  assumes "history w es" and "healthy w" and "fair_order w" and "\<not> w_held w R_curl"
    and "\<And>i p t. (i, p, t) \<in> set es \<Longrightarrow> \<not> t" and "dv_rows (g_model w) = []" and "g_cache w = []"
    and "\<forall>d \<in> set (curl_items w es). d_less (Finite 0) (ce_content_length (cd_ext_info d))"
  shows "\<exists>w' ds. readFromHistoryFile w = (Ok (), w') \<and> mset ds = mset (curl_items w es) \<and>
    dv_rows (g_model w') = rev (map (history_texts (g_lib w)) ds) \<and>
    map di_curl_info (g_cache w') = map Some ds \<and> map di_unique_id (g_cache w') = map cd_unique_id ds \<and>
    map di_dl_dest (g_cache w') = map cd_file_loc ds \<and>
    same_store w w' \<and> w_boxes w' = w_boxes w"
proof -
  have "\<forall>(i, p, t) \<in> set es. \<not> t" using assms(5) by auto
  from history_shown [OF assms(1-4) this assms(6-8)] show ?thesis by blast
qed

section \<open>At a concrete window\<close>

text \<open>C1: A new HTTP or FTP download from the dialogue: one row with the twelve texts in front of the
  table, one more item at the end of the history and nothing else changed in it, and one more entry of
  the cache. The entry is made before the item is stored, so it has neither the item's data nor its
  length.\<close>

theorem sendDetails_new_download:
  assumes "history w es" and "healthy w" and "fair_order w" and "\<not> w_held w R_curl" and "\<not> w_held w W_curl"
    and "is_http ty" and "stat_ok" and "status \<in> {Stopped, Invalid, Unknown}"
    and "valid_entry (i, p, False)" and "UNDERSCORE \<notin> set i" and "i \<notin> fst ` set es"
    and "i \<notin> di_unique_id ` set (g_cache w)" and "p \<notin> \<Union> (set ` set (dv_rows (g_model w)))"
    and "fits64 (w_now w)" and "fits64 resp" and "sz = Finite (of_int n)" and "\<bar>n\<bar> < 2 ^ 53"
  shows "\<exists>w'. sendDetails name sz dl prog up down status url p ht hv resp stat_ok msg i ty w = (Ok (), w') \<and>
    history w' (es @ [(i, p, False)]) \<and>
    curl_items w' (es @ [(i, p, False)]) = curl_items w es @
      [curl_readback (w_garbage w) (stamp_curl (w_now w) (sent_item w sz status url p ht hv resp stat_ok msg i))] \<and>
    dv_rows (g_model w') = map snd (row_texts (g_lib w) name sz dl prog up down status url p i) # dv_rows (g_model w) \<and>
    g_cache w' = g_cache w @ [new_download_info i p ty (g_garbage_status w) (h_garbage_double w)] \<and>
    w_boxes w' = w_boxes w"
  using sendDetails_stores [OF assms] by blast

theorem sendDetails_new_download_witness:
  "\<exists>w'. sendDetails ''disc.iso'' (Finite 2048) 0 (Finite 0) 0 0 Stopped ''http://h/disc.iso'' ''/home/u/disc.iso''
      SHA256 ''ab'' 200 True ''OK'' ''0123456789'' HTTP (sample_gui (fresh_world 7) [] [] []) = (Ok (), w') \<and>
    history w' [(''0123456789'', ''/home/u/disc.iso'', False)] \<and> length (dv_rows (g_model w')) = 1 \<and>
    map di_curl_info (g_cache w') = [None]"
  using sendDetails_new_download [where w = "sample_gui (fresh_world 7) [] [] []" and es = "[]" and ty = HTTP
      and stat_ok = True and status = Stopped and i = "''0123456789''" and p = "''/home/u/disc.iso''" and resp = 200
      and sz = "Finite 2048" and n = 2048 and name = "''disc.iso''" and dl = 0 and prog = "Finite 0" and up = 0
      and down = 0 and url = "''http://h/disc.iso''" and ht = SHA256 and hv = "''ab''" and msg = "''OK''"]
  by (auto simp: is_http_def valid_entry_def clean_field_def fresh_window fits64_def int64_min_def int64_max_def
      new_download_info_def)

theorem readFromHistoryFile_shows_witness:
  "\<exists>w w'. readFromHistoryFile (sample_gui w [] [] []) = (Ok (), w') \<and>
     map (\<lambda>r. r ! 9) (dv_rows (g_model w')) = [''/home/u/disc.iso''] \<and>
     map di_curl_info (g_cache w') = [Some stored_sample]"
proof -
  obtain w where w: "holds_sample w" by (rule sample_exists)
  from readFromHistoryFile_shows [OF sample_window(1,3,4,5) [OF w], of "[]" "[]" "[]"] obtain w' ds where
    w': "readFromHistoryFile (sample_gui w [] [] []) = (Ok (), w')" "mset ds = {#stored_sample#}"
    "dv_rows (g_model w') = rev (map (history_texts sample_library) ds)" "map di_curl_info (g_cache w') = map Some ds"
    by (auto simp: sample_window [OF w])
  have "ds = [stored_sample]" using w'(2) by simp
  with w' show ?thesis
    by (intro exI [of _ w] exI [of _ w']) (auto simp: history_texts_def row_texts_def)
qed

end
