(* ===== verification/Window_Startup.thy ===== *)
theory Window_Startup
  imports Window_Invariant Window_Properties
begin

text \<open>
  The window over a well-formed history: what its constructor makes of it, and the states it comes to.
  Downloads the last run left at Downloading are paused, in the table and in the history.
\<close>

section \<open>Pausing what was running\<close>

definition paused :: "curl_dl_info \<Rightarrow> curl_dl_info" where
  "paused d = (if cd_dlStatus d = Downloading then d\<lparr>cd_dlStatus := Paused\<rparr> else d)"

definition paused_row :: "string list \<Rightarrow> string list" where
  "paused_row r = (if r ! 8 = convDlStat_toString Downloading then r[8 := convDlStat_toString Paused] else r)"

lemma downloading_text: "convDlStat_toString s = convDlStat_toString Downloading \<longleftrightarrow> s = Downloading"
  by (cases s) simp_all

lemma paused_simps [simp]: "cd_unique_id (paused d) = cd_unique_id d" "cd_file_loc (paused d) = cd_file_loc d"
  "paused (paused d) = paused d" "cd_dlStatus (paused d) \<noteq> Downloading" "cd_ext_info (paused d) = cd_ext_info d"
  by (simp_all add: paused_def)

text \<open>What the loop over the table relies on, for each row of it.\<close>

definition listed_row :: "id_entry list \<Rightarrow> download_info list \<Rightarrow> string list \<Rightarrow> bool" where
  "listed_row es cache r \<longleftrightarrow> length r = 12 \<and> (r ! 11, r ! 9, False) \<in> set es \<and>
     (\<forall>j u. (j, r ! 9, u) \<in> set es \<longrightarrow> j = r ! 11) \<and>
     (\<exists>d \<in> set cache. di_unique_id d = r ! 11 \<and> is_http (di_dl_type d))"

lemma modelled_row:
  assumes "full_rows (g_model w)" and "i < length (dv_rows (g_model w))"
  shows "is_valid (model_index_at (g_model w) (int i) MN_STATUS_COL)"
  using assms by (simp add: model_index_at_def rowCount_def columnCount_def column_numbers is_valid_def)

lemma reset_row_skips:
  assumes "full_rows (g_model w)" and "i < length (dv_rows (g_model w))"
    and "shown w i 8 \<noteq> convDlStat_toString Downloading"
  shows "reset_row i m w = (Ok (Inl m), w)"
  using assms modelled_row [OF assms(1,2)] view_shown [OF assms(1,2)]
  by (simp add: reset_row_def bindp_Ok)

lemma reset_row_pauses:
  fixes w :: "'z gui_scheme"
  assumes "history w es" and "healthy w" and "\<not> w_held w W_curl" and "full_rows (g_model w)"
    and "i < length (dv_rows (g_model w))" and "distinct (map di_unique_id (g_cache w))"
    and "listed_row es (g_cache w) (dv_rows (g_model w) ! i)"
    and "shown w i 8 = convDlStat_toString Downloading"
  shows "\<exists>w'. reset_row i m w = (Ok (Inl m), w') \<and> history w' es \<and>
    curl_items w' es = map (\<lambda>d. if cd_unique_id d = shown w i 11 then d\<lparr>cd_dlStatus := Paused\<rparr> else d) (curl_items w es) \<and>
    dv_rows (g_model w') = (dv_rows (g_model w))[i := paused_row (dv_rows (g_model w) ! i)] \<and>
    g_cache w' = g_cache w \<and> w_boxes w' = w_boxes w \<and> healthy w' \<and> w_held w' = w_held w"
proof -
  let ?r = "dv_rows (g_model w) ! i"
  have l: "(shown w i 11, shown w i 9, False) \<in> set es" "\<And>j u. (j, shown w i 9, u) \<in> set es \<Longrightarrow> j = shown w i 11"
    using assms(7) by (auto simp: listed_row_def cell_text_def)
  obtain d where d: "d \<in> set (g_cache w)" "di_unique_id d = shown w i 11" "is_http (di_dl_type d)"
    using assms(7) by (auto simp: listed_row_def cell_text_def)
  obtain w1 where w1: "modify_status (shown w i 9) Paused w = (Ok True, w1)" "history w1 es"
    "curl_items w1 es = map (\<lambda>d. if cd_unique_id d = shown w i 11 then d\<lparr>cd_dlStatus := Paused\<rparr> else d) (curl_items w es)"
    "w_boxes w1 = w_boxes w" "same_env w w1"
    using modify_status_run [OF assms(1-3) l(1), where status = Paused] l(2) by blast
  have g: "g_model w1 = g_model w" "g_cache w1 = g_cache w"
    using same_windowD [OF same_env_window [OF w1(5)]] by simp_all
  let ?w2 = "w1\<lparr>g_model := put_cell (i, 8) (convDlStat_toString Paused) (g_model w)\<rparr>"
  have u: "update_col (int i) MN_STATUS_COL (convDlStat_toString Paused) w1 = (Ok True, ?w2)"
    using update_shown(1) [of w1 i] assms(4,5) g by simp
  have st: "same_store w1 ?w2" by simp
  have rows: "dv_rows (g_model ?w2) = (dv_rows (g_model w))[i := paused_row ?r]"
    using assms(8) by (simp add: put_cell_def paused_row_def cell_text_def)
  obtain ys zs where s: "g_cache w = ys @ d # zs" and other: "\<And>y. y \<in> set ys \<union> set zs \<Longrightarrow> di_unique_id y \<noteq> shown w i 11"
    using split_unique [OF assms(6) d(1)] d(2) by metis
  define f where "f = (\<lambda>(item :: download_info) alreadyMentioned.
      if di_unique_id item = shown w i 11 then
        bindp (if is_http (di_dl_type item) then modify_status (shown w i 9) Paused
               else modifyTorrentItem (di_unique_id item) Stopped) (\<lambda>ret_state.
        bindp (update_col (int i) MN_STATUS_COL
                 (convDlStat_toString (if is_http (di_dl_type item) then Paused else Stopped))) (\<lambda>ret_update_col.
        if (\<not> ret_state \<or> \<not> ret_update_col) \<and> \<not> alreadyMentioned
        then seqp (show_box (Warning ''There has been an error at startup.'')) (ret (Inl True))
        else ret (Inl alreadyMentioned)))
      else (ret (Inl alreadyMentioned) :: ('z, bool + unit) window))"
  have one: "f d m w = (Ok (Inl m), ?w2)"
    using w1(1) u d(2,3) by (simp add: f_def bindp_Ok del: convDlStat_toString.simps)
  have "for_each f (g_cache w) m w = (Ok (Inl m), ?w2)"
    unfolding s by (rule for_each_one) (use other one in \<open>auto simp: f_def simp del: convDlStat_toString.simps\<close>)
  then have body: "with_warning (bindp (for_each f (g_cache w) m)
      (\<lambda>r. case r of Inl m \<Rightarrow> ret (Inl m) | Inr () \<Rightarrow> ret (Inr ()))) (Inr ()) w = (Ok (Inl m), ?w2)"
    by (intro with_warning_Ok) (simp add: bindp_Ok)
  have "reset_row i m w = with_warning (bindp (for_each f (g_cache w) m)
      (\<lambda>r. case r of Inl m \<Rightarrow> ret (Inl m) | Inr () \<Rightarrow> ret (Inr ()))) (Inr ()) w"
    using modelled_row [OF assms(4,5)] view_shown [OF assms(4,5)] assms(8)
    by (simp add: reset_row_def f_def bindp_Ok del: convDlStat_toString.simps)
  with body have "reset_row i m w = (Ok (Inl m), ?w2)" by (rule trans [rotated])
  then show ?thesis
    using assms(2) w1 rows same_storeD [OF st] same_envD [OF w1(5)] g by (intro exI [of _ ?w2]) simp
qed

lemma for_each_append:
  "for_each f xs a w = (Ok (Inl b), w1) \<Longrightarrow> for_each f (xs @ ys) a w = for_each f ys b w1"
  by (induction xs arbitrary: a w) (auto simp: bindp_def split: prod.splits outcome.splits sum.splits)

text \<open>The loop over the table, after some rows.\<close>

definition pause_of :: "string set \<Rightarrow> curl_dl_info \<Rightarrow> curl_dl_info" where
  "pause_of ids d = (if cd_unique_id d \<in> ids then paused d else d)"

lemma pause_of_step:
  assumes "\<And>d. d \<in> set ds \<Longrightarrow> cd_unique_id d = i \<Longrightarrow> (cd_dlStatus d = Downloading) = b"
  shows "map (\<lambda>d. if b \<and> cd_unique_id d = i then d\<lparr>cd_dlStatus := Paused\<rparr> else d) (map (pause_of ids) ds) =
    map (pause_of (insert i ids)) ds"
  using assms by (auto simp: pause_of_def paused_def)

lemma reset_rows_run:
  assumes "history w es" and "healthy w" and "\<not> w_held w W_curl" and "distinct (map di_unique_id (g_cache w))"
    and "\<forall>r \<in> set (dv_rows (g_model w)). listed_row es (g_cache w) r \<and>
      (\<forall>d \<in> set (curl_items w es). cd_unique_id d = r ! 11 \<longrightarrow> r ! 8 = convDlStat_toString (cd_dlStatus d))"
    and "n \<le> length (dv_rows (g_model w))"
  shows "\<exists>w'. for_each reset_row [0..<n] m w = (Ok (Inl m), w') \<and> history w' es \<and>
    curl_items w' es = map (pause_of ((\<lambda>r. r ! 11) ` set (take n (dv_rows (g_model w))))) (curl_items w es) \<and>
    dv_rows (g_model w') = map paused_row (take n (dv_rows (g_model w))) @ drop n (dv_rows (g_model w)) \<and>
    g_cache w' = g_cache w \<and> w_boxes w' = w_boxes w \<and> healthy w' \<and> w_held w' = w_held w"
  using assms(6)
proof (induction n)
  case 0
  have "map (pause_of {}) ds = ds" for ds by (simp add: pause_of_def map_idI)
  then show ?case using assms(1,2) by simp
next
  case (Suc n)
  let ?rows = "dv_rows (g_model w)" and ?ids = "\<lambda>k. (\<lambda>r. r ! 11) ` set (take k (dv_rows (g_model w)))"
  have n: "n < length ?rows" using Suc.prems by simp
  obtain w1 where w1: "for_each reset_row [0..<n] m w = (Ok (Inl m), w1)" "history w1 es"
    "curl_items w1 es = map (pause_of (?ids n)) (curl_items w es)"
    "dv_rows (g_model w1) = map paused_row (take n ?rows) @ drop n ?rows"
    "g_cache w1 = g_cache w" "w_boxes w1 = w_boxes w" "healthy w1" "w_held w1 = w_held w"
    using Suc.IH Suc.prems by auto
  let ?r = "?rows ! n" and ?b = "?rows ! n ! 8 = convDlStat_toString Downloading"
  have r: "listed_row es (g_cache w) ?r" "\<And>d. d \<in> set (curl_items w es) \<Longrightarrow> cd_unique_id d = ?r ! 11 \<Longrightarrow>
      ?r ! 8 = convDlStat_toString (cd_dlStatus d)"
    using assms(5) n by auto
  have len: "length (dv_rows (g_model w1)) = length ?rows" using w1(4) n by simp
  have same: "dv_rows (g_model w1) ! n = ?r" using w1(4) n by (simp add: nth_append min_def)
  have full: "full_rows (g_model w1)"
    using assms(5) by (auto simp: w1(4) full_rows_def listed_row_def paused_row_def dest: in_set_takeD in_set_dropD)
  have cells: "shown w1 n 8 = ?r ! 8" "shown w1 n 11 = ?r ! 11" using same by (simp_all add: cell_text_def)
  have ids: "?ids (Suc n) = insert (?r ! 11) (?ids n)" using n by (simp add: take_Suc_conv_app_nth)
  have put: "(map paused_row (take n ?rows) @ drop n ?rows)[n := paused_row ?r] =
      map paused_row (take (Suc n) ?rows) @ drop (Suc n) ?rows"
    using n by (simp add: take_Suc_conv_app_nth list_update_append min_def Cons_nth_drop_Suc [symmetric])
  have b: "(cd_dlStatus d = Downloading) = ?b" if "d \<in> set (curl_items w es)" "cd_unique_id d = ?r ! 11" for d
    using r(2) [OF that] downloading_text by simp
  have step: "\<exists>w'. reset_row n m w1 = (Ok (Inl m), w') \<and> history w' es \<and>
      curl_items w' es = map (\<lambda>d. if ?b \<and> cd_unique_id d = ?r ! 11 then d\<lparr>cd_dlStatus := Paused\<rparr> else d) (curl_items w1 es) \<and>
      dv_rows (g_model w') = (dv_rows (g_model w1))[n := paused_row ?r] \<and>
      g_cache w' = g_cache w1 \<and> w_boxes w' = w_boxes w1 \<and> healthy w' \<and> w_held w' = w_held w1"
  proof (cases ?b)
    case True
    then show ?thesis
      using reset_row_pauses [OF w1(2,7) _ full, of n m] assms(3,4) w1(5,8) r(1) n len same cells by simp
  next
    case False
    then have "reset_row n m w1 = (Ok (Inl m), w1)" using full n len cells by (intro reset_row_skips) simp_all
    moreover have "(dv_rows (g_model w1))[n := paused_row ?r] = dv_rows (g_model w1)"
      using False same by (simp add: paused_row_def list_update_same_conv n len)
    ultimately show ?thesis using False w1 by (intro exI [of _ w1]) simp
  qed
  then obtain w2 where w2: "reset_row n m w1 = (Ok (Inl m), w2)" "history w2 es"
      "curl_items w2 es = map (\<lambda>d. if ?b \<and> cd_unique_id d = ?r ! 11 then d\<lparr>cd_dlStatus := Paused\<rparr> else d) (curl_items w1 es)"
      "dv_rows (g_model w2) = (dv_rows (g_model w1))[n := paused_row ?r]"
      "g_cache w2 = g_cache w1" "w_boxes w2 = w_boxes w1" "healthy w2" "w_held w2 = w_held w1" by blast
  have "for_each reset_row [0..<Suc n] m w = (Ok (Inl m), w2)"
    using w1(1) w2(1) by (simp add: for_each_append bindp_Ok)
  moreover have "curl_items w2 es = map (pause_of (?ids (Suc n))) (curl_items w es)"
    unfolding w2(3) w1(3) ids by (rule pause_of_step) (use b in blast)
  ultimately show ?case using w1 w2 put by (intro exI [of _ w2]) simp
qed

section \<open>Properties\<close>

lemma curl_items_entry:
  assumes "history w es" and "d \<in> set (curl_items w es)"
  shows "(cd_unique_id d, cd_file_loc d, False) \<in> set es"
proof -
  obtain i p where e: "(i, p, False) \<in> set es" "d = projr (decoded_curl w (i, p, False))"
    using assms(2) by (auto simp: curl_items_def)
  then obtain d' where "decoded_curl w (i, p, False) = Inr d'" using historyD(5) [OF assms(1)] by blast
  with e decoded_curl_id have "cd_unique_id d = i" "cd_file_loc d = p" by force+
  with e(1) show ?thesis by simp
qed

lemma paused_history_row:
  "paused_row (history_texts lib d) = history_texts lib (paused d)"
  using downloading_text [of "cd_dlStatus d"]
  by (auto simp: paused_row_def history_texts_def row_texts_def paused_def simp del: convDlStat_toString.simps)

lemma startup_run:
  assumes "history w es" and "healthy w" and "fair_order w" and "\<not> w_held w R_curl" and "\<not> w_held w W_curl"
    and "\<And>i p t. (i, p, t) \<in> set es \<Longrightarrow> \<not> t" and "distinct (map (fst \<circ> snd) es)" and "g_cache w = []"
    and "\<forall>d \<in> set (curl_items w es). d_less (Finite 0) (ce_content_length (cd_ext_info d))"
  shows "\<exists>w' ds. window_startup w = (Ok (), w') \<and> mset ds = mset (curl_items w es) \<and> history w' es \<and>
    curl_items w' es = map paused (curl_items w es) \<and>
    dv_rows (g_model w') = rev (map (\<lambda>d. history_texts (g_lib w) (paused d)) ds) \<and>
    map di_unique_id (g_cache w') = map cd_unique_id ds \<and> length (w_boxes w') = Suc (length (w_boxes w))"
proof -
  define w1 where "w1 = w\<lparr>w_boxes := w_boxes w @
      [Warning ''FyreDL is currently under intense development at this time!''], a_thread := True,
      g_model := \<lparr>dv_rows = [], dv_signals = []\<rparr>, g_connections := g_connections w @
      [Start_to_multi, Finish_to_thread, Finish_to_multi, Menu_to_window, Stats_to_manage]\<rparr>"
  have st: "same_store w w1" by (simp add: w1_def same_store_def)
  note d1 = same_storeD [OF st]
  have "\<exists>w' ds. readFromHistoryFile w1 = (Ok (), w') \<and> mset ds = mset (curl_items w1 es) \<and>
    dv_rows (g_model w') = rev (map (history_texts (g_lib w1)) ds) \<and>
    map di_curl_info (g_cache w') = map Some ds \<and> map di_unique_id (g_cache w') = map cd_unique_id ds \<and>
    map di_dl_dest (g_cache w') = map cd_file_loc ds \<and>
    map di_dl_type (g_cache w') = map (\<lambda>_. HTTP) ds \<and> g_lib w' = g_lib w1 \<and>
    same_store w1 w' \<and> w_boxes w' = w_boxes w1"
    by (rule history_shown) (use assms d1 in \<open>auto simp: w1_def\<close>)
  then obtain w2 ds where w2: "readFromHistoryFile w1 = (Ok (), w2)" "mset ds = mset (curl_items w es)"
    "dv_rows (g_model w2) = rev (map (history_texts (g_lib w)) ds)" "map di_unique_id (g_cache w2) = map cd_unique_id ds"
    "map di_dl_type (g_cache w2) = map (\<lambda>_. HTTP) ds" "same_store w1 w2" "w_boxes w2 = w_boxes w1"
    using d1 by (auto simp: w1_def)
  define w3 where "w3 = w2\<lparr>g_connections := g_connections w2 @ [Terminate_to_window, Keys_to_window]\<rparr>"
  have c3: "g_cache w3 = g_cache w2" by (simp add: w3_def)
  have st3: "same_store w w3" using same_store_trans [OF st w2(6)] by (simp add: w3_def)
  note d3 = same_storeD [OF st3]
  have set: "set ds = set (curl_items w es)" using w2(2) by (rule mset_eq_setD)
  have dist: "distinct (map cd_unique_id ds)"
    using curl_items_distinct [OF assms(1)] w2(2) by (metis mset_map mset_eq_imp_distinct_iff)
  have entry: "(cd_unique_id d, cd_file_loc d, False) \<in> set es" if "d \<in> set ds" for d
    using that curl_items_entry [OF assms(1)] by (simp add: set)
  have own: "j = cd_unique_id d" if "d \<in> set ds" "(j, cd_file_loc d, u) \<in> set es" for d j u
  proof -
    have "inj_on (fst \<circ> snd) (set es)" using assms(7) by (simp add: distinct_map)
    from inj_onD [OF this _ that(2) entry [OF that(1)]] show ?thesis by simp
  qed
  have cached: "\<exists>e \<in> set (g_cache w2). di_unique_id e = cd_unique_id d \<and> is_http (di_dl_type e)" if mem: "d \<in> set ds" for d
  proof -
    obtain k where k: "k < length ds" "ds ! k = d" using mem by (auto simp: in_set_conv_nth)
    have len: "length (g_cache w2) = length ds" using arg_cong [OF w2(4), of length] by simp
    have "di_unique_id (g_cache w2 ! k) = cd_unique_id d" "di_dl_type (g_cache w2 ! k) = HTTP"
      using k len arg_cong [OF w2(4), of "\<lambda>xs. xs ! k"] arg_cong [OF w2(5), of "\<lambda>xs. xs ! k"] by simp_all
    then show ?thesis using k(1) len nth_mem [of k "g_cache w2"] by (auto simp: is_http_def)
  qed
  have rows: "\<forall>r \<in> set (dv_rows (g_model w3)). listed_row es (g_cache w3) r \<and>
      (\<forall>d \<in> set (curl_items w3 es). cd_unique_id d = r ! 11 \<longrightarrow> r ! 8 = convDlStat_toString (cd_dlStatus d))"
  proof
    fix r
    assume "r \<in> set (dv_rows (g_model w3))"
    then obtain d where d: "d \<in> set ds" "r = history_texts (g_lib w) d" using w2(3) by (auto simp: w3_def)
    have t: "length r = 12" "r ! 8 = convDlStat_toString (cd_dlStatus d)" "r ! 9 = cd_file_loc d" "r ! 11 = cd_unique_id d"
      by (simp_all add: d(2) history_texts_def row_texts_def)
    have "listed_row es (g_cache w3) r"
      unfolding listed_row_def t c3 using entry [OF d(1)] own [OF d(1)] cached [OF d(1)] by blast
    moreover have "x = d" if "x \<in> set (curl_items w3 es)" "cd_unique_id x = r ! 11" for x
    proof -
      have "x \<in> set ds" using that(1) by (simp add: set d3)
      then show ?thesis using inj_onD [of cd_unique_id "set ds" x d] that(2) d(1) t(4) dist by (simp add: distinct_map)
    qed
    ultimately show "listed_row es (g_cache w3) r \<and>
      (\<forall>x \<in> set (curl_items w3 es). cd_unique_id x = r ! 11 \<longrightarrow> r ! 8 = convDlStat_toString (cd_dlStatus x))"
      using t(2) by blast
  qed
  have "\<exists>w'. for_each reset_row [0..<length ds] False w3 = (Ok (Inl False), w') \<and> history w' es \<and>
    curl_items w' es = map (pause_of ((\<lambda>r. r ! 11) ` set (take (length ds) (dv_rows (g_model w3))))) (curl_items w3 es) \<and>
    dv_rows (g_model w') = map paused_row (take (length ds) (dv_rows (g_model w3))) @ drop (length ds) (dv_rows (g_model w3)) \<and>
    g_cache w' = g_cache w3 \<and> w_boxes w' = w_boxes w3 \<and> healthy w' \<and> w_held w' = w_held w3"
    by (rule reset_rows_run) (use assms(1,2,5) d3 rows dist w2(3,4) in \<open>simp_all add: w3_def\<close>)
  then obtain w4 where w4: "for_each reset_row [0..<length ds] False w3 = (Ok (Inl False), w4)" "history w4 es"
    "curl_items w4 es = map (pause_of ((\<lambda>r. r ! 11) ` set (dv_rows (g_model w3)))) (curl_items w es)"
    "dv_rows (g_model w4) = map paused_row (dv_rows (g_model w3))" "g_cache w4 = g_cache w3" "w_boxes w4 = w_boxes w3"
    using w2(3) d3 by (auto simp: w3_def)
  have "resetDlStateStartup w3 = (Ok (), w4)"
    using w4(1) w2(3) by (simp add: resetDlStateStartup_def getList_def w3_def bindp_Ok)
  then have "window_startup w = (Ok (), w4)"
    using w2(1) unfolding window_startup_def show_box_def connect_def
    by (simp add: w1_def w3_def seqp_Ok catchp_Ok)
  moreover have "dv_rows (g_model w4) = rev (map (\<lambda>d. history_texts (g_lib w) (paused d)) ds)"
    using w2(3) by (simp add: w4(4) w3_def rev_map [symmetric] paused_history_row)
  moreover have "curl_items w4 es = map paused (curl_items w es)"
  proof -
    have "(\<lambda>r. r ! 11) ` set (dv_rows (g_model w3)) = cd_unique_id ` set (curl_items w es)"
      using w2(3) set by (simp add: w3_def image_image history_texts_def row_texts_def)
    then show ?thesis by (simp add: w4(3) pause_of_def)
  qed
  moreover have "length (w_boxes w4) = Suc (length (w_boxes w))" using w4(6) w2(7) by (simp add: w3_def w1_def)
  ultimately show ?thesis using w2(2,4) w4(2,5) by (intro exI [of _ w4] exI [of _ ds]) (simp add: w3_def)
qed

text \<open>The sample window as a whole program, before its constructor ran.\<close>

definition sample_app :: "world \<Rightarrow> app" where
  "sample_app w = gui.extend (sample_gui w [] [] []) \<lparr>a_dialogs = [], a_thread = False\<rparr>"

lemma sample_app_simps [simp]:
  "same_store w (sample_app w)" "g_cache (sample_app w) = []" "g_lib (sample_app w) = sample_library"
  "w_boxes (sample_app w) = []" "dv_rows (g_model (sample_app w)) = []"
  by (simp_all add: sample_app_def sample_gui_def gui.defs same_store_def)

text \<open>A world whose only item was left at Downloading.\<close>

lemma running_sample:
  obtains w :: world where "history w sample_entries" and "curl_items w sample_entries = [stored_sample\<lparr>cd_dlStatus := Downloading\<rparr>]"
    and "healthy w" and "fair_order w" and "\<forall>m. \<not> w_held w m"
proof -
  obtain w where "holds_sample w" by (rule sample_exists)
  then have h: "history w sample_entries" "curl_items w sample_entries = [stored_sample]" and e: "same_env (fresh_world 7) w"
    by (simp_all add: holds_sample_def)
  note f = same_envD [OF e]
  obtain w' where "modify_status ''/home/u/disc.iso'' Downloading w = (Ok True, w')" "history w' sample_entries"
    "curl_items w' sample_entries = [stored_sample\<lparr>cd_dlStatus := Downloading\<rparr>]" "same_env w w'"
    using modify_status_run [OF h(1), of "''0123456789''" "''/home/u/disc.iso''" Downloading] f h(2) by auto
  then show ?thesis using that [of w'] same_envD [of w w'] f by simp
qed

lemma sample_started:
  assumes "history w sample_entries" and "healthy w" and "fair_order w" and "\<forall>m. \<not> w_held w m"
    and "curl_items w sample_entries = [stored_sample\<lparr>cd_dlStatus := Downloading\<rparr>]"
  obtains w' where "window_startup (sample_app w) = (Ok (), w')" and "length (dv_rows (g_model w')) = 1"
proof -
  note s = same_storeD [OF sample_app_simps(1)]
  have "\<exists>w' ds. window_startup (sample_app w) = (Ok (), w') \<and> mset ds = mset (curl_items (sample_app w) sample_entries) \<and>
    history w' sample_entries \<and> curl_items w' sample_entries = map paused (curl_items (sample_app w) sample_entries) \<and>
    dv_rows (g_model w') = rev (map (\<lambda>d. history_texts (g_lib (sample_app w)) (paused d)) ds) \<and>
    map di_unique_id (g_cache w') = map cd_unique_id ds \<and> length (w_boxes w') = Suc (length (w_boxes (sample_app w)))"
    by (rule startup_run) (use assms in \<open>auto simp: s\<close>)
  then obtain w' ds where w': "window_startup (sample_app w) = (Ok (), w')" "mset ds = mset (curl_items w sample_entries)"
    "length (dv_rows (g_model w')) = length ds" by (auto simp: s)
  have "length ds = 1" using arg_cong [OF w'(2), of size] by (simp add: assms(5))
  with w' show ?thesis by (intro that) simp_all
qed

text \<open>C4: The constructor of the window over a history of HTTP and FTP items with positive lengths and
  destinations of their own: every item that was left at Downloading is paused, in the history and in the
  row that shows it; the other items, the identifiers in the cache and the number of rows are those of
  the history, and the only message box is the greeting.\<close>

theorem window_startup_pauses:
  assumes "history w es" and "healthy w" and "fair_order w" and "\<not> w_held w R_curl" and "\<not> w_held w W_curl"
    and "\<And>i p t. (i, p, t) \<in> set es \<Longrightarrow> \<not> t" and "distinct (map (fst \<circ> snd) es)" and "g_cache w = []"
    and "\<forall>d \<in> set (curl_items w es). d_less (Finite 0) (ce_content_length (cd_ext_info d))"
  shows "\<exists>w' ds. window_startup w = (Ok (), w') \<and> mset ds = mset (curl_items w es) \<and> history w' es \<and>
    curl_items w' es = map paused (curl_items w es) \<and>
    dv_rows (g_model w') = rev (map (\<lambda>d. history_texts (g_lib w) (paused d)) ds) \<and>
    map di_unique_id (g_cache w') = map cd_unique_id ds \<and> length (w_boxes w') = Suc (length (w_boxes w))"
  by (rule startup_run [OF assms])

theorem window_startup_pauses_witness:
  "\<exists>w w'. window_startup (sample_app w) = (Ok (), w') \<and>
     map cd_dlStatus (curl_items w sample_entries) = [Downloading] \<and>
     map cd_dlStatus (curl_items w' sample_entries) = [Paused] \<and>
     map (\<lambda>r. r ! 8) (dv_rows (g_model w')) = [''Paused'']"
proof -
  obtain w :: world where h: "history w sample_entries"
    and c: "curl_items w sample_entries = [stored_sample\<lparr>cd_dlStatus := Downloading\<rparr>]"
    and v: "healthy w" "fair_order w" "\<forall>m. \<not> w_held w m"
    by (rule running_sample)
  note w = h v
  note s = same_storeD [OF sample_app_simps(1)]
  have "\<exists>w' ds. window_startup (sample_app w) = (Ok (), w') \<and> mset ds = mset (curl_items (sample_app w) sample_entries) \<and>
    history w' sample_entries \<and> curl_items w' sample_entries = map paused (curl_items (sample_app w) sample_entries) \<and>
    dv_rows (g_model w') = rev (map (\<lambda>d. history_texts (g_lib (sample_app w)) (paused d)) ds) \<and>
    map di_unique_id (g_cache w') = map cd_unique_id ds \<and> length (w_boxes w') = Suc (length (w_boxes (sample_app w)))"
    by (rule window_startup_pauses) (use w c in \<open>auto simp: s\<close>)
  then obtain w' ds where w': "window_startup (sample_app w) = (Ok (), w')"
    "mset ds = {#stored_sample\<lparr>cd_dlStatus := Downloading\<rparr>#}"
    "curl_items w' sample_entries = [paused (stored_sample\<lparr>cd_dlStatus := Downloading\<rparr>)]"
    "dv_rows (g_model w') = rev (map (\<lambda>d. history_texts sample_library (paused d)) ds)"
    by (auto simp: s c)
  have "ds = [stored_sample\<lparr>cd_dlStatus := Downloading\<rparr>]" using w'(2) by simp
  with w' c show ?thesis
    by (intro exI [of _ w] exI [of _ w']) (simp add: paused_def history_texts_def row_texts_def)
qed



end
