(* ===== verification/Torrent_File.thy ===== *)
theory Torrent_File
  imports File_Hash Torrent_History
begin

text \<open>
  Reading a torrent file (\<open>torrentFileInfo\<close> of \<open>src/cmnroutines.cpp\<close>). What libtorrent's decoder
  makes of the bytes is an argument: a decoding error, an invalid torrent, or a \<open>torrent_info\<close>
  whose accessors are the record \<open>parsed_torrent\<close>.
\<close>

section \<open>What the library hands over\<close>

record parsed_file =
  pf_hash :: string
  pf_path :: string
  pf_offset :: int
  pf_size :: int
  pf_mtime :: int
  pf_flags :: int
  pf_map_file :: "int \<Rightarrow> int"

record parsed_torrent =
  pt_nodes :: "(string \<times> int) list"
  pt_trackers :: "(int \<times> string) list"
  pt_num_pieces :: int
  pt_piece_length :: int
  pt_name :: string
  pt_comment :: string
  pt_creator :: string
  pt_magnet_uri :: string
  pt_num_files :: int
  pt_files :: "parsed_file list"

datatype decoded_torrent =
    Not_bencoded
  | Not_a_torrent string
  | Parsed parsed_torrent

section \<open>The parts of torrentFileInfo\<close>

definition file_too_big :: exn where
  "file_too_big = Runtime_error ''BitTorrent file too big. Aborting...''"

text \<open>Trackers: the first tracker without an address ends the call, since as many trackers as bad ones
  were always given.\<close>

fun read_trackers :: "nat \<Rightarrow> nat \<Rightarrow> string \<Rightarrow> (int \<times> string) list \<Rightarrow> exn + torrent_tracker list" where
  "read_trackers n_all bad unique_id [] = Inr []"
| "read_trackers n_all bad unique_id ((tier, url) # ts) =
     (if url \<noteq> [] then
        (case read_trackers n_all bad unique_id ts of
           Inl e \<Rightarrow> Inl e
         | Inr rs \<Rightarrow> Inr (\<lparr>tt_unique_id = unique_id, tt_tier = tier, tt_url = url, tt_enabled = True\<rparr> # rs))
      else
        let bad = Suc bad
        in if bad \<le> n_all then Inl (Invalid_argument ''No trackers were given'')
           else read_trackers n_all bad unique_id ts)"

definition read_parsed_file :: "string \<Rightarrow> parsed_file \<Rightarrow> torrent_file" where
  "read_parsed_file unique_id f =
     \<lparr>tf_unique_id = unique_id, tf_file_path = pf_path f, tf_sha1_hash_hex = pf_hash f,
      tf_flags = pf_flags f,
      tf_content_length = (if 0 \<le> pf_size f then pf_size f else 0),
      tf_file_offset = (if 0 \<le> pf_offset f then pf_offset f else 0),
      tf_mtime = (if 0 \<le> pf_mtime f then pf_mtime f mod 2 ^ 32 else 0),
      tf_map_file_piece = (pf_map_file f 0, pf_map_file f (max (pf_size f - 1) 0)),
      tf_downloaded = False\<rparr>"

text \<open>The checks on the general data, in the order of the code.\<close>

definition check_general :: "int \<Rightarrow> parsed_torrent \<Rightarrow> exn option" where
  "check_general item_limit t =
     (if \<not> 0 \<le> pt_num_pieces t then Some (Invalid_argument ''No downloadable items were specified'')
      else if \<not> 0 \<le> pt_piece_length t then Some (Invalid_argument ''No downloadable items were specified'')
      else if pt_magnet_uri t = [] then Some (Invalid_argument ''An invalid Magnet URI was given'')
      else if 0 \<le> pt_num_files t then
        (if item_limit < pt_num_files t then Some (Invalid_argument ''more internal files than the maximum'')
         else None)
      else Some (Invalid_argument ''No downloadable items were specified''))"

definition general_of :: "string \<Rightarrow> int \<Rightarrow> parsed_torrent \<Rightarrow> general_info" where
  "general_of unique_id num_trackers t =
     \<lparr>gi_unique_id = unique_id, gi_down_dest = [], gi_insert_timestamp = 0, gi_complt_timestamp = 0,
      gi_creatn_timestamp = 0, gi_dlStatus = Failed, gi_comment = pt_comment t, gi_creator = pt_creator t,
      gi_magnet_uri = pt_magnet_uri t, gi_torrent_name = pt_name t, gi_num_files = pt_num_files t,
      gi_num_trackers = num_trackers, gi_num_pieces = pt_num_pieces t, gi_piece_length = pt_piece_length t\<rparr>"

text \<open>Everything after the file is decoded.\<close>

definition info_of_parsed :: "int \<Rightarrow> string \<Rightarrow> parsed_torrent \<Rightarrow> exn + torrent_info" where
  "info_of_parsed item_limit unique_id t =
     (case read_trackers (length (pt_trackers t)) 0 unique_id (pt_trackers t) of
        Inl e \<Rightarrow> Inl e
      | Inr trackers \<Rightarrow>
          (case check_general item_limit t of
             Some e \<Rightarrow> Inl e
           | None \<Rightarrow>
               Inr \<lparr>ti_general = general_of unique_id (int (length trackers)) t, ti_resume_info = None,
                    ti_nodes = pt_nodes t, ti_trackers = trackers,
                    ti_files_vec = map (read_parsed_file unique_id) (pt_files t)\<rparr>))"

text \<open>\<open>&buf[0]\<close> of an empty buffer has no defined behaviour; an invalid torrent throws a string.\<close>

definition torrentFileInfo :: "(string \<Rightarrow> decoded_torrent) \<Rightarrow> c_file \<Rightarrow> int \<Rightarrow> ('z, torrent_info) action" where
  "torrentFileInfo decode f item_limit =
     (let (ret_code, _, buf) = load_file f [] (40 * 1000000)
      in if ret_code = - 1 then raise file_too_big
         else if ret_code \<noteq> 0 then raise (Runtime_error ''Failed to load file'')
         else if buf = [] then undefinedp
         else case decode buf of
                Not_bencoded \<Rightarrow> raise (Invalid_argument ''Failed to decode'')
              | Not_a_torrent msg \<Rightarrow> raise (Thrown_string msg)
              | Parsed t \<Rightarrow>
                  bindp (createId (of_nat UNIQUE_ID_DIGIT_COUNT)) (\<lambda>unique_id.
                  liftp (info_of_parsed item_limit unique_id t)))"

section \<open>What it returns\<close>

lemma read_trackers_ok:
  assumes "\<forall>t \<in> set ts. snd t \<noteq> []"
  shows "read_trackers n_all bad i ts =
    Inr (map (\<lambda>(tier, url). \<lparr>tt_unique_id = i, tt_tier = tier, tt_url = url, tt_enabled = True\<rparr>) ts)"
  using assms by (induction n_all bad i ts rule: read_trackers.induct) auto

lemma read_trackers_bad:
  assumes "(tier, []) \<in> set ts" and "Suc bad \<le> n_all"
  shows "read_trackers n_all bad i ts = Inl (Invalid_argument ''No trackers were given'')"
  using assms by (induction n_all bad i ts rule: read_trackers.induct) auto


definition sample_parsed :: parsed_torrent where
  "sample_parsed = \<lparr>pt_nodes = [], pt_trackers = [(0, ''udp://t'')], pt_num_pieces = 3, pt_piece_length = 16,
     pt_name = ''n'', pt_comment = [], pt_creator = [], pt_magnet_uri = ''magnet:?x'', pt_num_files = 0,
     pt_files = []\<rparr>"

definition sample_c_file :: c_file where
  "sample_c_file = \<lparr>cf_opens = True, cf_seeks_end = True, cf_tell = 2, cf_seeks_start = True, cf_fread = 2,
     cf_data = ''de''\<rparr>"


text \<open>One tracker without an address makes the whole torrent unusable, whatever other trackers it has:
  the test meant to find torrents with only bad trackers is true at the first bad one.\<close>

theorem one_bad_tracker_fails:
  assumes "(tier, []) \<in> set (pt_trackers t)"
  shows "info_of_parsed item_limit i t = Inl (Invalid_argument ''No trackers were given'')"
proof -
  have "Suc 0 \<le> length (pt_trackers t)" using assms by (cases "pt_trackers t") auto
  with read_trackers_bad [OF assms, of 0] show ?thesis by (simp add: info_of_parsed_def)
qed

theorem one_bad_tracker_fails_witness:
  "info_of_parsed 500000 ''1'' (sample_parsed\<lparr>pt_trackers := [(0, ''udp://t''), (1, [])]\<rparr>) =
     Inl (Invalid_argument ''No trackers were given'')"
  by (rule one_bad_tracker_fails [of 1]) (simp add: sample_parsed_def)

end
