(* ===== verification/Fast_Csv.thy ===== *)
theory Fast_Csv
  imports Cxx_Numbers "HOL-Library.Word"
begin

text \<open>
  The bundled CSV reader (\<open>utils/fast-cpp-csv-parser/csv.h\<close>) as the dialogue for new downloads uses it:
  blanks trimmed, no quotes, no comments, text columns. The file is read in blocks into one buffer of
  three blocks: lines are found in the first two while a thread fills the third. Lines, columns and cells
  are cut out in place: the model keeps the buffer as memory, pointers into it as numbers and a C string
  as what is there up to the next zero byte. A read outside the buffer, or one that an \<open>assert\<close> rules out,
  is \<open>Undefined\<close>. The length of a block is a parameter of the operations; the code has \<open>block_len\<close>.
\<close>

unbundle bit_operations_syntax

section \<open>State\<close>

abbreviation NUL :: char where "NUL \<equiv> CHR 0x00"

definition block_len :: nat where "block_len = 2 ^ 24"

type_synonym memory = "nat \<Rightarrow> char"

text \<open>\<open>lr_source\<close> is what was not yet read from the file, \<open>lr_reader\<close> says that the thread was started and
  \<open>lr_ended\<close> that it has left its loop.\<close>

record line_reader =
  lr_buffer :: memory
  lr_data_begin :: nat
  lr_data_end :: nat
  lr_file_line :: "32 word"
  lr_source :: string
  lr_reader :: bool
  lr_ended :: bool

record fast_csv = line_reader +
  fc_row :: "nat option list"
  fc_column_names :: "string list"
  fc_col_order :: "int list"

type_synonym ('z, 'a) lines = "('z line_reader_scheme, 'a) prog"
type_synonym ('z, 'a) fast = "('z fast_csv_scheme, 'a) prog"

section \<open>Memory\<close>

text \<open>\<open>memcpy\<close> within the buffer, and the bytes a read puts there.\<close>

definition memcpy :: "memory \<Rightarrow> nat \<Rightarrow> nat \<Rightarrow> nat \<Rightarrow> memory" where
  "memcpy buf dest src n = (\<lambda>i. if dest \<le> i \<and> i < dest + n then buf (i - dest + src) else buf i)"

definition fill :: "memory \<Rightarrow> nat \<Rightarrow> string \<Rightarrow> memory" where
  "fill buf dest bytes = (\<lambda>i. if dest \<le> i \<and> i < dest + length bytes then bytes ! (i - dest) else buf i)"

text \<open>The C string at a pointer into a buffer of \<open>n\<close> bytes.\<close>

function c_string :: "nat \<Rightarrow> memory \<Rightarrow> nat \<Rightarrow> string option" where
  "c_string n buf i =
     (if n \<le> i then None
      else if buf i = NUL then Some []
      else map_option (Cons (buf i)) (c_string n buf (Suc i)))"
  by pat_completeness auto
termination by (relation "measure (\<lambda>(n, _, i). n - i)") auto

declare c_string.simps [simp del]

section \<open>Lines\<close>

text \<open>A UTF-8 byte order mark is passed over.\<close>

definition line_reader_init :: "nat \<Rightarrow> memory \<Rightarrow> string \<Rightarrow> line_reader" where
  "line_reader_init block heap bytes =
     (let first = take (2 * block) bytes; data_end = length first; buf = fill heap 0 first
      in \<lparr>lr_buffer = buf,
          lr_data_begin = (if 3 \<le> data_end \<and> buf 0 = CHR 0xEF \<and> buf 1 = CHR 0xBB \<and> buf 2 = CHR 0xBF then 3 else 0),
          lr_data_end = data_end, lr_file_line = 0, lr_source = drop (2 * block) bytes,
          lr_reader = (data_end = 2 * block), lr_ended = False\<rparr>)"

text \<open>The read that \<open>start_read\<close> asked for. A thread that has read nothing ends, and a later read is never
  done (\<open>Csv_Threads\<close> has the two threads).\<close>

definition finish_read :: "nat \<Rightarrow> ('z, nat) lines" where
  "finish_read block = (\<lambda>r.
     if lr_ended r then hang r
     else let bytes = take block (lr_source r)
          in ret (length bytes) (r\<lparr>lr_buffer := fill (lr_buffer r) (2 * block) bytes,
               lr_source := drop block (lr_source r), lr_ended := (bytes = [])\<rparr>))"

definition shift_blocks :: "nat \<Rightarrow> ('z, unit) lines" where
  "shift_blocks block = (\<lambda>r.
     if block \<le> lr_data_begin r then
       seqp (modifyp (\<lambda>r. r\<lparr>lr_buffer := memcpy (lr_buffer r) 0 block block,
               lr_data_begin := lr_data_begin r - block, lr_data_end := lr_data_end r - block\<rparr>))
         (if lr_reader r then
            bindp (finish_read block) (\<lambda>n.
            modifyp (\<lambda>r. r\<lparr>lr_data_end := lr_data_end r + n,
              lr_buffer := memcpy (lr_buffer r) block (2 * block) block\<rparr>))
          else ret ()) r
     else ret () r)"

function find_line_end :: "memory \<Rightarrow> nat \<Rightarrow> nat \<Rightarrow> nat" where
  "find_line_end buf data_end line_end =
     (if buf line_end \<noteq> LF \<and> line_end < data_end then find_line_end buf data_end (Suc line_end) else line_end)"
  by pat_completeness auto
termination by (relation "measure (\<lambda>(_, e, i). e - i)") auto

declare find_line_end.simps [simp del]

definition take_line :: "nat \<Rightarrow> ('z, nat) lines" where
  "take_line block = (\<lambda>r.
     let data_begin = lr_data_begin r; buf = lr_buffer r;
         line_end = find_line_end buf (lr_data_end r) data_begin
     in if block < line_end - data_begin + 1 then
          raise (Io_error ''line_length_limit_exceeded'' (sint (lr_file_line r))) r
        else
          let data_end = (if buf line_end = LF then lr_data_end r else Suc (lr_data_end r));
              buf = buf(line_end := NUL);
              buf = (if line_end \<noteq> data_begin \<and> buf (line_end - 1) = CR then buf(line_end - 1 := NUL) else buf)
          in ret data_begin (r\<lparr>lr_buffer := buf, lr_data_begin := line_end + 1, lr_data_end := data_end\<rparr>))"

definition next_line :: "nat \<Rightarrow> ('z, nat option) lines" where
  "next_line block = (\<lambda>r.
     if lr_data_begin r = lr_data_end r then ret None r
     else
       seqp (modifyp (\<lambda>r. r\<lparr>lr_file_line := lr_file_line r + 1\<rparr>))
         (if \<not> (lr_data_begin r < lr_data_end r \<and> lr_data_end r \<le> block * 2) then undefinedp
          else seqp (shift_blocks block) (bindp (take_line block) (\<lambda>p. ret (Some p)))) r)"

section \<open>Columns\<close>

definition is_trim_char :: "char \<Rightarrow> bool" where
  "is_trim_char c \<longleftrightarrow> c = CHR '' '' \<or> c = CHR 0x09"

function trim_begin :: "memory \<Rightarrow> nat \<Rightarrow> nat \<Rightarrow> nat" where
  "trim_begin buf str_begin str_end =
     (if is_trim_char (buf str_begin) \<and> str_begin < str_end then trim_begin buf (Suc str_begin) str_end else str_begin)"
  by pat_completeness auto
termination by (relation "measure (\<lambda>(_, b, e). e - b)") auto

text \<open>The character in front of the end is looked at before the end is compared with the beginning.\<close>

function trim_end :: "memory \<Rightarrow> nat \<Rightarrow> nat \<Rightarrow> nat option" where
  "trim_end buf str_begin str_end =
     (if str_end = 0 then None
      else if is_trim_char (buf (str_end - 1)) \<and> str_begin \<noteq> str_end then trim_end buf str_begin (str_end - 1)
      else Some str_end)"
  by pat_completeness auto
termination by (relation "measure (\<lambda>(_, _, e). e)") auto

declare trim_begin.simps [simp del] trim_end.simps [simp del]

definition trim :: "nat \<Rightarrow> nat \<Rightarrow> ('z, nat \<times> nat) lines" where
  "trim str_begin str_end = (\<lambda>r.
     let str_begin = trim_begin (lr_buffer r) str_begin str_end
     in case trim_end (lr_buffer r) str_begin str_end of
          None \<Rightarrow> undefinedp r
        | Some str_end \<Rightarrow> ret (str_begin, str_end) (r\<lparr>lr_buffer := (lr_buffer r)(str_end := NUL)\<rparr>))"

function find_next_column_end :: "nat \<Rightarrow> memory \<Rightarrow> nat \<Rightarrow> nat option" where
  "find_next_column_end n buf col_begin =
     (if n \<le> col_begin then None
      else if buf col_begin \<noteq> COMMA \<and> buf col_begin \<noteq> NUL then find_next_column_end n buf (Suc col_begin)
      else Some col_begin)"
  by pat_completeness auto
termination by (relation "measure (\<lambda>(n, _, i). n - i)") auto

declare find_next_column_end.simps [simp del]

definition chop_next_column :: "nat \<Rightarrow> nat \<Rightarrow> ('z, nat \<times> nat \<times> nat option) lines" where
  "chop_next_column n line = (\<lambda>r.
     case find_next_column_end n (lr_buffer r) line of
       None \<Rightarrow> undefinedp r
     | Some col_end \<Rightarrow>
         if lr_buffer r col_end = NUL then ret (line, col_end, None) r
         else ret (line, col_end, Some (col_end + 1)) (r\<lparr>lr_buffer := (lr_buffer r)(col_end := NUL)\<rparr>))"

fun parse_line :: "nat \<Rightarrow> int list \<Rightarrow> nat option \<Rightarrow> ('z, unit) fast" where
  "parse_line n [] line = (if line \<noteq> None then raise (Io_error ''too_many_columns'' (- 1)) else ret ())"
| "parse_line n (c # col_order) line =
     (case line of
        None \<Rightarrow> raise (Io_error ''too_few_columns'' (- 1))
      | Some line \<Rightarrow>
          bindp (chop_next_column n line) (\<lambda>(col_begin, col_end, line).
          seqp (if c \<noteq> - 1 then
                  bindp (trim col_begin col_end) (\<lambda>(col_begin, _).
                  modifyp (\<lambda>r. r\<lparr>fc_row := (fc_row r)[nat c := Some col_begin]\<rparr>))
                else ret ())
            (parse_line n col_order line)))"

section \<open>The header\<close>

definition ignore_extra_column :: "32 word" where "ignore_extra_column = 1"
definition ignore_missing_column :: "32 word" where "ignore_missing_column = 2"

definition index_of :: "string \<Rightarrow> string list \<Rightarrow> nat" where
  "index_of name names = length (takeWhile (\<lambda>x. x \<noteq> name) names)"

text \<open>One column of the header: the column names it may have, those found before, and the order so far.\<close>

definition header_column :: "32 word \<Rightarrow> string list \<Rightarrow> bool list \<Rightarrow> int list \<Rightarrow> string \<Rightarrow> exn + bool list \<times> int list" where
  "header_column ignore_policy names found order name =
     (let i = index_of name names
      in if i < length names then
           if found ! i then Inl (Io_error ''duplicated_column_in_header'' (- 1))
           else Inr (found[i := True], order @ [int i])
         else if ignore_policy AND ignore_extra_column \<noteq> 0 then Inr (found, order @ [- 1])
         else Inl (Io_error ''extra_column_in_header'' (- 1)))"

definition header_step :: "nat \<Rightarrow> 32 word \<Rightarrow> string list \<Rightarrow> nat option \<times> bool list \<times> int list \<Rightarrow>
    ('z, (nat option \<times> bool list \<times> int list) + bool list \<times> int list) lines" where
  "header_step n ignore_policy names x =
     (case x of (line, found, order) \<Rightarrow>
        (case line of
           None \<Rightarrow> ret (Inr (found, order))
         | Some line \<Rightarrow>
             bindp (chop_next_column n line) (\<lambda>(col_begin, col_end, line).
             bindp (trim col_begin col_end) (\<lambda>(col_begin, _).
             bindp (getp (\<lambda>r. c_string n (lr_buffer r) col_begin)) (\<lambda>name.
             case name of
               None \<Rightarrow> undefinedp
             | Some name \<Rightarrow>
                 bindp (liftp (header_column ignore_policy names found order name)) (\<lambda>(found, order).
                 ret (Inl (line, found, order))))))))"

definition parse_header_line :: "nat \<Rightarrow> 32 word \<Rightarrow> nat \<Rightarrow> ('z, unit) fast" where
  "parse_header_line n ignore_policy line =
     bindp (getp fc_column_names) (\<lambda>names.
     bindp (loopp (header_step n ignore_policy names) (Some line, replicate (length names) False, [])) (\<lambda>(found, order).
     seqp (modifyp (\<lambda>r. r\<lparr>fc_col_order := order\<rparr>))
       (if ignore_policy AND ignore_missing_column = 0 \<and> False \<in> set found then
          raise (Io_error ''missing_column_in_header'' (- 1))
        else ret ())))"

section \<open>The reader\<close>

definition csv_reader_init :: "nat \<Rightarrow> nat \<Rightarrow> memory \<Rightarrow> string \<Rightarrow> fast_csv" where
  "csv_reader_init column_count block heap bytes =
     line_reader.extend (line_reader_init block heap bytes)
       (fast_csv.fields (replicate column_count None) (map (\<lambda>i. ''col'' @ to_string_int (int i)) [1..<Suc column_count])
          (map int [0..<column_count]))"

definition read_header :: "nat \<Rightarrow> 32 word \<Rightarrow> string list \<Rightarrow> ('z, unit) fast" where
  "read_header block ignore_policy cols =
     seqp (modifyp (\<lambda>r. r\<lparr>fc_column_names := cols\<rparr>))
     (bindp (next_line block) (\<lambda>line.
      case line of
        None \<Rightarrow> raise (Io_error ''header_missing'' (- 1))
      | Some line \<Rightarrow> parse_header_line (3 * block) ignore_policy line))"

definition csv_has_column :: "string \<Rightarrow> 'z fast_csv_scheme \<Rightarrow> bool" where
  "csv_has_column name r \<longleftrightarrow> int (index_of name (fc_column_names r)) \<in> set (fc_col_order r)"

text \<open>A column that the header does not have leaves its variable alone.\<close>

fun parse_helper :: "nat \<Rightarrow> memory \<Rightarrow> nat option list \<Rightarrow> string list \<Rightarrow> string list option" where
  "parse_helper n buf (p # row) (t # cols) =
     (case (case p of None \<Rightarrow> Some t | Some p \<Rightarrow> c_string n buf p) of
        None \<Rightarrow> None
      | Some t \<Rightarrow> map_option (Cons t) (parse_helper n buf row cols))"
| "parse_helper n buf row cols = Some []"

definition csv_read_row :: "nat \<Rightarrow> string list \<Rightarrow> ('z, string list option) fast" where
  "csv_read_row block cols =
     catchp
       (bindp (next_line block) (\<lambda>line.
        case line of
          None \<Rightarrow> ret None
        | Some line \<Rightarrow>
            bindp (getp fc_col_order) (\<lambda>col_order.
            seqp (parse_line (3 * block) col_order (Some line))
            (bindp (getp (\<lambda>r. parse_helper (3 * block) (lr_buffer r) (fc_row r) cols)) (\<lambda>cols.
             case cols of None \<Rightarrow> undefinedp | Some cols \<Rightarrow> ret (Some cols))))))
       (\<lambda>e. case e of
          Io_error c _ \<Rightarrow> bindp (getp (\<lambda>r. sint (lr_file_line r))) (\<lambda>file_line. raise (Io_error c file_line))
        | _ \<Rightarrow> raise e)"

section \<open>The file of the dialogue\<close>

definition outcomep :: "'a outcome \<Rightarrow> ('s, 'a) prog" where
  "outcomep a = (\<lambda>s. (a, s))"

text \<open>The loop over the rows in \<open>AddURL\<close>, and what it finds in a file with these bytes: which columns there
  are, and the rows of address, destination and hash, or how reading them ended.\<close>

definition row_loop_step :: "nat \<Rightarrow> string list \<times> string list list \<Rightarrow>
    ('z, (string list \<times> string list list) + string list list) fast" where
  "row_loop_step block x =
     (case x of (vars, csv_vec) \<Rightarrow>
        bindp (csv_read_row block vars) (\<lambda>row.
        ret (case row of None \<Rightarrow> Inr csv_vec | Some vars \<Rightarrow> Inl (vars, csv_vec @ [vars]))))"

record csv_table =
  ct_has_url :: bool
  ct_has_dest :: bool
  ct_has_hash :: bool
  ct_rows :: "string list list outcome"

definition URL_ADD_CSV_FIELDS :: "string list" where
  "URL_ADD_CSV_FIELDS = [''url'', ''destination'', ''hash'']"

definition csv_file_table :: "nat \<Rightarrow> memory \<Rightarrow> string \<Rightarrow> csv_table outcome" where
  "csv_file_table block heap bytes =
     (case read_header block ignore_missing_column URL_ADD_CSV_FIELDS (csv_reader_init 3 block heap bytes) of
        (Ok _, r) \<Rightarrow> Ok \<lparr>ct_has_url = csv_has_column ''url'' r, ct_has_dest = csv_has_column ''destination'' r,
          ct_has_hash = csv_has_column ''hash'' r, ct_rows = fst (loopp (row_loop_step block) ([[], [], []], []) r)\<rparr>
      | (Throw e, _) \<Rightarrow> Throw e
      | (Hang, _) \<Rightarrow> Hang
      | (Undefined, _) \<Rightarrow> Undefined)"

end
