(* ===== verification/Add_Url.thy ===== *)
theory Add_Url
  imports Window_Stats Torrent_File Fast_Csv
begin

text \<open>
  The dialogue for new downloads (\<open>src/gui/addurl.cpp\<close>). Its signal \<open>sendDetails\<close> is connected to the slot of
  the window, so emitting it is a call. What the user entered is the record \<open>url_dialog\<close>; what \<open>QUrl\<close> and
  \<open>boost::filesystem\<close> say of a text, what libtorrent decodes and what the memory of a new buffer holds is the
  record \<open>import_library\<close>. A list of addresses is read with the bundled CSV reader (\<open>Fast_Csv\<close>). \<open>done\<close> closes the dialogue with a result; a
  plain \<open>return\<close> leaves it open.
\<close>

section \<open>The dialogue\<close>

record url_dialog =
  ud_tab :: int
  ud_url_dest :: string
  ud_url_text :: string
  ud_url_type :: string
  ud_hash_text :: string
  ud_hash_type :: string
  ud_file_import :: string
  ud_file_dest :: string

record import_library =
  il_valid_url :: "string \<Rightarrow> bool"
  il_extension :: "string \<Rightarrow> string"
  il_stem :: "string \<Rightarrow> string"
  il_heap :: memory
  il_c_file :: "string \<Rightarrow> c_file"
  il_decode :: "string \<Rightarrow> decoded_torrent"
  il_item_limit :: int

datatype dialog_result = Accepted | Rejected | Still_open

definition close_with :: "message_box \<Rightarrow> dialog_result \<Rightarrow> ('z, dialog_result) window" where
  "close_with b r = seqp (show_box b) (ret r)"

section \<open>One address\<close>

definition add_single_url :: "url_dialog \<Rightarrow> download_type \<Rightarrow> ('z, dialog_result) window" where
  "add_single_url d url_type =
     bindp (getp (\<lambda>w. fd_exists (h_disk w (ud_url_dest d)) \<and> fd_is_directory (h_disk w (ud_url_dest d)))) (\<lambda>is_dir.
     if is_dir then
       bindp (getp g_lib) (\<lambda>lib.
       bindp (liftp (verifyFileExists (gl_easy_ok lib) (gl_network lib) (ud_url_text d))) (\<lambda>info.
       if ci_response_code info = 200 then
         bindp (liftp (curlGrabInfo (gl_easy_ok lib) (gl_network lib) (ud_url_text d))) (\<lambda>info_ext.
         bindp (createId (of_nat UNIQUE_ID_DIGIT_COUNT)) (\<lambda>unique_id.
         let (hash_type, hash_val) =
               (if ud_hash_text d = [] then (HashNone, []) else (convHashType_StringToEnum (ud_hash_type d), ud_hash_text d))
         in seqp (sendDetails (ce_effective_url info_ext) (ce_content_length info_ext) 0 (Finite 0) 0 0 Stopped
                    (ce_effective_url info_ext) (ud_url_dest d @ CHR ''/'' # gl_file_name lib (ce_effective_url info_ext))
                    hash_type hash_val (ce_response_code info_ext) (ce_status_ok info_ext) (ce_status_msg info_ext)
                    unique_id url_type)
              (ret Accepted)))
       else close_with (Information (ci_effective_url info)) Rejected))
     else ret Still_open)"

definition accept_single :: "import_library \<Rightarrow> url_dialog \<Rightarrow> ('z, dialog_result) window" where
  "accept_single lib d =
     (let url_type = convDownType_StringToEnum (ud_url_type d)
      in if ud_url_dest d = [] then close_with (Information ''You must specify a destination directory.'') Rejected
         else if ud_url_text d = [] then close_with (Information ''You must specify a URL/Torrent/Magnet Link to grab.'') Rejected
         else if is_http url_type then
           seqp (if \<not> il_valid_url lib (ud_url_text d) then show_box (Warning ''The URL is not valid!'') else ret ())
             (with_warning (add_single_url d url_type) Still_open)
         else close_with (Information ''This function is not supported yet!'') Still_open)"

section \<open>A torrent file\<close>

definition import_torrent :: "import_library \<Rightarrow> url_dialog \<Rightarrow> ('z, dialog_result) window" where
  "import_torrent lib d =
     bindp (torrentFileInfo (il_decode lib) (il_c_file lib (ud_file_import d)) (il_item_limit lib)) (\<lambda>data.
     let g = ti_general data;
         data = data\<lparr>ti_general := g\<lparr>gi_dlStatus := Stopped,
           gi_down_dest := ud_file_dest d @ ''/'' @ il_stem lib (gi_torrent_name g) @ ''/''\<rparr>\<rparr>;
         g = ti_general data
     in bindp (addTorrentItem data) (\<lambda>_.
        seqp (sendDetails (gi_torrent_name g) (torrent_length g) 0 (Finite 0) 0 0 Stopped (gi_magnet_uri g)
                (gi_down_dest g) HashNone [] 0 True [] (gi_unique_id g) Torrent)
          (ret Accepted)))"

section \<open>A list of addresses\<close>

text \<open>One row. The variables \<open>info_ext\<close> and \<open>dl_info\<close> are those of the whole call: for an address that does
  not answer, the file name comes from the address that answered last.\<close>

definition import_row :: "string \<Rightarrow> bool \<Rightarrow> string \<times> string \<times> string \<Rightarrow> string \<times> string \<Rightarrow>
    ('z, (string \<times> string) + unit) window" where
  "import_row csv_file_dest has_dest row before =
     (case row of (url, dest, hash) \<Rightarrow> case before of (last_url, last_loc) \<Rightarrow>
        bindp (getp g_lib) (\<lambda>lib.
        bindp (liftp (verifyFileExists (gl_easy_ok lib) (gl_network lib) url)) (\<lambda>info.
        let (hash_type, hash_val) = (if hash \<noteq> [] then (CannotDetermine, hash) else (HashNone, []))
        in if ci_response_code info = 200 then
             bindp (liftp (curlGrabInfo (gl_easy_ok lib) (gl_network lib) url)) (\<lambda>info_ext.
             bindp (createId (of_nat UNIQUE_ID_DIGIT_COUNT)) (\<lambda>unique_id.
             bindp (if has_dest then ret dest
                    else if csv_file_dest \<noteq> [] then ret (csv_file_dest @ CHR ''/'' # gl_file_name lib (ce_effective_url info_ext))
                    else raise (Invalid_argument ''No destination specified'')) (\<lambda>file_loc.
             seqp (sendDetails (ce_effective_url info_ext) (ce_content_length info_ext) 0 (Finite 0) 0 0 Stopped
                     (ce_effective_url info_ext) file_loc hash_type hash_val (ce_response_code info_ext)
                     (ce_status_ok info_ext) [] unique_id HTTP)
               (ret (Inl (ce_effective_url info_ext, file_loc))))))
           else
             bindp (createId (of_nat UNIQUE_ID_DIGIT_COUNT)) (\<lambda>unique_id.
             let file_loc = (if csv_file_dest \<noteq> [] then csv_file_dest @ CHR ''/'' # gl_file_name lib last_url
                             else if has_dest then dest else last_loc)
             in seqp (sendDetails url (Finite 0) 0 (Finite 0) 0 0 Invalid url file_loc hash_type hash_val
                        (ci_response_code info) False [] unique_id HTTP)
                  (ret (Inl (last_url, file_loc)))))))"

definition import_csv :: "import_library \<Rightarrow> url_dialog \<Rightarrow> ('z, dialog_result) window" where
  "import_csv lib d =
     bindp (getp (\<lambda>w. h_disk w (ud_file_import d))) (\<lambda>f.
     bindp (if fd_opens f then outcomep (csv_file_table block_len (il_heap lib) (fd_bytes f))
            else raise (Io_error ''can_not_open_file'' (- 1))) (\<lambda>table.
     if \<not> ct_has_url table then raise (Invalid_argument ''Error reading CSV file!'')
     else if \<not> ct_has_dest table \<and> ud_file_dest d = [] then
       raise (Invalid_argument ''No destination provided either in dialog or CSV file!'')
     else
       bindp (outcomep (ct_rows table)) (\<lambda>rows.
       let csv_vec = map (\<lambda>vars. (vars ! 0, vars ! 1, if ct_has_hash table then vars ! 2 else [])) rows
       in bindp (for_each (import_row (ud_file_dest d) (ct_has_dest table)) csv_vec ([], [])) (\<lambda>_. ret Accepted))))"

definition accept_import :: "import_library \<Rightarrow> url_dialog \<Rightarrow> ('z, dialog_result) window" where
  "accept_import lib d =
     with_warning
       (if ud_file_import d = [] then close_with (Information ''You must specify a target file to import!'') Rejected
        else
          bindp (getp (\<lambda>w. h_disk w (ud_file_import d))) (\<lambda>f.
          if \<not> fd_exists f then raise (Invalid_argument ''The file you have chosen does not exist!'')
          else if fd_is_directory f then raise (Invalid_argument ''You selected a directory, not a file!'')
          else if il_extension lib (ud_file_import d) = ''.torrent'' then import_torrent lib d
          else import_csv lib d)) Rejected"

definition on_buttonBox_accepted :: "import_library \<Rightarrow> url_dialog \<Rightarrow> ('z, dialog_result) window" where
  "on_buttonBox_accepted lib d = (if ud_tab d = 0 then accept_single lib d else accept_import lib d)"

end
