(* ===== verification/Fast_Csv_Lines.thy ===== *)
theory Fast_Csv_Lines
  imports Fast_Csv
begin

text \<open>
  Why the lines of \<open>LineReader\<close> are the lines of the file. The specification splits the text at the line
  feeds, as \<open>std::getline\<close> does, drops one carriage return at the end of a line and cuts a line at its first
  zero byte. The invariant says what the buffer and the bytes still to be read hold; the blocks are shifted
  and refilled, and the thread is never asked again after it has ended.
\<close>

section \<open>Specification\<close>

definition c_line :: "string \<Rightarrow> string" where
  "c_line l = takeWhile (\<lambda>c. c \<noteq> NUL) (if l \<noteq> [] \<and> last l = CR then butlast l else l)"

definition BOM :: string where "BOM = [CHR 0xEF, CHR 0xBB, CHR 0xBF]"

definition without_bom :: "string \<Rightarrow> string" where
  "without_bom text = (if take 3 text = BOM then drop 3 text else text)"

definition csv_lines :: "string \<Rightarrow> string list" where
  "csv_lines text = map c_line (getlines LF (without_bom text))"

section \<open>Strings in memory\<close>

text \<open>These characters from a place on, and a C string there.\<close>

fun text_at :: "memory \<Rightarrow> nat \<Rightarrow> string \<Rightarrow> bool" where
  "text_at buf p [] = True"
| "text_at buf p (c # cs) = (buf p = c \<and> text_at buf (Suc p) cs)"

definition str_at :: "memory \<Rightarrow> nat \<Rightarrow> string \<Rightarrow> bool" where
  "str_at buf p s \<longleftrightarrow> text_at buf p s \<and> buf (p + length s) = NUL \<and> NUL \<notin> set s"

lemma text_at_map: "text_at buf p s \<longleftrightarrow> map buf [p..<p + length s] = s"
  by (induction s arbitrary: p) (auto simp del: upt_Suc simp: upt_conv_Cons)

lemma text_at_append [simp]: "text_at buf p (s @ t) \<longleftrightarrow> text_at buf p s \<and> text_at buf (p + length s) t"
  by (induction s arbitrary: p) auto

lemma text_at_cong: "(\<And>i. p \<le> i \<Longrightarrow> i < p + length s \<Longrightarrow> buf' i = buf i) \<Longrightarrow> text_at buf' p s \<longleftrightarrow> text_at buf p s"
  by (induction s arbitrary: p) auto

lemma str_at_cong: "(\<And>i. p \<le> i \<Longrightarrow> i \<le> p + length s \<Longrightarrow> buf' i = buf i) \<Longrightarrow> str_at buf' p s \<longleftrightarrow> str_at buf p s"
  using text_at_cong [of p s buf' buf] by (simp add: str_at_def)

lemma c_string_at: "str_at buf p s \<Longrightarrow> p + length s < n \<Longrightarrow> c_string n buf p = Some s"
proof (induction s arbitrary: p)
  case Nil
  then show ?case by (subst c_string.simps) (simp add: str_at_def)
next
  case (Cons c cs)
  then show ?case by (subst c_string.simps) (auto simp: str_at_def)
qed

lemma str_at_cut:
  assumes "text_at buf p s" and "buf (p + length s) = NUL"
  shows "str_at buf p (takeWhile (\<lambda>c. c \<noteq> NUL) s)"
  using assms
proof (induction s arbitrary: p)
  case (Cons c cs)
  then show ?case using Cons.IH [of "Suc p"] by (cases "c = NUL") (auto simp: str_at_def)
qed (simp add: str_at_def)

section \<open>What the reader holds\<close>

definition holds :: "nat \<Rightarrow> 'z line_reader_scheme \<Rightarrow> string \<Rightarrow> bool" where
  "holds block r rest \<longleftrightarrow>
     (if rest = [] then lr_data_begin r = lr_data_end r
      else lr_data_begin r < lr_data_end r \<and> lr_data_end r \<le> 2 * block \<and>
        rest = map (lr_buffer r) [lr_data_begin r..<lr_data_end r] @ (if lr_reader r then lr_source r else []) \<and>
        (lr_reader r \<longrightarrow> lr_data_end r \<noteq> 2 * block \<longrightarrow> lr_source r = []) \<and>
        (lr_reader r \<longrightarrow> lr_ended r \<longrightarrow> lr_source r = [] \<and> lr_data_end r \<le> block) \<and>
        (\<not> lr_reader r \<longrightarrow> lr_data_end r < 2 * block) \<and>
        (last rest = LF \<or> \<not> lr_reader r \<and> lr_buffer r (lr_data_end r) \<noteq> LF))"

lemma holds_cong:
  "(\<And>i. lr_data_begin r \<le> i \<Longrightarrow> buf i = lr_buffer r i) \<Longrightarrow> holds block (r\<lparr>lr_buffer := buf\<rparr>) rest \<longleftrightarrow> holds block r rest"
proof -
  assume a: "\<And>i. lr_data_begin r \<le> i \<Longrightarrow> buf i = lr_buffer r i"
  then have "map buf [lr_data_begin r..<lr_data_end r] = map (lr_buffer r) [lr_data_begin r..<lr_data_end r]" by simp
  moreover have "lr_data_begin r < lr_data_end r \<Longrightarrow> buf (lr_data_end r) = lr_buffer r (lr_data_end r)" using a by simp
  ultimately show ?thesis unfolding holds_def by auto
qed

text \<open>A file ends with a line feed, or it is small and what the memory holds behind it is not one.\<close>

definition ends_well :: "nat \<Rightarrow> memory \<Rightarrow> string \<Rightarrow> bool" where
  "ends_well block heap text \<longleftrightarrow> text = [] \<or> last text = LF \<or> length text < 2 * block \<and> heap (length text) \<noteq> LF"

lemma map_fill: "map (fill heap p s) [p..<p + length s] = s"
  by (rule nth_equalityI) (simp_all add: fill_def)

lemma init_holds:
  assumes "2 \<le> block" and "ends_well block heap text"
  shows "holds block (line_reader_init block heap text) (without_bom text)"
    and "lr_data_begin (line_reader_init block heap text) = length text - length (without_bom text)"
proof -
  let ?first = "take (2 * block) text" and ?r = "line_reader_init block heap text"
  let ?buf = "fill heap 0 ?first"
  have len: "length ?first = (if 2 * block \<le> length text then 2 * block else length text)" by simp
  have bom: "3 \<le> length ?first \<and> ?buf 0 = CHR 0xEF \<and> ?buf 1 = CHR 0xBB \<and> ?buf 2 = CHR 0xBF \<longleftrightarrow> take 3 text = BOM"
  proof (cases "3 \<le> length text")
    case True
    then obtain a b c t where t: "text = a # b # c # t"
      by (metis Suc_le_length_iff numeral_3_eq_3)
    have "3 \<le> 2 * block" using assms(1) by simp
    then obtain k where k: "2 * block = 3 + k" using le_Suc_ex by blast
    show ?thesis unfolding t k by (auto simp: fill_def BOM_def numeral_3_eq_3 numeral_2_eq_2)
  next
    case False
    then have "length (take 3 text) \<noteq> length BOM" by (simp add: BOM_def)
    then show ?thesis using False by auto
  qed
  have start: "lr_data_begin ?r = (if take 3 text = BOM then 3 else 0)"
    using bom by (simp add: line_reader_init_def Let_def)
  have "length BOM = 3" by (simp add: BOM_def)
  then have l3: "take 3 text = BOM \<Longrightarrow> 3 \<le> length text"
    by (metis length_take min.cobounded1)
  then show b: "lr_data_begin ?r = length text - length (without_bom text)" by (simp add: start without_bom_def)
  have all: "map ?buf [0..<length ?first] = ?first" using map_fill [of heap 0 ?first] by simp
  have part: "map ?buf [lr_data_begin ?r..<length ?first] = drop (lr_data_begin ?r) ?first"
    by (metis all drop_map drop_upt add_0)
  have wb: "without_bom text = drop (lr_data_begin ?r) text" by (simp add: start without_bom_def)
  have two: "3 < 2 * block" using assms(1) by simp
  show "holds block ?r (without_bom text)"
  proof (cases "without_bom text = []")
    case True
    then have "length text \<le> lr_data_begin ?r" by (simp add: wb)
    then have "lr_data_begin ?r = length text" using b by simp
    moreover have "lr_data_begin ?r \<le> 2 * block" using two by (simp add: start)
    ultimately show ?thesis using True by (simp add: holds_def line_reader_init_def Let_def split: if_splits)
  next
    case False
    then have lt: "lr_data_begin ?r < length text" by (simp add: wb)
    moreover have "lr_data_begin ?r < 2 * block" using two by (simp add: start)
    ultimately have lt2: "lr_data_begin ?r < length ?first" by simp
    have split: "without_bom text = drop (lr_data_begin ?r) ?first @ drop (2 * block) text"
    proof -
      have "drop (lr_data_begin ?r) (?first @ drop (2 * block) text) = drop (lr_data_begin ?r) ?first @ drop (2 * block) text"
        using lt2 by (simp only: drop_append) simp
      then show ?thesis by (simp add: wb)
    qed
    have last: "last (without_bom text) = last text" using lt by (simp add: wb last_drop)
    have fields: "lr_buffer ?r = ?buf" "lr_data_end ?r = length ?first" "lr_source ?r = drop (2 * block) text"
      "lr_reader ?r \<longleftrightarrow> length ?first = 2 * block" "\<not> lr_ended ?r"
      by (simp_all add: line_reader_init_def Let_def)
    have "last text = LF \<or> \<not> lr_reader ?r \<and> ?buf (length ?first) \<noteq> LF"
      using assms(2) lt by (auto simp: ends_well_def fields fill_def)
    then show ?thesis
      unfolding holds_def using False lt2 split part last
      by (simp add: fields(1-3,5)) (use fields(4) len in \<open>auto split: if_splits\<close>)
  qed
qed

section \<open>Shifting the blocks\<close>

lemma map_memcpy: "map (memcpy buf dest src n) [dest..<dest + n] = map buf [src..<src + n]"
  by (rule nth_equalityI) (simp_all add: memcpy_def add.commute)

lemma shift_holds:
  fixes r :: "'z line_reader_scheme"
  assumes "holds block r rest" and "rest \<noteq> []" and "0 < block"
  shows "\<exists>buf b e s d. shift_blocks block r =
      (Ok (), r\<lparr>lr_buffer := buf, lr_data_begin := b, lr_data_end := e, lr_source := s, lr_ended := d\<rparr>) \<and>
    holds block (r\<lparr>lr_buffer := buf, lr_data_begin := b, lr_data_end := e, lr_source := s, lr_ended := d\<rparr>) rest \<and>
    b < block \<and> b mod block = lr_data_begin r mod block"
proof (cases "block \<le> lr_data_begin r")
  case False
  then have "shift_blocks block r = (Ok (), r\<lparr>lr_buffer := lr_buffer r, lr_data_begin := lr_data_begin r,
    lr_data_end := lr_data_end r, lr_source := lr_source r, lr_ended := lr_ended r\<rparr>)"
    by (simp add: shift_blocks_def)
  with assms(1) False show ?thesis
    by (intro exI [of _ "lr_buffer r"] exI [of _ "lr_data_begin r"] exI [of _ "lr_data_end r"] exI [of _ "lr_source r"]
        exI [of _ "lr_ended r"]) simp
next
  case True
  define b e where "b = lr_data_begin r - block" and "e = lr_data_end r - block"
  define buf where "buf = memcpy (lr_buffer r) 0 block block"
  have h: "lr_data_begin r < lr_data_end r" "lr_data_end r \<le> 2 * block"
    "rest = map (lr_buffer r) [lr_data_begin r..<lr_data_end r] @ (if lr_reader r then lr_source r else [])"
    "lr_reader r \<Longrightarrow> lr_data_end r \<noteq> 2 * block \<Longrightarrow> lr_source r = []"
    "lr_reader r \<Longrightarrow> lr_ended r \<Longrightarrow> lr_data_end r \<le> block"
    "\<not> lr_reader r \<Longrightarrow> lr_data_end r < 2 * block"
    "last rest = LF \<or> \<not> lr_reader r \<and> lr_buffer r (lr_data_end r) \<noteq> LF"
    using assms(1,2) by (auto simp: holds_def)
  have be: "b < e" "b < block" "e \<le> block" "lr_data_begin r = b + block" "lr_data_end r = e + block"
    using h(1,2) True by (auto simp: b_def e_def)
  have mod: "b mod block = lr_data_begin r mod block" by (simp add: be(4))
  have moved: "map buf [b..<e] = map (lr_buffer r) [lr_data_begin r..<lr_data_end r]"
    unfolding be(4,5) by (rule nth_equalityI) (use be in \<open>auto simp: buf_def memcpy_def add.commute add.left_commute\<close>)
  show ?thesis
  proof (cases "lr_reader r")
    case reader: False
    have "buf e = lr_buffer r (lr_data_end r)" using h(6) [OF reader] be(5) by (simp add: buf_def memcpy_def)
    then have last: "last rest = LF \<or> buf e \<noteq> LF" using h(7) by auto
    have "rest = map buf [b..<e]" "e < 2 * block" using h(3,6) reader moved be(5) by auto
    then have "holds block (r\<lparr>lr_buffer := buf, lr_data_begin := b, lr_data_end := e, lr_source := lr_source r, lr_ended := lr_ended r\<rparr>) rest"
      using reader be(1) last assms(2) by (simp add: holds_def)
    moreover have "shift_blocks block r = (Ok (), r\<lparr>lr_buffer := buf, lr_data_begin := b, lr_data_end := e,
        lr_source := lr_source r, lr_ended := lr_ended r\<rparr>)"
      using True reader by (simp add: shift_blocks_def buf_def b_def e_def)
    ultimately show ?thesis using be(2) mod by blast
  next
    case reader: True
    let ?s = "lr_source r" and ?bytes = "take block (lr_source r)"
    let ?buf = "memcpy (fill buf (2 * block) ?bytes) block (2 * block) block"
    have "\<not> lr_ended r" using h(5) [OF reader] h(1) True by linarith
    then have run: "shift_blocks block r = (Ok (), r\<lparr>lr_buffer := ?buf, lr_data_begin := b, lr_data_end := e + length ?bytes,
        lr_source := drop block ?s, lr_ended := (?bytes = [])\<rparr>)"
      using True reader by (simp add: shift_blocks_def finish_read_def bindp_def seqp_def buf_def b_def e_def Let_def)
    have full: "e = block" if "?s \<noteq> []" using h(4) [OF reader] that be(5) by force
    have "map ?buf [b..<e] = map buf [b..<e]" using be by (auto simp: memcpy_def fill_def)
    moreover have "map ?buf [e..<e + length ?bytes] = ?bytes"
    proof (cases "?s = []")
      case False
      show ?thesis unfolding full [OF False] by (rule nth_equalityI) (auto simp: memcpy_def fill_def)
    qed simp
    ultimately have "map ?buf [b..<e + length ?bytes] = map (lr_buffer r) [lr_data_begin r..<lr_data_end r] @ ?bytes"
      using be(1) moved by (metis (no_types, lifting) less_imp_le map_append upt_add_eq_append)
    then have rest: "rest = map ?buf [b..<e + length ?bytes] @ drop block ?s"
      using h(3) reader by simp
    have small: "e + length ?bytes \<le> 2 * block" using be(3) by simp
    have empty: "drop block ?s = []" if "e + length ?bytes \<noteq> 2 * block"
    proof (cases "?s = []")
      case False
      then show ?thesis using that full by (auto simp: min_def split: if_splits)
    qed simp
    have ended: "drop block ?s = [] \<and> e + length ?bytes \<le> block" if "?bytes = []"
      using that be(3) assms(3) by simp
    have "holds block (r\<lparr>lr_buffer := ?buf, lr_data_begin := b, lr_data_end := e + length ?bytes,
        lr_source := drop block ?s, lr_ended := (?bytes = [])\<rparr>) rest"
      using assms(2) reader small rest empty ended h(7) be(1) by (simp add: holds_def)
    with run mod be(2) show ?thesis by blast
  qed
qed

section \<open>Taking a line\<close>

lemma find_line_end_takeWhile:
  "b \<le> e \<Longrightarrow> find_line_end buf e b = b + length (takeWhile (\<lambda>c. c \<noteq> LF) (map buf [b..<e]))"
proof (induction "e - b" arbitrary: b)
  case 0
  then show ?case by (subst find_line_end.simps) simp
next
  case (Suc k)
  then have "b < e" by simp
  then show ?case using Suc by (subst find_line_end.simps) (simp add: upt_conv_Cons)
qed

lemma getline_head_append:
  "LF \<in> set s \<Longrightarrow> getline_head LF (s @ t) = getline_head LF s \<and> getline_rest LF (s @ t) = getline_rest LF s @ t"
  by (induction s) (auto simp: getline_head_def getline_rest_def)

lemma getline_head_all: "LF \<notin> set s \<Longrightarrow> getline_head LF s = s \<and> getline_rest LF s = []"
  by (induction s) (auto simp: getline_head_def getline_rest_def)

lemma getline_head_ge: "LF \<notin> set s \<Longrightarrow> length s \<le> length (getline_head LF (s @ t))"
  by (induction s) (auto simp: getline_head_def)

lemma getline_split: "LF \<in> set s \<Longrightarrow> s = getline_head LF s @ LF # getline_rest LF s"
  by (induction s) (auto simp: getline_head_def getline_rest_def)

text \<open>The line that is cut out, and where it ends.\<close>

lemma line_cut:
  assumes "text_at buf b l" and "buf' = buf(b + length l := NUL)"
    and "buf'' = (if l \<noteq> [] \<and> buf' (b + length l - 1) = CR then buf'(b + length l - 1 := NUL) else buf')"
  shows "str_at buf'' b (c_line l)"
proof (cases "l \<noteq> [] \<and> last l = CR")
  case False
  have t: "text_at buf' b l" using assms(1,2) text_at_cong [of b l buf' buf] by simp
  have "l \<noteq> [] \<Longrightarrow> buf' (b + length l - 1) = last l"
    using t by (cases l rule: rev_cases) auto
  then have "buf'' = buf'" using False assms(3) by auto
  moreover have "buf' (b + length l) = NUL" by (simp add: assms(2))
  ultimately show ?thesis using t False str_at_cut [of buf' b l] by (auto simp: c_line_def)
next
  case True
  then obtain k where l: "l = k @ [CR]" by (metis append_butlast_last_id)
  have t: "text_at buf' b l" using assms(1,2) text_at_cong [of b l buf' buf] by simp
  then have eq: "buf'' = buf'(b + length k := NUL)" using assms(3) by (simp add: l)
  have "text_at buf'' b k" using t text_at_cong [of b k buf'' buf'] by (simp add: l eq)
  moreover have "buf'' (b + length k) = NUL" by (simp add: eq)
  ultimately show ?thesis using str_at_cut [of buf'' b k] by (simp add: c_line_def l)
qed

lemma take_line_holds:
  fixes r :: "'z line_reader_scheme"
  assumes "holds block r rest" and "rest \<noteq> []" and "lr_data_begin r < block"
  shows "if length (getline_head LF rest) < block
    then \<exists>buf e. take_line block r = (Ok (lr_data_begin r), r\<lparr>lr_buffer := buf,
          lr_data_begin := lr_data_begin r + length (getline_head LF rest) + 1, lr_data_end := e\<rparr>) \<and>
        holds block (r\<lparr>lr_buffer := buf, lr_data_begin := lr_data_begin r + length (getline_head LF rest) + 1, lr_data_end := e\<rparr>)
          (getline_rest LF rest) \<and>
        str_at buf (lr_data_begin r) (c_line (getline_head LF rest))
    else take_line block r = (Throw (Io_error ''line_length_limit_exceeded'' (sint (lr_file_line r))), r)"
proof -
  define b e buf where "b = lr_data_begin r" and "e = lr_data_end r" and "buf = lr_buffer r"
  define here src l where "here = map buf [b..<e]" and "src = (if lr_reader r then lr_source r else [])" and
    "l = getline_head LF rest"
  have h: "b < e" "e \<le> 2 * block" "rest = here @ src" "src \<noteq> [] \<Longrightarrow> e = 2 * block"
    "last rest = LF \<or> \<not> lr_reader r \<and> buf e \<noteq> LF" "b < block"
    using assms by (auto simp: holds_def b_def e_def buf_def here_def src_def split: if_splits)
  have k: "lr_reader r \<longrightarrow> e \<noteq> 2 * block \<longrightarrow> lr_source r = []" "lr_reader r \<longrightarrow> lr_ended r \<longrightarrow> lr_source r = [] \<and> e \<le> block"
    "\<not> lr_reader r \<longrightarrow> e < 2 * block"
    using assms(1,2) by (auto simp: holds_def e_def)
  have end_at: "find_line_end buf e b = b + length (getline_head LF here)"
    using find_line_end_takeWhile [of b e buf] h(1) by (simp add: here_def getline_head_def)
  define line_end where "line_end = b + length (getline_head LF here)"
  define buf1 where "buf1 = buf(line_end := NUL)"
  define buf2 where "buf2 = (if line_end \<noteq> b \<and> buf1 (line_end - 1) = CR then buf1(line_end - 1 := NUL) else buf1)"
  have run: "take_line block r = (if block < line_end - b + 1
      then (Throw (Io_error ''line_length_limit_exceeded'' (sint (lr_file_line r))), r)
      else (Ok b, r\<lparr>lr_buffer := buf2, lr_data_begin := line_end + 1,
        lr_data_end := (if buf line_end = LF then e else Suc e)\<rparr>))"
    unfolding take_line_def Let_def b_def [symmetric] e_def [symmetric] buf_def [symmetric] end_at line_end_def [symmetric]
    by (simp add: buf2_def buf1_def)
  have too_long: "\<not> length l < block \<and> block < line_end - b + 1" if "LF \<notin> set here" "src \<noteq> []"
  proof -
    have "length here = e - b" by (simp add: here_def)
    then have "block < length here" using h(4) [OF that(2)] h(6) by linarith
    moreover have "length here \<le> length l" using getline_head_ge [OF that(1)] by (simp add: l_def h(3))
    ultimately show ?thesis using getline_head_all [OF that(1)] by (simp add: line_end_def)
  qed
  have head: "getline_head LF here = l" if "LF \<in> set here \<or> src = []"
    using that getline_head_append [of here src] by (auto simp: l_def h(3))
  have tl: "text_at buf b l" if cond: "LF \<in> set here \<or> src = []"
  proof -
    have "text_at buf b here" using h(1) by (simp add: text_at_map here_def)
    moreover obtain t where "here = l @ t" using head [OF cond] takeWhile_dropWhile_id by (metis getline_head_def)
    ultimately show ?thesis by simp
  qed
  have l_nil: "line_end \<noteq> b \<longleftrightarrow> l \<noteq> []" if "LF \<in> set here \<or> src = []"
    using head [OF that] by (simp add: line_end_def)
  have str: "str_at buf2 b (c_line l)" if cond: "LF \<in> set here \<or> src = []"
  proof -
    have le: "line_end = b + length l" by (simp add: line_end_def head [OF cond])
    have "buf1 = buf(b + length l := NUL)" by (simp only: buf1_def le)
    moreover have "buf2 = (if l \<noteq> [] \<and> buf1 (b + length l - 1) = CR then buf1(b + length l - 1 := NUL) else buf1)"
      unfolding buf2_def le by simp
    ultimately show ?thesis by (rule line_cut [OF tl [OF cond]])
  qed
  have above: "buf2 i = buf i" if "line_end + 1 \<le> i" for i
    using that by (simp add: buf2_def buf1_def)
  have keep: "holds block (r\<lparr>lr_buffer := buf2, lr_data_begin := line_end + 1,
        lr_data_end := (if buf line_end = LF then e else Suc e)\<rparr>) (getline_rest LF rest)"
    if cond: "LF \<in> set here \<or> src = []" and short: "length l < block"
  proof (cases "LF \<in> set here")
    case True
    have le: "line_end < e" "buf line_end = LF" "map buf [line_end + 1..<e] = getline_rest LF here"
    proof -
      obtain pre post where p: "here = pre @ LF # post" "LF \<notin> set pre" using True by (metis split_list_first)
      then have head: "getline_head LF here = pre" "getline_rest LF here = post"
        by (simp_all add: getline_head_def getline_rest_def takeWhile_append dropWhile_append)
      have "length here = e - b" by (simp add: here_def)
      then have "length pre < e - b" by (simp add: p(1))
      then show "line_end < e" unfolding line_end_def head by simp
      have at: "buf (b + i) = here ! i" if "i < length here" for i using that by (simp add: here_def)
      show "buf line_end = LF" unfolding line_end_def head using at [of "length pre"] by (simp add: p(1))
      have "map buf [line_end + 1..<e] = drop (Suc (length pre)) here"
        unfolding line_end_def head by (simp add: here_def drop_map)
      then show "map buf [line_end + 1..<e] = getline_rest LF here" unfolding head by (simp add: p(1))
    qed
    have "map buf2 [line_end + 1..<e] = map buf [line_end + 1..<e]" by (rule map_cong) (use above in auto)
    with le have rest: "getline_rest LF rest = map buf2 [line_end + 1..<e] @ src"
      using getline_head_append [OF True, of src] by (simp add: h(3))
    have pre: "rest = l @ LF # getline_rest LF rest"
      using getline_split [of rest] True by (simp add: l_def h(3))
    have near: "line_end + 1 < 2 * block"
      using short h(6) head [OF cond] by (simp add: line_end_def)
    show ?thesis
    proof (cases "getline_rest LF rest = []")
      case True
      then show ?thesis using rest le(1,2) by (auto simp: holds_def)
    next
      case more: False
      have "line_end + 1 < e" using more rest le(1) near h(4) by (cases "line_end + 1 = e") auto
      moreover have "last (getline_rest LF rest) = last rest" using more by (subst (2) pre) simp
      moreover have "buf2 e = buf e" using above le(1) by simp
      ultimately have "line_end + 1 < e" "last (getline_rest LF rest) = LF \<or> \<not> lr_reader r \<and> buf2 e \<noteq> LF"
        using h(5) by auto
      then show ?thesis using k h(2) rest le(2) more unfolding src_def by (simp add: holds_def)
    qed
  next
    case False
    then have rest: "rest = here" using cond h(3) by simp
    have "here \<noteq> []" using h(1) by (simp add: here_def)
    then have "last here \<noteq> LF" using False by (metis last_in_set)
    then have "buf e \<noteq> LF" using h(5) rest by simp
    moreover have "line_end = e" using getline_head_all [OF False] h(1) by (simp add: line_end_def) (simp add: here_def)
    moreover have "getline_rest LF rest = []" using getline_head_all [OF False] rest by simp
    ultimately show ?thesis by (simp add: holds_def)
  qed
  show ?thesis
  proof (cases "LF \<in> set here \<or> src = []")
    case True
    have le: "line_end = b + length l" by (simp add: line_end_def head [OF True])
    show ?thesis
    proof (cases "length l < block")
      case short: True
      then have "take_line block r = (Ok b, r\<lparr>lr_buffer := buf2, lr_data_begin := b + length l + 1,
          lr_data_end := (if buf line_end = LF then e else Suc e)\<rparr>)"
        using run by (simp add: le)
      then show ?thesis
        using keep [OF True short] str [OF True] short unfolding l_def [symmetric] b_def [symmetric] le
        by (intro if_P [THEN iffD2] exI [of _ buf2] exI [of _ "if buf (b + length l) = LF then e else Suc e"] conjI) assumption+
    next
      case False
      then show ?thesis using run unfolding l_def [symmetric] le by simp
    qed
  next
    case False
    then show ?thesis using too_long run unfolding l_def [symmetric] by simp
  qed
qed

text \<open>One call of \<open>next_line\<close>. The pointer it gives is the place of the line in the file, counted within a block.\<close>

lemma next_line_holds:
  fixes r :: "'z line_reader_scheme"
  assumes "holds block r rest" and "rest \<noteq> []" and "0 < block"
  shows "if length (getline_head LF rest) < block
    then \<exists>buf b e s d. next_line block r = (Ok (Some (lr_data_begin r mod block)), r\<lparr>lr_file_line := lr_file_line r + 1, lr_source := s, lr_ended := d,
          lr_buffer := buf, lr_data_begin := b, lr_data_end := e\<rparr>) \<and>
        holds block (r\<lparr>lr_file_line := lr_file_line r + 1, lr_source := s, lr_ended := d,
          lr_buffer := buf, lr_data_begin := b, lr_data_end := e\<rparr>) (getline_rest LF rest) \<and>
        b = lr_data_begin r mod block + length (getline_head LF rest) + 1 \<and>
        str_at buf (lr_data_begin r mod block) (c_line (getline_head LF rest))
    else fst (next_line block r) = Throw (Io_error ''line_length_limit_exceeded'' (sint (lr_file_line r + 1)))"
proof -
  let ?r = "r\<lparr>lr_file_line := lr_file_line r + 1\<rparr> :: 'z line_reader_scheme"
  have be: "lr_data_begin r < lr_data_end r" "lr_data_end r \<le> block * 2"
    using assms(1,2) by (simp_all add: holds_def mult.commute)
  then have run: "next_line block r = seqp (shift_blocks block) (bindp (take_line block) (\<lambda>p. ret (Some p))) ?r"
    by (simp add: next_line_def)
  have "holds block ?r rest \<longleftrightarrow> holds block r rest" unfolding holds_def by simp
  then have "holds block ?r rest" using assms(1) by simp
  from shift_holds [OF this assms(2,3)] obtain buf b e s d
    where s: "shift_blocks block ?r = (Ok (), ?r\<lparr>lr_buffer := buf, lr_data_begin := b, lr_data_end := e, lr_source := s, lr_ended := d\<rparr>)"
      "holds block (?r\<lparr>lr_buffer := buf, lr_data_begin := b, lr_data_end := e, lr_source := s, lr_ended := d\<rparr>) rest"
      "b < block" "b mod block = lr_data_begin r mod block"
    by auto
  let ?v = "?r\<lparr>lr_buffer := buf, lr_data_begin := b, lr_data_end := e, lr_source := s, lr_ended := d\<rparr> :: 'z line_reader_scheme"
  have b: "b = lr_data_begin r mod block" using s(3,4) by simp
  have run2: "next_line block r = bindp (take_line block) (\<lambda>p. ret (Some p)) ?v" using run s(1) by (simp add: seqp_Ok)
  show ?thesis
  proof (cases "length (getline_head LF rest) < block")
    case True
    with take_line_holds [OF s(2) assms(2)] s(3) obtain buf' e'
      where "take_line block ?v = (Ok b, ?v\<lparr>lr_buffer := buf', lr_data_begin := b + length (getline_head LF rest) + 1, lr_data_end := e'\<rparr>)"
        "holds block (?v\<lparr>lr_buffer := buf', lr_data_begin := b + length (getline_head LF rest) + 1, lr_data_end := e'\<rparr>) (getline_rest LF rest)"
        "str_at buf' b (c_line (getline_head LF rest))"
      by auto
    then show ?thesis unfolding if_P [OF True]
      by - (rule exI [of _ buf'], rule exI [of _ "b + length (getline_head LF rest) + 1"],
          rule exI [of _ e'], rule exI [of _ s], rule exI [of _ d], simp_all add: run2 bindp_Ok b)
  next
    case False
    then have "take_line block ?v = (Throw (Io_error ''line_length_limit_exceeded'' (sint (lr_file_line r + 1))), ?v)"
      using take_line_holds [OF s(2) assms(2)] s(3) by simp
    with False show ?thesis by (simp add: run2 bindp_Throw)
  qed
qed

lemma next_line_end: "holds block r [] \<Longrightarrow> next_line block r = (Ok None, r)"
  by (simp add: holds_def next_line_def)

section \<open>Reading all lines\<close>

text \<open>A client that asks for lines until there are none, and keeps their texts.\<close>

definition lines_step :: "nat \<Rightarrow> string list \<Rightarrow> ('z, string list + string list) lines" where
  "lines_step block acc =
     bindp (next_line block) (\<lambda>p.
     case p of
       None \<Rightarrow> ret (Inr acc)
     | Some p \<Rightarrow>
         bindp (getp (\<lambda>r. c_string (3 * block) (lr_buffer r) p)) (\<lambda>s.
         case s of None \<Rightarrow> undefinedp | Some s \<Rightarrow> ret (Inl (acc @ [s]))))"

definition read_lines :: "nat \<Rightarrow> ('z, string list) lines" where
  "read_lines block = loopp (lines_step block) []"

text \<open>The number of the line that a reader is at, as it is printed.\<close>

definition line_number :: "nat \<Rightarrow> int" where
  "line_number n = sint (of_nat n :: 32 word)"

definition lines_outcome :: "nat \<Rightarrow> nat \<Rightarrow> string list \<Rightarrow> string list \<Rightarrow> string list outcome" where
  "lines_outcome block k acc ls =
     (if \<forall>l \<in> set ls. length l < block then Ok (acc @ map c_line ls)
      else Throw (Io_error ''line_length_limit_exceeded'' (line_number (Suc (k + length (takeWhile (\<lambda>l. length l < block) ls))))))"

lemma c_line_length: "length (c_line l) \<le> length l"
  using length_takeWhile_le [of "\<lambda>c. c \<noteq> NUL" "if l \<noteq> [] \<and> last l = CR then butlast l else l"]
  by (auto simp: c_line_def split: if_splits)

lemma lines_run:
  fixes r :: "'z line_reader_scheme"
  assumes "holds block r rest" and "0 < block" and "lr_file_line r = of_nat k"
  shows "fst (loopp (lines_step block) acc r) = lines_outcome block k acc (getlines LF rest)"
  using assms
proof (induction "length rest" arbitrary: rest r k acc rule: less_induct)
  case less
  show ?case
  proof (cases "rest = []")
    case True
    then have "lines_step block acc r = (Ok (Inr acc), r)"
      using next_line_end [of block r] less.prems(1) by (simp add: lines_step_def bindp_Ok)
    then show ?thesis using True by (simp add: loopp_done lines_outcome_def)
  next
    case False
    let ?l = "getline_head LF rest" and ?p = "lr_data_begin r mod block"
    have lines: "getlines LF rest = ?l # getlines LF (getline_rest LF rest)"
      using False by (subst getlines.simps) simp
    note step = next_line_holds [OF less.prems(1) False less.prems(2)]
    show ?thesis
    proof (cases "length ?l < block")
      case True
      from step [unfolded if_P [OF True]] obtain buf b e s d where
        n: "next_line block r = (Ok (Some ?p), r\<lparr>lr_file_line := lr_file_line r + 1, lr_source := s, lr_ended := d,
            lr_buffer := buf, lr_data_begin := b, lr_data_end := e\<rparr>)"
          "holds block (r\<lparr>lr_file_line := lr_file_line r + 1, lr_source := s, lr_ended := d,
            lr_buffer := buf, lr_data_begin := b, lr_data_end := e\<rparr>) (getline_rest LF rest)"
          "str_at buf ?p (c_line ?l)" by blast
      let ?v = "r\<lparr>lr_file_line := lr_file_line r + 1, lr_source := s, lr_ended := d,
        lr_buffer := buf, lr_data_begin := b, lr_data_end := e\<rparr> :: 'z line_reader_scheme"
      have "?p < block" using less.prems(2) by simp
      then have "?p + length (c_line ?l) < 3 * block" using c_line_length [of ?l] True by linarith
      then have "c_string (3 * block) buf ?p = Some (c_line ?l)" by (rule c_string_at [OF n(3)])
      then have s: "lines_step block acc r = (Ok (Inl (acc @ [c_line ?l])), ?v)"
        using n(1) by (simp add: lines_step_def bindp_Ok)
      have "length (getline_rest LF rest) < length rest"
        using False length_dropWhile_le [of "\<lambda>c. c \<noteq> LF" rest] by (cases rest) (auto simp: getline_rest_def)
      moreover have "lr_file_line ?v = of_nat (Suc k)" using less.prems(3) by simp
      ultimately have ih: "fst (loopp (lines_step block) (acc @ [c_line ?l]) ?v) =
          lines_outcome block (Suc k) (acc @ [c_line ?l]) (getlines LF (getline_rest LF rest))"
        using less.hyps n(2) less.prems(2) by blast
      obtain x v' where x: "loopp (lines_step block) (acc @ [c_line ?l]) ?v = (x, v')" by fastforce
      have x_ok: "x \<noteq> Hang" using ih x by (auto simp: lines_outcome_def split: if_splits)
      have "loopp (lines_step block) acc r = (x, v')"
        by (rule loopp_next [where y = "acc @ [c_line ?l]" and s' = ?v]) (rule s, rule x, rule x_ok)
      then show ?thesis using ih x True by (simp add: lines lines_outcome_def)
    next
      case False
      then have "fst (next_line block r) = Throw (Io_error ''line_length_limit_exceeded'' (sint (lr_file_line r + 1)))"
        using step by simp
      moreover have "sint (lr_file_line r + 1) = line_number (Suc k)" by (simp add: less.prems(3) line_number_def add.commute)
      ultimately obtain v where "next_line block r = (Throw (Io_error ''line_length_limit_exceeded'' (line_number (Suc k))), v)"
        by (cases "next_line block r") simp
      then have "lines_step block acc r = (Throw (Io_error ''line_length_limit_exceeded'' (line_number (Suc k))), v)"
        by (simp add: lines_step_def bindp_Throw)
      then show ?thesis using False by (simp add: loopp_throw lines lines_outcome_def)
    qed
  qed
qed

end
