(* ===== verification/Fast_Csv_Columns.thy ===== *)
theory Fast_Csv_Columns
  imports Fast_Csv_Lines
begin

text \<open>
  Cutting a line into cells in place: the cells are the pieces between the commas with the blanks around them
  taken off. Every cut writes a zero byte inside the line only, so the cells cut before stay what they were.
  The one thing that can go wrong is an empty first column at the very beginning of the buffer, where the
  trimming reads the byte in front of the buffer.
\<close>

section \<open>Specification\<close>

fun columns :: "string \<Rightarrow> string list" where
  "columns [] = [[]]"
| "columns (c # cs) = (if c = COMMA then [] # columns cs else (c # hd (columns cs)) # tl (columns cs))"

definition trimmed :: "string \<Rightarrow> string" where
  "trimmed s = rev (dropWhile is_trim_char (rev (dropWhile is_trim_char s)))"

definition cells :: "string \<Rightarrow> string list" where
  "cells l = map trimmed (columns l)"

lemma columns_not_Nil [simp]: "columns s \<noteq> []"
  by (cases s) simp_all

lemma columns_comma: "COMMA \<notin> set c \<Longrightarrow> columns (c @ COMMA # t) = c # columns t"
  by (induction c) auto

lemma columns_last: "COMMA \<notin> set c \<Longrightarrow> columns c = [c]"
  by (induction c) auto

lemma columns_cases:
  obtains (last) "COMMA \<notin> set s" "columns s = [s]"
  | (more) c t where "s = c @ COMMA # t" "COMMA \<notin> set c" "columns s = c # columns t"
proof (cases "COMMA \<in> set s")
  case True
  then obtain c t where "s = c @ COMMA # t" "COMMA \<notin> set c" by (metis split_list_first)
  then show ?thesis using more columns_comma by blast
next
  case False
  then show ?thesis using last columns_last by blast
qed

section \<open>One column\<close>

lemma find_column:
  assumes "text_at buf p c" and "buf (p + length c) = COMMA \<or> buf (p + length c) = NUL" and "COMMA \<notin> set c" and "NUL \<notin> set c"
    and "p + length c < n"
  shows "find_next_column_end n buf p = Some (p + length c)"
  using assms
proof (induction c arbitrary: p)
  case Nil
  then show ?case by (subst find_next_column_end.simps) auto
next
  case (Cons x c)
  then show ?case using Cons.IH [of "Suc p"] by (subst find_next_column_end.simps) auto
qed

lemma chop_last:
  assumes "str_at (lr_buffer r) p s" and "COMMA \<notin> set s" and "p + length s < n"
  shows "chop_next_column n p r = (Ok (p, p + length s, None), r)"
  using find_column [of "lr_buffer r" p s n] assms by (simp add: chop_next_column_def str_at_def)

lemma chop_more:
  assumes "str_at (lr_buffer r) p (c @ COMMA # t)" and "COMMA \<notin> set c" and "p + length (c @ COMMA # t) < n"
  shows "chop_next_column n p r = (Ok (p, p + length c, Some (p + length c + 1)), r\<lparr>lr_buffer := (lr_buffer r)(p + length c := NUL)\<rparr>)"
    and "str_at ((lr_buffer r)(p + length c := NUL)) p c"
    and "str_at ((lr_buffer r)(p + length c := NUL)) (p + length c + 1) t"
proof -
  have b: "text_at (lr_buffer r) p c" "lr_buffer r (p + length c) = COMMA" "text_at (lr_buffer r) (Suc (p + length c)) t"
    "NUL \<notin> set c" "NUL \<notin> set t" "lr_buffer r (Suc (p + (length c + length t))) = NUL"
    using assms(1) by (auto simp: str_at_def)
  show "chop_next_column n p r = (Ok (p, p + length c, Some (p + length c + 1)), r\<lparr>lr_buffer := (lr_buffer r)(p + length c := NUL)\<rparr>)"
    using find_column [of "lr_buffer r" p c n] assms(2,3) b by (simp add: chop_next_column_def)
  show "str_at ((lr_buffer r)(p + length c := NUL)) p c"
    using b text_at_cong [of p c "(lr_buffer r)(p + length c := NUL)" "lr_buffer r"] by (simp add: str_at_def)
  show "str_at ((lr_buffer r)(p + length c := NUL)) (p + length c + 1) t"
    using b text_at_cong [of "Suc (p + length c)" t "(lr_buffer r)(p + length c := NUL)" "lr_buffer r"]
    by (simp add: str_at_def add.assoc)
qed

lemma trim_begin_at:
  "text_at buf b s \<Longrightarrow> trim_begin buf b (b + length s) = b + length (takeWhile is_trim_char s)"
proof (induction s arbitrary: b)
  case Nil
  then show ?case by (subst trim_begin.simps) simp
next
  case (Cons c s)
  then show ?case using Cons.IH [of "Suc b"] by (subst trim_begin.simps) auto
qed

lemma trim_end_at:
  "text_at buf b s \<Longrightarrow> s = [] \<or> \<not> is_trim_char (hd s) \<Longrightarrow> 0 < b + length s \<Longrightarrow>
     trim_end buf b (b + length s) = Some (b + length (rev (dropWhile is_trim_char (rev s))))"
proof (induction s rule: rev_induct)
  case Nil
  then show ?case by (subst trim_end.simps) simp
next
  case (snoc x s)
  show ?case
  proof (cases "is_trim_char x")
    case True
    then have "s \<noteq> []" using snoc.prems(2) by auto
    then have "trim_end buf b (b + length s) = Some (b + length (rev (dropWhile is_trim_char (rev s))))"
      using snoc by (intro snoc.IH) (auto simp: hd_append)
    then show ?thesis using True snoc.prems(1) by (subst trim_end.simps) simp
  next
    case False
    then show ?thesis using snoc.prems(1) by (subst trim_end.simps) simp
  qed
qed

lemma trimmed_split: "\<exists>a z. s = a @ trimmed s @ z \<and> length a = length (takeWhile is_trim_char s)"
proof -
  have "dropWhile is_trim_char s = trimmed s @ rev (takeWhile is_trim_char (rev (dropWhile is_trim_char s)))"
    unfolding trimmed_def by (metis rev_append rev_rev_ident takeWhile_dropWhile_id)
  then have "s = takeWhile is_trim_char s @ trimmed s @ rev (takeWhile is_trim_char (rev (dropWhile is_trim_char s)))"
    by (metis takeWhile_dropWhile_id)
  then show ?thesis by blast
qed

text \<open>Trimming a column gives its trimmed text, and changes nothing outside of it.\<close>

lemma trim_at:
  fixes r :: "'z line_reader_scheme"
  assumes "str_at (lr_buffer r) p s" and "0 < p + length s"
  shows "\<exists>b e. trim p (p + length s) r = (Ok (b, e), r\<lparr>lr_buffer := (lr_buffer r)(e := NUL)\<rparr>) \<and>
    str_at ((lr_buffer r)(e := NUL)) b (trimmed s) \<and> p \<le> b \<and> p \<le> e \<and> e \<le> p + length s \<and> b + length (trimmed s) \<le> p + length s"
proof -
  let ?d = "dropWhile is_trim_char s"
  let ?b = "p + length (takeWhile is_trim_char s)" and ?e = "p + length (takeWhile is_trim_char s) + length (trimmed s)"
  have len: "length (takeWhile is_trim_char s) + length ?d = length s"
    by (metis length_append takeWhile_dropWhile_id)
  have t: "text_at (lr_buffer r) p s" "NUL \<notin> set s" using assms(1) by (auto simp: str_at_def)
  have "text_at (lr_buffer r) p (takeWhile is_trim_char s @ ?d)" using t(1) by simp
  then have td: "text_at (lr_buffer r) ?b ?d" by (simp only: text_at_append)
  have "trim_begin (lr_buffer r) p (p + length s) = ?b" by (rule trim_begin_at [OF t(1)])
  moreover have "trim_end (lr_buffer r) ?b (?b + length ?d) = Some ?e"
  proof -
    have "?d = [] \<or> \<not> is_trim_char (hd ?d)" using hd_dropWhile by blast
    moreover have "0 < ?b + length ?d" using len assms(2) by linarith
    ultimately show ?thesis unfolding trimmed_def by (rule trim_end_at [OF td])
  qed
  ultimately have run: "trim p (p + length s) r = (Ok (?b, ?e), r\<lparr>lr_buffer := (lr_buffer r)(?e := NUL)\<rparr>)"
    using len by (simp add: trim_def Let_def add.assoc)
  obtain a z where s: "s = a @ trimmed s @ z" "length a = length (takeWhile is_trim_char s)" using trimmed_split by blast
  have "text_at (lr_buffer r) p (a @ trimmed s @ z)" using t(1) s(1) by simp
  then have "text_at (lr_buffer r) ?b (trimmed s)" using s(2) by (simp only: text_at_append)
  then have "text_at ((lr_buffer r)(?e := NUL)) ?b (trimmed s)"
    using text_at_cong [of ?b "trimmed s" "(lr_buffer r)(?e := NUL)" "lr_buffer r"] by simp
  moreover have "NUL \<notin> set (trimmed s)" using t(2) s(1) by (metis Un_iff set_append)
  ultimately have "str_at ((lr_buffer r)(?e := NUL)) ?b (trimmed s)" by (simp add: str_at_def add.assoc)
  moreover have "?e \<le> p + length s"
  proof -
    have "length s = length a + length (trimmed s) + length z" using s(1) by (metis add.assoc length_append)
    then show ?thesis using s(2) by simp
  qed
  ultimately show ?thesis using run by (intro exI [of _ ?b] exI [of _ ?e]) simp
qed

section \<open>A line of cells\<close>

text \<open>The pointers to the cells are put in the places that the header gave them.\<close>

fun place :: "int list \<Rightarrow> nat list \<Rightarrow> nat option list \<Rightarrow> nat option list" where
  "place (c # cs) (q # qs) row = place cs qs (row[nat c := Some q])"
| "place cs qs row = row"

definition cells_in :: "memory \<Rightarrow> nat \<Rightarrow> nat \<Rightarrow> nat list \<Rightarrow> string list \<Rightarrow> bool" where
  "cells_in buf lo hi ps cs \<longleftrightarrow> list_all2 (\<lambda>q c. str_at buf q c \<and> lo \<le> q \<and> q + length c \<le> hi) ps cs"

lemma cells_in_cong:
  assumes "cells_in buf lo hi ps cs" and "\<And>i. lo \<le> i \<Longrightarrow> i \<le> hi \<Longrightarrow> buf' i = buf i" and "lo' \<le> lo" and "hi \<le> hi'"
  shows "cells_in buf' lo' hi' ps cs"
  unfolding cells_in_def
proof (rule list.rel_mono_strong [OF assms(1) [unfolded cells_in_def]])
  fix q c
  assume a: "str_at buf q c \<and> lo \<le> q \<and> q + length c \<le> hi"
  then have "str_at buf' q c \<longleftrightarrow> str_at buf q c" by (intro str_at_cong assms(2)) auto
  then show "str_at buf' q c \<and> lo' \<le> q \<and> q + length c \<le> hi'" using a assms(3,4) by simp
qed

definition kept_outside :: "memory \<Rightarrow> memory \<Rightarrow> nat \<Rightarrow> nat \<Rightarrow> bool" where
  "kept_outside buf buf' lo hi \<longleftrightarrow> (\<forall>i. i < lo \<or> hi < i \<longrightarrow> buf' i = buf i)"

lemma parse_line_run:
  fixes r :: "'z fast_csv_scheme"
  assumes "str_at (lr_buffer r) p s" and "p + length s < n" and "0 < p \<or> hd (columns s) \<noteq> []" and "\<forall>c \<in> set order. 0 \<le> c"
  shows "(length (columns s) = length order \<longrightarrow>
      (\<exists>buf ps. parse_line n order (Some p) r = (Ok (), r\<lparr>lr_buffer := buf, fc_row := place order ps (fc_row r)\<rparr>) \<and>
        cells_in buf p (p + length s) ps (cells s) \<and> kept_outside (lr_buffer r) buf p (p + length s))) \<and>
    (length (columns s) < length order \<longrightarrow>
      (\<exists>v. parse_line n order (Some p) r = (Throw (Io_error ''too_few_columns'' (- 1)), v) \<and> lr_file_line v = lr_file_line r)) \<and>
    (length order < length (columns s) \<longrightarrow>
      (\<exists>v. parse_line n order (Some p) r = (Throw (Io_error ''too_many_columns'' (- 1)), v) \<and> lr_file_line v = lr_file_line r))"
  using assms
proof (induction order arbitrary: p s r)
  case Nil
  then show ?case by simp
next
  case (Cons c order)
  have c: "0 \<le> c" "c \<noteq> - 1" using Cons.prems(4) by auto
  show ?case
  proof (cases rule: columns_cases [of s])
    case last
    then have "0 < p + length s" using Cons.prems(3) by auto
    from trim_at [OF Cons.prems(1) this] obtain b e where t: "trim p (p + length s) r = (Ok (b, e), r\<lparr>lr_buffer := (lr_buffer r)(e := NUL)\<rparr>)"
      "str_at ((lr_buffer r)(e := NUL)) b (trimmed s)" "p \<le> b" "p \<le> e" "e \<le> p + length s" "b + length (trimmed s) \<le> p + length s"
      by blast
    have run: "parse_line n (c # order) (Some p) r = parse_line n order None (r\<lparr>lr_buffer := (lr_buffer r)(e := NUL), fc_row := (fc_row r)[nat c := Some b]\<rparr>)"
      using c(2) t(1) chop_last [OF Cons.prems(1) last(1) Cons.prems(2)] by (simp add: bindp_Ok seqp_Ok)
    have in1: "cells_in ((lr_buffer r)(e := NUL)) p (p + length s) [b] (cells s)"
      using t by (simp add: cells_in_def cells_def last(2))
    have out1: "kept_outside (lr_buffer r) ((lr_buffer r)(e := NUL)) p (p + length s)" using t by (simp add: kept_outside_def)
    show ?thesis
    proof (cases order)
      case Nil
      then have "parse_line n (c # order) (Some p) r = (Ok (), r\<lparr>lr_buffer := (lr_buffer r)(e := NUL), fc_row := place (c # order) [b] (fc_row r)\<rparr>)"
        using run by simp
      then show ?thesis using in1 out1 last(2) Nil by (simp only:) (auto intro!: exI)
    next
      case more: (Cons a order')
      then show ?thesis using run last(2) by simp
    qed
  next
    case (more k t)
    have str: "str_at (lr_buffer r) p (k @ COMMA # t)" and len: "p + length (k @ COMMA # t) < n"
      using Cons.prems(1,2) more(1) by simp_all
    define b1 where "b1 = (lr_buffer r)(p + length k := NUL)"
    note chop = chop_more [OF str more(2) len, folded b1_def]
    have "0 < p + length k" using Cons.prems(3) more(3) by auto
    then obtain b e where t: "trim p (p + length k) (r\<lparr>lr_buffer := b1\<rparr>) = (Ok (b, e), r\<lparr>lr_buffer := b1(e := NUL)\<rparr>)"
      "str_at (b1(e := NUL)) b (trimmed k)" "p \<le> b" "p \<le> e" "e \<le> p + length k" "b + length (trimmed k) \<le> p + length k"
      using trim_at [of "r\<lparr>lr_buffer := b1\<rparr>" p k] chop(2) by auto
    let ?r = "r\<lparr>lr_buffer := b1(e := NUL), fc_row := (fc_row r)[nat c := Some b]\<rparr> :: 'z fast_csv_scheme"
    have run: "parse_line n (c # order) (Some p) r = parse_line n order (Some (p + length k + 1)) ?r"
      using c(2) t(1) chop(1) by (simp add: bindp_Ok seqp_Ok)
    have st: "str_at (b1(e := NUL)) (p + length k + 1) t"
      using chop(3) t(5) str_at_cong [of "p + length k + 1" t "b1(e := NUL)" b1] by simp
    have ih: "str_at (lr_buffer ?r) (p + length k + 1) t" "p + length k + 1 + length t < n" "0 < p + length k + 1 \<or> hd (columns t) \<noteq> []"
      "\<forall>c \<in> set order. 0 \<le> c"
      using st len Cons.prems(4) by simp_all
    note IH = Cons.IH [OF ih]
    have cols: "length (columns s) = Suc (length (columns t))" using more(3) by simp
    show ?thesis
    proof (cases "length (columns t)" "length order" rule: linorder_cases)
      case equal
      with IH obtain buf ps where i: "parse_line n order (Some (p + length k + 1)) ?r = (Ok (), ?r\<lparr>lr_buffer := buf, fc_row := place order ps (fc_row ?r)\<rparr>)"
        "cells_in buf (p + length k + 1) (p + length k + 1 + length t) ps (cells t)"
        "kept_outside (lr_buffer ?r) buf (p + length k + 1) (p + length k + 1 + length t)"
        by blast
      have first: "str_at buf b (trimmed k)"
        using t(2,6) i(3) str_at_cong [of b "trimmed k" buf "b1(e := NUL)"] by (auto simp: kept_outside_def)
      have rest: "cells_in buf p (p + length s) ps (cells t)"
        by (rule cells_in_cong [OF i(2)]) (simp_all add: more(1))
      then have "cells_in buf p (p + length s) (b # ps) (cells s)"
      proof -
        have "cells s = trimmed k # cells t" by (simp add: cells_def more(3))
        moreover have "length k \<le> length s" by (simp add: more(1))
        ultimately show ?thesis using first rest t(3,6) by (simp add: cells_in_def)
      qed
      moreover have "kept_outside (lr_buffer r) buf p (p + length s)"
        using i(3) t(4,5) by (auto simp: kept_outside_def b1_def more(1))
      moreover have "parse_line n (c # order) (Some p) r = (Ok (), r\<lparr>lr_buffer := buf, fc_row := place (c # order) (b # ps) (fc_row r)\<rparr>)"
        using run i(1) by simp
      moreover have eq: "length (columns s) = length (c # order)" using cols equal by simp
      ultimately show ?thesis unfolding eq by (intro conjI impI) (blast | simp only: less_irrefl)+
    qed (use IH run cols in auto)
  qed
qed

end
