(* ===== verification/Fast_Csv_Table.thy ===== *)
theory Fast_Csv_Table
  imports Fast_Csv_Columns
begin

text \<open>
  Why the header and the rows the reader gives are those of the text. The specification knows no buffer: the
  first line names the columns, in any order and without those it leaves out; every other line has a cell for
  each of them; the first line that has not, ends the reading with its number.
\<close>

section \<open>Specification\<close>

fun header_fault :: "string list \<Rightarrow> string list \<Rightarrow> string list \<Rightarrow> exn option" where
  "header_fault names seen [] = None"
| "header_fault names seen (c # cs) =
     (if c \<notin> set names then Some (Io_error ''extra_column_in_header'' (- 1))
      else if c \<in> set seen then Some (Io_error ''duplicated_column_in_header'' (- 1))
      else header_fault names (c # seen) cs)"

definition row_of :: "int list \<Rightarrow> string list \<Rightarrow> string list" where
  "row_of order cs = map (\<lambda>i. case map_of (zip order cs) (int i) of Some c \<Rightarrow> c | None \<Rightarrow> []) [0..<3]"

fun rows_spec :: "int list \<Rightarrow> nat \<Rightarrow> string list \<Rightarrow> string list list \<Rightarrow> string list list outcome" where
  "rows_spec order k [] acc = Ok acc"
| "rows_spec order k (l # ls) acc =
     (if length (cells l) < length order then Throw (Io_error ''too_few_columns'' (line_number (Suc k)))
      else if length order < length (cells l) then Throw (Io_error ''too_many_columns'' (line_number (Suc k)))
      else rows_spec order (Suc k) ls (acc @ [row_of order (cells l)]))"

definition order_of :: "string list \<Rightarrow> string list \<Rightarrow> int list" where
  "order_of names cs = map (\<lambda>c. int (index_of c names)) cs"

definition csv_spec :: "string \<Rightarrow> csv_table outcome" where
  "csv_spec text =
     (case csv_lines text of
        [] \<Rightarrow> Throw (Io_error ''header_missing'' (- 1))
      | h # ls \<Rightarrow>
          (case header_fault URL_ADD_CSV_FIELDS [] (cells h) of
             Some e \<Rightarrow> Throw e
           | None \<Rightarrow> Ok \<lparr>ct_has_url = (''url'' \<in> set (cells h)), ct_has_dest = (''destination'' \<in> set (cells h)),
               ct_has_hash = (''hash'' \<in> set (cells h)),
               ct_rows = rows_spec (order_of URL_ADD_CSV_FIELDS (cells h)) 1 ls []\<rparr>))"

text \<open>No line that comes to lie at the beginning of the buffer has an empty first column.\<close>

fun edges_ok :: "nat \<Rightarrow> nat \<Rightarrow> string list \<Rightarrow> bool" where
  "edges_ok block off [] = True"
| "edges_ok block off (l # ls) =
     ((off mod block = 0 \<longrightarrow> hd (columns (c_line l)) \<noteq> []) \<and> edges_ok block (off + length l + 1) ls)"

section \<open>The header\<close>

lemma index_of_less: "index_of c names < length names \<longleftrightarrow> c \<in> set names"
  by (induction names) (auto simp: index_of_def)

lemma index_of_nth: "c \<in> set names \<Longrightarrow> names ! index_of c names = c"
  by (induction names) (auto simp: index_of_def)

lemma index_of_distinct: "distinct names \<Longrightarrow> i < length names \<Longrightarrow> index_of (names ! i) names = i"
proof (induction names arbitrary: i)
  case (Cons x names)
  then show ?case by (cases i) (auto simp: index_of_def)
qed simp

lemma header_column_known:
  assumes "distinct names" and "found = map (\<lambda>x. x \<in> set seen) names"
  shows "header_column ignore_missing_column names found order c =
    (if c \<notin> set names then Inl (Io_error ''extra_column_in_header'' (- 1))
     else if c \<in> set seen then Inl (Io_error ''duplicated_column_in_header'' (- 1))
     else Inr (map (\<lambda>x. x \<in> set (c # seen)) names, order @ [int (index_of c names)]))"
proof (cases "c \<in> set names")
  case False
  then show ?thesis
    by (simp add: header_column_def index_of_less ignore_missing_column_def ignore_extra_column_def Let_def)
next
  case True
  let ?i = "index_of c names"
  have i: "?i < length names" "names ! ?i = c" using True by (simp_all add: index_of_less index_of_nth)
  have "found[?i := True] = map (\<lambda>x. x \<in> set (c # seen)) names"
  proof (rule nth_equalityI)
    fix j assume "j < length (found[?i := True])"
    then have j: "j < length names" by (simp add: assms(2))
    have "names ! j = c \<longleftrightarrow> j = ?i" using index_of_distinct [OF assms(1) j] i(2) by auto
    then show "found[?i := True] ! j = map (\<lambda>x. x \<in> set (c # seen)) names ! j"
      using i j by (auto simp: assms(2) nth_list_update)
  qed (simp add: assms(2))
  then show ?thesis using True i by (simp add: header_column_def assms(2) Let_def)
qed

lemma header_run:
  fixes r :: "'z line_reader_scheme"
  assumes "str_at (lr_buffer r) p s" and "p + length s < n" and "0 < p \<or> hd (columns s) \<noteq> []" and "distinct names"
    and "found = map (\<lambda>x. x \<in> set seen) names"
  shows "\<exists>buf found'. kept_outside (lr_buffer r) buf p (p + length s) \<and>
    loopp (header_step n ignore_missing_column names) (Some p, found, order) r =
      (case header_fault names seen (cells s) of Some e \<Rightarrow> Throw e | None \<Rightarrow> Ok (found', order @ order_of names (cells s)),
       r\<lparr>lr_buffer := buf\<rparr>)"
  using assms
proof (induction "length s" arbitrary: s p r found seen order rule: less_induct)
  case less
  let ?step = "header_step n ignore_missing_column names"
  have column: "?step (Some p, found, order) r =
      (case header_column ignore_missing_column names found order (trimmed k) of
         Inl e \<Rightarrow> (Throw e, r\<lparr>lr_buffer := b1(e' := NUL)\<rparr>)
       | Inr (f, ords) \<Rightarrow> (Ok (Inl (nx, f, ords)), r\<lparr>lr_buffer := b1(e' := NUL)\<rparr>))"
    if "chop_next_column n p r = (Ok (p, p + length k, nx), r\<lparr>lr_buffer := b1\<rparr>)"
      "trim p (p + length k) (r\<lparr>lr_buffer := b1\<rparr>) = (Ok (b, e'), r\<lparr>lr_buffer := b1(e' := NUL)\<rparr>)"
      "str_at (b1(e' := NUL)) b (trimmed k)" "b + length (trimmed k) \<le> p + length k" "p + length k < n"
    for k b1 nx b e'
    using that c_string_at [OF that(3), of n]
    by (cases "header_column ignore_missing_column names found order (trimmed k)")
      (auto simp: header_step_def bindp_Ok bindp_Throw split: prod.split)
  show ?case
  proof (cases rule: columns_cases [of s])
    case last
    then have "0 < p + length s" using less.prems(3) by auto
    from trim_at [OF less.prems(1) this] obtain b e where t: "trim p (p + length s) r = (Ok (b, e), r\<lparr>lr_buffer := (lr_buffer r)(e := NUL)\<rparr>)"
      "str_at ((lr_buffer r)(e := NUL)) b (trimmed s)" "p \<le> e" "e \<le> p + length s" "b + length (trimmed s) \<le> p + length s"
      by blast
    let ?r = "r\<lparr>lr_buffer := (lr_buffer r)(e := NUL)\<rparr> :: 'z line_reader_scheme"
    have "chop_next_column n p r = (Ok (p, p + length s, None), r\<lparr>lr_buffer := lr_buffer r\<rparr>)"
      using chop_last [OF less.prems(1) last(1) less.prems(2)] by simp
    moreover have "trim p (p + length s) (r\<lparr>lr_buffer := lr_buffer r\<rparr>) = (Ok (b, e), ?r)" using t(1) by simp
    ultimately have s: "?step (Some p, found, order) r =
        (case header_column ignore_missing_column names found order (trimmed s) of
           Inl x \<Rightarrow> (Throw x, ?r) | Inr (f, ords) \<Rightarrow> (Ok (Inl (None, f, ords)), ?r))"
      using column t(2,5) less.prems(2) by blast
    have out: "kept_outside (lr_buffer r) ((lr_buffer r)(e := NUL)) p (p + length s)" using t by (simp add: kept_outside_def)
    have cells: "cells s = [trimmed s]" by (simp add: cells_def last(2))
    have none: "?step (None, f, ords) ?r = (Ok (Inr (f, ords)), ?r)" for f ords by (simp add: header_step_def)
    show ?thesis
    proof (cases "header_column ignore_missing_column names found order (trimmed s)")
      case (Inl x)
      then have "header_fault names seen (cells s) = Some x"
        using header_column_known [OF less.prems(4,5)] by (simp add: cells split: if_splits)
      then show ?thesis using out s Inl by (intro exI [of _ "(lr_buffer r)(e := NUL)"]) (simp add: loopp_throw)
    next
      case (Inr y)
      obtain f ords where y: "y = (f, ords)" by fastforce
      have h: "header_fault names seen (cells s) = None" "ords = order @ order_of names (cells s)"
        using header_column_known [OF less.prems(4,5), of order "trimmed s"] Inr by (auto simp: y cells order_of_def split: if_splits)
      have finish: "loopp ?step (None, f, ords) ?r = (Ok (f, ords), ?r)" by (rule loopp_done) (rule none)
      have "loopp ?step (Some p, found, order) r = (Ok (f, ords), ?r)"
        by (rule loopp_next [where y = "(None, f, ords)" and s' = ?r]) (use s Inr y finish in simp_all)
      then show ?thesis using out h by (intro exI [of _ "(lr_buffer r)(e := NUL)"] exI [of _ f]) simp
    qed
  next
    case (more k t)
    have str: "str_at (lr_buffer r) p (k @ COMMA # t)" and len: "p + length (k @ COMMA # t) < n"
      using less.prems(1,2) more(1) by simp_all
    define b1 where "b1 = (lr_buffer r)(p + length k := NUL)"
    note chop = chop_more [OF str more(2) len, folded b1_def]
    have "0 < p + length k" using less.prems(3) more(3) by auto
    then obtain b e where t: "trim p (p + length k) (r\<lparr>lr_buffer := b1\<rparr>) = (Ok (b, e), r\<lparr>lr_buffer := b1(e := NUL)\<rparr>)"
      "str_at (b1(e := NUL)) b (trimmed k)" "p \<le> e" "e \<le> p + length k" "b + length (trimmed k) \<le> p + length k"
      using trim_at [of "r\<lparr>lr_buffer := b1\<rparr>" p k] chop(2) by auto
    let ?r = "r\<lparr>lr_buffer := b1(e := NUL)\<rparr> :: 'z line_reader_scheme" and ?q = "p + length k + 1"
    have s: "?step (Some p, found, order) r =
        (case header_column ignore_missing_column names found order (trimmed k) of
           Inl x \<Rightarrow> (Throw x, ?r) | Inr (f, ords) \<Rightarrow> (Ok (Inl (Some ?q, f, ords)), ?r))"
      using column [OF chop(1) t(1,2,5)] len by simp
    have cells: "cells s = trimmed k # cells t" by (simp add: cells_def more(3))
    show ?thesis
    proof (cases "header_column ignore_missing_column names found order (trimmed k)")
      case (Inl x)
      then have "header_fault names seen (cells s) = Some x"
        using header_column_known [OF less.prems(4,5)] by (simp add: cells split: if_splits)
      moreover have "kept_outside (lr_buffer r) (b1(e := NUL)) p (p + length s)"
        using t(3,4) by (simp add: kept_outside_def b1_def more(1))
      ultimately show ?thesis using s Inl by (intro exI [of _ "b1(e := NUL)"]) (simp add: loopp_throw)
    next
      case (Inr y)
      obtain f ords where y: "y = (f, ords)" by fastforce
      have h: "trimmed k \<in> set names" "trimmed k \<notin> set seen" "f = map (\<lambda>x. x \<in> set (trimmed k # seen)) names"
          "ords = order @ [int (index_of (trimmed k) names)]"
        using header_column_known [OF less.prems(4,5), of order "trimmed k"] Inr by (auto simp: y split: if_splits)
      have st: "str_at (lr_buffer ?r) ?q t"
        using chop(3) t(4) str_at_cong [of ?q t "b1(e := NUL)" b1] by simp
      have "length t < length s" "?q + length t < n" using len by (simp_all add: more(1))
      from less.hyps [OF this(1) st this(2) _ less.prems(4) h(3), of ords] obtain buf found'
        where ih: "kept_outside (lr_buffer ?r) buf ?q (?q + length t)"
          "loopp ?step (Some ?q, f, ords) ?r = (case header_fault names (trimmed k # seen) (cells t) of Some e \<Rightarrow> Throw e
             | None \<Rightarrow> Ok (found', ords @ order_of names (cells t)), ?r\<lparr>lr_buffer := buf\<rparr>)"
        by auto
      have fault: "header_fault names seen (cells s) = header_fault names (trimmed k # seen) (cells t)"
        and ords: "ords @ order_of names (cells t) = order @ order_of names (cells s)"
        using h by (simp_all add: cells order_of_def)
      have "loopp ?step (Some p, found, order) r = (case header_fault names seen (cells s) of Some e \<Rightarrow> Throw e
          | None \<Rightarrow> Ok (found', order @ order_of names (cells s)), r\<lparr>lr_buffer := buf\<rparr>)"
        by (rule loopp_next [where y = "(Some ?q, f, ords)" and s' = ?r])
          (use s Inr y ih(2) fault ords in \<open>simp_all split: option.split\<close>)
      moreover have "kept_outside (lr_buffer r) buf p (p + length s)"
        using ih(1) t(3,4) by (auto simp: kept_outside_def b1_def more(1))
      ultimately show ?thesis by blast
    qed
  qed
qed

section \<open>One row\<close>

lemma place_length [simp]: "length (place cs qs row) = length row"
  by (induction cs qs row rule: place.induct) auto

lemma zip_None: "x \<notin> set cs \<Longrightarrow> map_of (zip cs qs) x = None"
  by (auto simp: map_of_eq_None_iff dest: set_zip_leftD)

lemma place_nth:
  assumes "distinct cs" and "length qs = length cs" and "\<forall>c \<in> set cs. 0 \<le> c" and "i < length row"
  shows "place cs qs row ! i = (case map_of (zip cs qs) (int i) of Some q \<Rightarrow> Some q | None \<Rightarrow> row ! i)"
  using assms
proof (induction cs qs row rule: place.induct)
  case (1 c cs q qs row)
  have "map_of (zip cs qs) (int i) = None" if "int i = c"
    using that 1(2) zip_None [of c cs qs] by simp
  then show ?case using 1 by (cases "int i = c") (auto simp: nth_list_update split: option.split dest: set_zip_leftD)
qed auto

lemma parse_helper_all:
  assumes "length row = length cols'" and "length cols = length cols'"
    and "\<forall>i < length cols'. (case row ! i of None \<Rightarrow> Some (cols ! i) | Some q \<Rightarrow> c_string n buf q) = Some (cols' ! i)"
  shows "parse_helper n buf row cols = Some cols'"
  using assms
proof (induction n buf row cols arbitrary: cols' rule: parse_helper.induct)
  case (1 n buf p row t cols)
  obtain x xs where s: "cols' = x # xs" using 1(2) by (cases cols') auto
  have first: "(case p of None \<Rightarrow> Some t | Some q \<Rightarrow> c_string n buf q) = Some x" using 1(4) [rule_format, of 0] s by (cases p) simp_all
  have "\<forall>i < length xs. (case row ! i of None \<Rightarrow> Some (cols ! i) | Some q \<Rightarrow> c_string n buf q) = Some (xs ! i)"
  proof (intro allI impI)
    fix i assume "i < length xs"
    then show "(case row ! i of None \<Rightarrow> Some (cols ! i) | Some q \<Rightarrow> c_string n buf q) = Some (xs ! i)"
      using 1(4) [rule_format, of "Suc i"] s by (cases "row ! i") simp_all
  qed
  then have "parse_helper n buf row cols = Some xs" using 1(1) first 1(2,3) s by simp
  then show ?case using first s by simp
qed auto

text \<open>What the reader is like between two rows: the columns are known, and the pointers and the variables of the
  columns that the header does not have are untouched.\<close>

definition between_rows :: "int list \<Rightarrow> 'z fast_csv_scheme \<Rightarrow> string list \<Rightarrow> bool" where
  "between_rows order r vars \<longleftrightarrow> fc_col_order r = order \<and> distinct order \<and> set order \<subseteq> {0, 1, 2} \<and>
     length (fc_row r) = 3 \<and> length vars = 3 \<and> (\<forall>i < 3. int i \<notin> set order \<longrightarrow> fc_row r ! i = None \<and> vars ! i = [])"

lemma row_of_order: "i < 3 \<Longrightarrow> int i \<notin> set order \<Longrightarrow> row_of order cs ! i = []"
proof -
  assume a: "i < 3" "int i \<notin> set order"
  have "map_of (zip order cs) (int i) = None" using a(2) by (rule zip_None)
  then show ?thesis using a(1) by (simp add: row_of_def)
qed

lemma cells_length [simp]: "length (cells l) = length (columns l)"
  by (simp add: cells_def)

lemma holds_row: "holds block (r\<lparr>fc_row := x\<rparr>) rest \<longleftrightarrow> holds block r rest"
  unfolding holds_def by simp

lemma read_row_run:
  fixes r :: "'z fast_csv_scheme"
  assumes "holds block r rest" and "rest \<noteq> []" and "0 < block" and "length (getline_head LF rest) < block"
    and "lr_data_begin r mod block = 0 \<longrightarrow> hd (columns (c_line (getline_head LF rest))) \<noteq> []" and "between_rows order r vars"
  shows "if length (cells (c_line (getline_head LF rest))) = length order
    then \<exists>v. csv_read_row block vars r = (Ok (Some (row_of order (cells (c_line (getline_head LF rest))))), v) \<and>
      holds block v (getline_rest LF rest) \<and> between_rows order v (row_of order (cells (c_line (getline_head LF rest)))) \<and>
      lr_file_line v = lr_file_line r + 1 \<and> lr_data_begin v = lr_data_begin r mod block + length (getline_head LF rest) + 1
    else fst (csv_read_row block vars r) =
      Throw (Io_error (if length (cells (c_line (getline_head LF rest))) < length order then ''too_few_columns'' else ''too_many_columns'')
        (sint (lr_file_line r + 1)))"
proof -
  let ?raw = "getline_head LF rest" and ?l = "c_line (getline_head LF rest)" and ?p = "lr_data_begin r mod block"
  note b = assms(6) [unfolded between_rows_def]
  from next_line_holds [OF assms(1-3), unfolded if_P [OF assms(4)]] obtain buf b e s d where
    n: "next_line block r = (Ok (Some ?p), r\<lparr>lr_file_line := lr_file_line r + 1, lr_source := s, lr_ended := d,
        lr_buffer := buf, lr_data_begin := b, lr_data_end := e\<rparr>)"
      "holds block (r\<lparr>lr_file_line := lr_file_line r + 1, lr_source := s, lr_ended := d,
        lr_buffer := buf, lr_data_begin := b, lr_data_end := e\<rparr>) (getline_rest LF rest)"
      "b = ?p + length ?raw + 1" "str_at buf ?p ?l" by blast
  let ?v = "r\<lparr>lr_file_line := lr_file_line r + 1, lr_source := s, lr_ended := d,
    lr_buffer := buf, lr_data_begin := b, lr_data_end := e\<rparr> :: 'z fast_csv_scheme"
  have p: "?p < block" using assms(3) by simp
  then have hi: "?p + length ?l < 3 * block" using c_line_length [of ?raw] assms(4) by linarith
  have edge: "0 < ?p \<or> hd (columns ?l) \<noteq> []" using assms(5) by auto
  have nonneg: "\<forall>c \<in> set order. 0 \<le> c" using b by auto
  note run = parse_line_run [of ?v ?p ?l "3 * block" order, simplified, OF n(4) hi edge [simplified] nonneg]
  show ?thesis
  proof (cases "length (columns ?l) = length order")
    case True
    then obtain buf' ps where i: "parse_line (3 * block) order (Some ?p) ?v = (Ok (), ?v\<lparr>lr_buffer := buf', fc_row := place order ps (fc_row r)\<rparr>)"
      "cells_in buf' ?p (?p + length ?l) ps (cells ?l)" "kept_outside buf buf' ?p (?p + length ?l)"
      using run by auto
    let ?w = "?v\<lparr>lr_buffer := buf', fc_row := place order ps (fc_row r)\<rparr> :: 'z fast_csv_scheme"
    have len: "length ps = length order" using i(2) True by (simp add: cells_in_def list_all2_lengthD)
    have cell: "c_string (3 * block) buf' (ps ! j) = Some (cells ?l ! j)" if "j < length order" for j
    proof (rule c_string_at)
      have "str_at buf' (ps ! j) (cells ?l ! j) \<and> ps ! j + length (cells ?l ! j) \<le> ?p + length ?l"
        using i(2) that True len by (simp add: cells_in_def list_all2_conv_all_nth)
      then show "str_at buf' (ps ! j) (cells ?l ! j)" "ps ! j + length (cells ?l ! j) < 3 * block" using hi by auto
    qed
    have value_at: "(case place order ps (fc_row r) ! k of None \<Rightarrow> Some (vars ! k) | Some q \<Rightarrow> c_string (3 * block) buf' q) = Some (row_of order (cells ?l) ! k)"
      if k: "k < 3" for k
    proof (cases "int k \<in> set order")
      case True
      then obtain j where j: "j < length order" "order ! j = int k" by (metis in_set_conv_nth)
      have "map_of (zip order ps) (int k) = Some (ps ! j)" "map_of (zip order (cells ?l)) (int k) = Some (cells ?l ! j)"
        using j b len \<open>length (columns ?l) = length order\<close> by (auto intro!: map_of_is_SomeI simp: in_set_zip)
      then show ?thesis using k b len nonneg cell [OF j(1)] by (simp add: place_nth row_of_def)
    next
      case False
      then have "map_of (zip order ps) (int k) = None" by (rule zip_None)
      then show ?thesis using k b len nonneg False row_of_order [OF k False] by (simp add: place_nth zip_None)
    qed
    have "parse_helper (3 * block) buf' (place order ps (fc_row r)) vars = Some (row_of order (cells ?l))"
      by (rule parse_helper_all) (use b value_at in \<open>simp_all add: row_of_def\<close>)
    then have "csv_read_row block vars r = (Ok (Some (row_of order (cells ?l))), ?w)"
      using n(1) i(1) b by (simp add: csv_read_row_def catchp_def bindp_Ok seqp_Ok)
    moreover have "holds block ?w (getline_rest LF rest)"
    proof -
      have "holds block (?v\<lparr>lr_buffer := buf'\<rparr>) (getline_rest LF rest)"
      proof (subst holds_cong)
        fix k assume "lr_data_begin ?v \<le> k"
        then have "?p + length ?l < k" using n(3) c_line_length [of ?raw] by simp
        then show "buf' k = lr_buffer ?v k" using i(3) by (simp add: kept_outside_def)
      qed (rule n(2))
      then show ?thesis by (simp add: holds_row)
    qed
    moreover have "between_rows order ?w (row_of order (cells ?l))"
    proof -
      have "place order ps (fc_row r) ! k = None" if "k < 3" "int k \<notin> set order" for k
      proof -
        have "map_of (zip order ps) (int k) = None" using that(2) by (rule zip_None)
        then show ?thesis using that b len nonneg by (simp add: place_nth zip_None)
      qed
      then show ?thesis using b row_of_order by (simp add: between_rows_def) (simp add: row_of_def)
    qed
    moreover have "lr_file_line ?w = lr_file_line r + 1" "lr_data_begin ?w = ?p + length ?raw + 1" using n(3) by simp_all
    ultimately show ?thesis using True by auto
  next
    case False
    then obtain u where "parse_line (3 * block) order (Some ?p) ?v =
        (Throw (Io_error (if length (columns ?l) < length order then ''too_few_columns'' else ''too_many_columns'') (- 1)), u)"
      "lr_file_line u = lr_file_line r + 1"
      using run by (cases "length (columns ?l) < length order") auto
    then have "fst (csv_read_row block vars r) = Throw (Io_error (if length (columns ?l) < length order then ''too_few_columns'' else ''too_many_columns'')
        (sint (lr_file_line r + 1)))"
      using n(1) b by (simp add: csv_read_row_def catchp_def bindp_Ok seqp_Throw bindp_Throw)
    then show ?thesis using False by simp
  qed
qed

section \<open>The whole file\<close>

lemma read_row_end:
  assumes "holds block r []"
  shows "csv_read_row block vars r = (Ok None, r)"
  using next_line_end [OF assms] by (simp add: csv_read_row_def catchp_def bindp_Ok)

lemma rows_run:
  fixes r :: "'z fast_csv_scheme"
  assumes "holds block r rest" and "0 < block" and "between_rows order r vars" and "lr_file_line r = of_nat k"
    and "\<forall>l \<in> set (getlines LF rest). length l < block" and "edges_ok block off (getlines LF rest)"
    and "lr_data_begin r mod block = off mod block"
  shows "fst (loopp (row_loop_step block) (vars, acc) r) = rows_spec order k (map c_line (getlines LF rest)) acc"
  using assms
proof (induction "length rest" arbitrary: rest r k vars acc off rule: less_induct)
  case less
  show ?case
  proof (cases "rest = []")
    case True
    then have "row_loop_step block (vars, acc) r = (Ok (Inr acc), r)"
      using read_row_end [of block r vars] less.prems(1) by (simp add: row_loop_step_def bindp_Ok)
    then show ?thesis using True by (simp add: loopp_done)
  next
    case False
    let ?raw = "getline_head LF rest" and ?l = "c_line (getline_head LF rest)"
    have lines: "getlines LF rest = ?raw # getlines LF (getline_rest LF rest)"
      using False by (subst getlines.simps) simp
    have short: "length ?raw < block" using less.prems(5) by (simp add: lines)
    have edge: "lr_data_begin r mod block = 0 \<longrightarrow> hd (columns ?l) \<noteq> []"
      using less.prems(6,7) by (simp add: lines)
    have number: "sint (lr_file_line r + 1) = line_number (Suc k)" by (simp add: less.prems(4) line_number_def add.commute)
    note row = read_row_run [OF less.prems(1) False less.prems(2) short edge less.prems(3)]
    show ?thesis
    proof (cases "length (cells ?l) = length order")
      case True
      from row [unfolded if_P [OF True]] obtain v where
        v: "csv_read_row block vars r = (Ok (Some (row_of order (cells ?l))), v)" "holds block v (getline_rest LF rest)"
          "between_rows order v (row_of order (cells ?l))" "lr_file_line v = lr_file_line r + 1"
          "lr_data_begin v = lr_data_begin r mod block + length ?raw + 1" by blast
      have s: "row_loop_step block (vars, acc) r = (Ok (Inl (row_of order (cells ?l), acc @ [row_of order (cells ?l)])), v)"
        using v(1) by (simp add: row_loop_step_def bindp_Ok)
      have "length (getline_rest LF rest) < length rest"
        using False length_dropWhile_le [of "\<lambda>c. c \<noteq> LF" rest] by (cases rest) (auto simp: getline_rest_def)
      moreover have "lr_file_line v = of_nat (Suc k)" using less.prems(4) v(4) by simp
      moreover have "\<forall>l \<in> set (getlines LF (getline_rest LF rest)). length l < block" using less.prems(5) by (simp add: lines)
      moreover have "edges_ok block (off + length ?raw + 1) (getlines LF (getline_rest LF rest))" using less.prems(6) by (simp add: lines)
      moreover have "lr_data_begin v mod block = (off + length ?raw + 1) mod block"
        unfolding v(5) less.prems(7) by (metis add.assoc mod_add_left_eq)
      ultimately have ih: "fst (loopp (row_loop_step block) (row_of order (cells ?l), acc @ [row_of order (cells ?l)]) v) =
          rows_spec order (Suc k) (map c_line (getlines LF (getline_rest LF rest))) (acc @ [row_of order (cells ?l)])"
        using less.hyps v(2,3) less.prems(2) by blast
      obtain x v' where x: "loopp (row_loop_step block) (row_of order (cells ?l), acc @ [row_of order (cells ?l)]) v = (x, v')" by fastforce
      have "rows_spec order n ls a \<noteq> Hang" for n ls a by (induction order n ls a rule: rows_spec.induct) auto
      then have x_ok: "x \<noteq> Hang" using ih x by (metis fst_conv)
      have "loopp (row_loop_step block) (vars, acc) r = (x, v')"
        by (rule loopp_next [where y = "(row_of order (cells ?l), acc @ [row_of order (cells ?l)])" and s' = v]) (rule s, rule x, rule x_ok)
      then show ?thesis using ih x True by (simp add: lines)
    next
      case False
      then obtain v where "csv_read_row block vars r = (Throw (Io_error (if length (cells ?l) < length order then ''too_few_columns''
          else ''too_many_columns'') (line_number (Suc k))), v)"
        using row number by (cases "csv_read_row block vars r") simp
      then have "row_loop_step block (vars, acc) r = (Throw (Io_error (if length (cells ?l) < length order then ''too_few_columns''
          else ''too_many_columns'') (line_number (Suc k))), v)"
        by (simp add: row_loop_step_def bindp_Throw)
      then show ?thesis using False by (simp add: loopp_throw lines)
    qed
  qed
qed

lemma init_csv:
  assumes "2 \<le> block" and "ends_well block heap text"
  shows "holds block (csv_reader_init 3 block heap text) (without_bom text)"
    and "lr_data_begin (csv_reader_init 3 block heap text) = length text - length (without_bom text)"
    and "lr_file_line (csv_reader_init 3 block heap text) = 0"
    and "fc_row (csv_reader_init 3 block heap text) = [None, None, None]"
proof -
  have e: "holds block (line_reader.extend r x) rest \<longleftrightarrow> holds block r rest" "lr_data_begin (line_reader.extend r x) = lr_data_begin r"
    "lr_file_line (line_reader.extend r x) = lr_file_line r" for r :: line_reader and x :: "'w" and rest
    by (cases r, simp add: holds_def line_reader.defs)+
  show "holds block (csv_reader_init 3 block heap text) (without_bom text)"
    "lr_data_begin (csv_reader_init 3 block heap text) = length text - length (without_bom text)"
    using init_holds [OF assms] by (simp_all add: csv_reader_init_def e)
  show "lr_file_line (csv_reader_init 3 block heap text) = 0"
    unfolding csv_reader_init_def e by (simp add: line_reader_init_def Let_def)
  show "fc_row (csv_reader_init 3 block heap text) = [None, None, None]"
    by (simp add: csv_reader_init_def line_reader.defs fast_csv.defs numeral_3_eq_3)
qed

lemma header_fault_None:
  "header_fault names seen cs = None \<Longrightarrow> set cs \<subseteq> set names \<and> distinct cs \<and> set cs \<inter> set seen = {}"
  by (induction names seen cs rule: header_fault.induct) (auto split: if_splits)

lemma index_of_inject: "c \<in> set names \<Longrightarrow> index_of c names = index_of d names \<longleftrightarrow> c = d"
  using index_of_nth [of c names] index_of_nth [of d names] index_of_less [of c names] index_of_less [of d names] by metis

lemma order_of_facts:
  assumes "set cs \<subseteq> set names" and "distinct cs"
  shows "distinct (order_of names cs)" and "set (order_of names cs) \<subseteq> int ` {..<length names}"
    and "int (index_of c names) \<in> set (order_of names cs) \<longleftrightarrow> c \<in> set cs"
proof -
  have "inj_on (\<lambda>c. int (index_of c names)) (set cs)"
    using assms(1) index_of_inject by (auto intro!: inj_onI)
  then show "distinct (order_of names cs)" using assms(2) by (simp add: order_of_def distinct_map)
  show "set (order_of names cs) \<subseteq> int ` {..<length names}"
    using assms(1) index_of_less by (auto simp: order_of_def)
  show "int (index_of c names) \<in> set (order_of names cs) \<longleftrightarrow> c \<in> set cs"
    using assms(1) by (auto simp: order_of_def) (metis index_of_inject subsetD)
qed

lemma csv_file_table_run:
  assumes "2 \<le> block" and "ends_well block heap text" and "lines = getlines LF (without_bom text)"
    and "\<forall>l \<in> set lines. length l < block" and "edges_ok block (length text - length (without_bom text)) lines"
  shows "csv_file_table block heap text = csv_spec text"
proof -
  let ?names = URL_ADD_CSV_FIELDS
  define r :: fast_csv where "r = (csv_reader_init 3 block heap text)\<lparr>fc_column_names := ?names\<rparr>"
  note i = init_csv [OF assms(1,2)]
  have "holds block r (without_bom text) \<longleftrightarrow> holds block (csv_reader_init 3 block heap text) (without_bom text)"
    unfolding holds_def r_def by simp
  then have h: "holds block r (without_bom text)" using i(1) by simp
  have f: "lr_file_line r = 0" "fc_row r = [None, None, None]" "fc_column_names r = ?names"
    "lr_data_begin r = length text - length (without_bom text)" by (simp_all add: r_def i)
  have pos: "0 < block" using assms(1) by simp
  have read: "read_header block ignore_missing_column ?names (csv_reader_init 3 block heap text) =
      bindp (next_line block) (\<lambda>line. case line of None \<Rightarrow> raise (Io_error ''header_missing'' (- 1))
        | Some line \<Rightarrow> parse_header_line (3 * block) ignore_missing_column line) r"
    by (simp add: read_header_def r_def)
  show ?thesis
  proof (cases "without_bom text = []")
    case True
    then have "next_line block r = (Ok None, r)" using h by (simp add: next_line_end)
    then show ?thesis by (simp add: csv_file_table_def read bindp_Ok csv_spec_def csv_lines_def True)
  next
    case False
    let ?rest = "without_bom text"
    let ?raw = "getline_head LF ?rest" and ?l = "c_line (getline_head LF ?rest)" and ?p = "lr_data_begin r mod block"
    have lines: "lines = ?raw # getlines LF (getline_rest LF ?rest)"
      using False unfolding assms(3) by (subst getlines.simps) simp
    have short: "length ?raw < block" using assms(4) by (simp add: lines)
    from next_line_holds [OF h False pos, unfolded if_P [OF short]] obtain buf b e s d where
      n: "next_line block r = (Ok (Some ?p), r\<lparr>lr_file_line := lr_file_line r + 1, lr_source := s, lr_ended := d,
          lr_buffer := buf, lr_data_begin := b, lr_data_end := e\<rparr>)"
        "holds block (r\<lparr>lr_file_line := lr_file_line r + 1, lr_source := s, lr_ended := d,
          lr_buffer := buf, lr_data_begin := b, lr_data_end := e\<rparr>) (getline_rest LF ?rest)"
        "b = ?p + length ?raw + 1" "str_at buf ?p ?l" by blast
    let ?v = "r\<lparr>lr_file_line := lr_file_line r + 1, lr_source := s, lr_ended := d,
      lr_buffer := buf, lr_data_begin := b, lr_data_end := e\<rparr> :: fast_csv"
    have "?p < block" using pos by simp
    then have hi: "?p + length ?l < 3 * block" using c_line_length [of ?raw] short by linarith
    have edge: "0 < ?p \<or> hd (columns ?l) \<noteq> []" using assms(5) by (auto simp: lines f(4))
    have "distinct ?names" by (simp add: URL_ADD_CSV_FIELDS_def)
    moreover have "str_at (lr_buffer ?v) ?p ?l" using n(4) by simp
    moreover have "replicate (length ?names) False = map (\<lambda>x. x \<in> set []) ?names" by (simp add: map_replicate_const)
    ultimately obtain buf' found' where hd: "kept_outside (lr_buffer ?v) buf' ?p (?p + length ?l)"
      "loopp (header_step (3 * block) ignore_missing_column ?names) (Some ?p, replicate (length ?names) False, []) ?v =
        (case header_fault ?names [] (cells ?l) of Some e \<Rightarrow> Throw e | None \<Rightarrow> Ok (found', [] @ order_of ?names (cells ?l)),
         ?v\<lparr>lr_buffer := buf'\<rparr>)"
      using header_run [of ?v ?p ?l "3 * block" ?names "replicate (length ?names) False" "[]" "[]"] hi edge by blast
    show ?thesis
    proof (cases "header_fault ?names [] (cells ?l)")
      case (Some x)
      then have "read_header block ignore_missing_column ?names (csv_reader_init 3 block heap text) = (Throw x, ?v\<lparr>lr_buffer := buf'\<rparr>)"
        using hd(2) n(1) f(3) by (simp add: read bindp_Ok bindp_Throw parse_header_line_def)
      then show ?thesis using Some lines by (simp add: csv_file_table_def csv_spec_def csv_lines_def assms(3))
    next
      case None
      let ?order = "order_of ?names (cells ?l)"
      let ?w = "?v\<lparr>lr_buffer := buf', fc_col_order := ?order\<rparr> :: fast_csv"
      have "ignore_missing_column \<noteq> 0" by (simp add: ignore_missing_column_def)
      then have run: "read_header block ignore_missing_column ?names (csv_reader_init 3 block heap text) = (Ok (), ?w)"
        using hd(2) n(1) f(3) None by (simp add: read bindp_Ok parse_header_line_def)
      have known: "set (cells ?l) \<subseteq> set ?names" "distinct (cells ?l)" using header_fault_None [OF None] by auto
      note o = order_of_facts [OF known]
      have has: "csv_has_column c ?w \<longleftrightarrow> c \<in> set (cells ?l)" for c using o(3) by (simp add: csv_has_column_def f(3))
      have "length ?names = 3" by (simp add: URL_ADD_CSV_FIELDS_def)
      then have "set ?order \<subseteq> {0, 1, 2}" using o(2) by (auto simp: lessThan_Suc numeral_3_eq_3)
      then have between: "between_rows ?order ?w [[], [], []]"
        using o(1) f(2) by (simp add: between_rows_def All_less_Suc numeral_3_eq_3)
      have "holds block ?w (getline_rest LF ?rest) \<longleftrightarrow> holds block (?v\<lparr>lr_buffer := buf'\<rparr>) (getline_rest LF ?rest)"
        unfolding holds_def by simp
      moreover have "holds block (?v\<lparr>lr_buffer := buf'\<rparr>) (getline_rest LF ?rest)"
      proof (subst holds_cong)
        fix k assume "lr_data_begin ?v \<le> k"
        then have "?p + length ?l < k" using n(3) c_line_length [of ?raw] by simp
        then show "buf' k = lr_buffer ?v k" using hd(1) by (simp add: kept_outside_def)
      qed (rule n(2))
      ultimately have hw: "holds block ?w (getline_rest LF ?rest)" by simp
      have mod: "lr_data_begin ?w mod block = (lr_data_begin r + length ?raw + 1) mod block" using n(3) by simp (metis add_Suc mod_Suc_eq mod_add_left_eq)
      have "fst (loopp (row_loop_step block) ([[], [], []], []) ?w) = rows_spec ?order 1 (map c_line (getlines LF (getline_rest LF ?rest))) []"
        by (rule rows_run [OF hw pos between _ _ _ mod]) (use f assms(4,5) lines in \<open>simp_all add: f(4)\<close>)
      moreover define w where "w = ?w"
      ultimately have "read_header block ignore_missing_column ?names (csv_reader_init 3 block heap text) = (Ok (), w)"
        "\<And>c. csv_has_column c w \<longleftrightarrow> c \<in> set (cells ?l)"
        "fst (loopp (row_loop_step block) ([[], [], []], []) w) = rows_spec ?order 1 (map c_line (getlines LF (getline_rest LF ?rest))) []"
        using run has by simp_all
      then show ?thesis using None lines by (simp add: csv_file_table_def csv_spec_def csv_lines_def assms(3))
    qed
  qed
qed

end
