(* ===== verification/Add_Url_Properties.thy ===== *)
theory Add_Url_Properties
  imports Add_Url Window_Properties Fast_Csv_Table
begin

text \<open>
  The import of a list of addresses end to end: the dialogue, the header requests, the slot of the window
  and the history.
\<close>

section \<open>One row\<close>

lemma digits_clean: "\<forall>c \<in> set s. is_digit c \<Longrightarrow> s \<noteq> [] \<Longrightarrow> clean_field s \<and> UNDERSCORE \<notin> set s"
  by (auto simp: clean_field_def is_digit_def)

lemma created_id:
  assumes "createId (of_nat UNIQUE_ID_DIGIT_COUNT) w = (Ok i, w0)"
  obtains n where "w0 = w\<lparr>w_drawn := n\<rparr>" and "clean_field i" and "UNDERSCORE \<notin> set i" and "length i = 31"
proof -
  obtain s n where s: "createId (of_nat UNIQUE_ID_DIGIT_COUNT) w = (Ok s, w\<lparr>w_drawn := n\<rparr>)" "length s = 31"
    "\<forall>c \<in> set s. is_digit c"
    using createId_digits by blast
  have "s \<noteq> []" using s(2) by auto
  with digits_clean [OF s(3)] s(1,2) assms that show ?thesis by auto
qed

lemma drawn_frame:
  "same_store w (w\<lparr>w_drawn := n\<rparr>)" "g_cache (w\<lparr>w_drawn := n\<rparr>) = g_cache w" "g_model (w\<lparr>w_drawn := n\<rparr>) = g_model w"
  "w_boxes (w\<lparr>w_drawn := n\<rparr>) = w_boxes w" "g_lib (w\<lparr>w_drawn := n\<rparr>) = g_lib w"
  by (simp_all add: same_store_def)

lemma import_row_reachable:
  assumes "history w es" and "healthy w" and "fair_order w" and "\<not> w_held w R_curl" and "\<not> w_held w W_curl"
    and "verifyFileExists (gl_easy_ok (g_lib w)) (gl_network (g_lib w)) u = Inr a" and "ci_response_code a = 200"
    and "curlGrabInfo (gl_easy_ok (g_lib w)) (gl_network (g_lib w)) u = Inr info"
    and "dir \<noteq> []" and "p = dir @ CHR ''/'' # gl_file_name (g_lib w) (ce_effective_url info)"
    and "clean_field p" and "p \<notin> \<Union> (set ` set (dv_rows (g_model w)))"
    and "createId (of_nat UNIQUE_ID_DIGIT_COUNT) w = (Ok i, w0)" and "i \<notin> fst ` set es"
    and "i \<notin> di_unique_id ` set (g_cache w)" and "ce_status_ok info" and "fits64 (w_now w)"
    and "fits64 (ce_response_code info)" and "ce_content_length info = Finite (of_int n)" and "\<bar>n\<bar> < 2 ^ 53"
  shows "\<exists>w' row. import_row dir False (u, x, h) before w = (Ok (Inl (ce_effective_url info, p)), w') \<and>
    history w' (es @ [(i, p, False)]) \<and> dv_rows (g_model w') = row # dv_rows (g_model w) \<and> p \<in> set row \<and>
    map di_unique_id (g_cache w') = map di_unique_id (g_cache w) @ [i] \<and> w_boxes w' = w_boxes w \<and> g_lib w' = g_lib w"
proof -
  obtain k where w0: "w0 = w\<lparr>w_drawn := k\<rparr>" and c: "clean_field i" "UNDERSCORE \<notin> set i" "length i = 31"
    by (rule created_id [OF assms(13)])
  note d = same_storeD [OF drawn_frame(1) [of w k], folded w0] drawn_frame(2-5) [of k w, folded w0]
  obtain ht hv where t: "(if h \<noteq> [] then (CannotDetermine, h) else (HashNone, [])) = (ht, hv)" by fastforce
  let ?e = "ce_effective_url info"
  have v: "valid_entry (i, p, False)" using c assms(11) by (simp add: valid_entry_def)
  have h0: "history w0 es" "healthy w0" "fair_order w0" "\<not> w_held w0 R_curl" "\<not> w_held w0 W_curl" "is_http HTTP"
    "i \<notin> di_unique_id ` set (g_cache w0)" "p \<notin> \<Union> (set ` set (dv_rows (g_model w0)))" "fits64 (w_now w0)"
    using assms(1-5,12,15,17) d by (simp_all add: is_http_def)
  have st: "Stopped \<in> {Stopped, Invalid, Unknown}" by simp
  note run = sendDetails_stores [OF h0(1-6) assms(16) st v c(2) assms(14) h0(7-9) assms(18-20),
      of ?e 0 "Finite 0" 0 0 ?e ht hv "[]"]
  then obtain w' where w': "sendDetails ?e (ce_content_length info) 0 (Finite 0) 0 0 Stopped ?e p ht hv
      (ce_response_code info) (ce_status_ok info) [] i HTTP w0 = (Ok (), w')" "history w' (es @ [(i, p, False)])"
    "dv_rows (g_model w') = map snd (row_texts (g_lib w0) ?e (ce_content_length info) 0 (Finite 0) 0 0 Stopped ?e p i) #
       dv_rows (g_model w0)"
    "g_cache w' = g_cache w0 @ [new_download_info i p HTTP (g_garbage_status w0) (h_garbage_double w0)]"
    "w_boxes w' = w_boxes w0" "g_lib w' = g_lib w0" by blast
  have "import_row dir False (u, x, h) before w = (Ok (Inl (?e, p)), w')"
    using w'(1) assms(6-10,13) t by (cases before) (simp add: import_row_def bindp_Ok seqp_Ok del: fst_conv)
  moreover have "di_unique_id (new_download_info i p HTTP s l) = i" for s l by (simp add: new_download_info_def)
  ultimately show ?thesis
    using w'(2-6) d by (intro exI [of _ w'] exI) (auto simp: row_texts_def)
qed

text \<open>An address that does not answer is sent with the destination of the last one that did, which is in
  the table already.\<close>

lemma import_row_unreachable:
  assumes "verifyFileExists (gl_easy_ok (g_lib w)) (gl_network (g_lib w)) u = Inr a" and "ci_response_code a \<noteq> 200"
    and "dir \<noteq> []" and "dir @ CHR ''/'' # gl_file_name (g_lib w) last_url \<in> \<Union> (set ` set (dv_rows (g_model w)))"
  shows "\<exists>k. import_row dir has_dest (u, x, h) (last_url, last_loc) w =
    (Ok (Inl (last_url, dir @ CHR ''/'' # gl_file_name (g_lib w) last_url)),
     w\<lparr>w_drawn := k, w_boxes := w_boxes w @ [Information ''There has been an attempt at a duplicate entry!'']\<rparr>)"
proof -
  obtain s k where c: "createId (of_nat UNIQUE_ID_DIGIT_COUNT) w = (Ok s, w\<lparr>w_drawn := k\<rparr>)" using createId_digits by blast
  obtain ht hv where t: "(if h \<noteq> [] then (CannotDetermine, h) else (HashNone, [])) = (ht, hv)" by fastforce
  show ?thesis
    using assms c t
    by (intro exI [of _ k]) (simp add: import_row_def bindp_Ok seqp_Ok sendDetails_def getList_def is_http_def Let_def)
qed

section \<open>A list of two addresses\<close>

text \<open>C30: A list imported without a destination column: the first address answers and becomes a download; the
  second does not, and is sent with the destination of the first, since \<open>info_ext\<close> still holds its data.
  The window takes it for a duplicate: a message, and the address is in neither the table nor the history.\<close>

theorem import_unreachable_dropped:
  assumes "history w es" and "healthy w" and "fair_order w" and "\<not> w_held w R_curl" and "\<not> w_held w W_curl"
    and "ud_tab dlg \<noteq> 0" and "ud_file_import dlg \<noteq> []" and "fd_exists (h_disk w (ud_file_import dlg))"
    and "\<not> fd_is_directory (h_disk w (ud_file_import dlg))" and "il_extension lib (ud_file_import dlg) \<noteq> ''.torrent''"
    and "fd_opens (h_disk w (ud_file_import dlg)) \<and>
      csv_file_table block_len (il_heap lib) (fd_bytes (h_disk w (ud_file_import dlg))) =
        Ok \<lparr>ct_has_url = True, ct_has_dest = False, ct_has_hash = hash, ct_rows = Ok [[good, xa, ha], [bad, xb, hb]]\<rparr>"
    and "verifyFileExists (gl_easy_ok (g_lib w)) (gl_network (g_lib w)) good = Inr oka" and "ci_response_code oka = 200"
    and "curlGrabInfo (gl_easy_ok (g_lib w)) (gl_network (g_lib w)) good = Inr info"
    and "verifyFileExists (gl_easy_ok (g_lib w)) (gl_network (g_lib w)) bad = Inr oknot" and "ci_response_code oknot \<noteq> 200"
    and "ud_file_dest dlg \<noteq> []" and "p = ud_file_dest dlg @ CHR ''/'' # gl_file_name (g_lib w) (ce_effective_url info)"
    and "clean_field p" and "p \<notin> \<Union> (set ` set (dv_rows (g_model w)))"
    and "createId (of_nat UNIQUE_ID_DIGIT_COUNT) w = (Ok i, wi)" and "i \<notin> fst ` set es"
    and "i \<notin> di_unique_id ` set (g_cache w)" and "ce_status_ok info" and "fits64 (w_now w)"
    and "fits64 (ce_response_code info)" and "ce_content_length info = Finite (of_int n)" and "\<bar>n\<bar> < 2 ^ 53"
  shows "\<exists>w'. on_buttonBox_accepted lib dlg w = (Ok Accepted, w') \<and> history w' (es @ [(i, p, False)]) \<and>
    length (dv_rows (g_model w')) = Suc (length (dv_rows (g_model w))) \<and>
    map di_unique_id (g_cache w') = map di_unique_id (g_cache w) @ [i] \<and>
    w_boxes w' = w_boxes w @ [Information ''There has been an attempt at a duplicate entry!'']"
proof -
  let ?ha = "if hash then ha else []" and ?hb = "if hash then hb else []"
  obtain w1 row where w1: "import_row (ud_file_dest dlg) False (good, xa, ?ha) ([], []) w = (Ok (Inl (ce_effective_url info, p)), w1)"
    "history w1 (es @ [(i, p, False)])" "dv_rows (g_model w1) = row # dv_rows (g_model w)" "p \<in> set row"
    "map di_unique_id (g_cache w1) = map di_unique_id (g_cache w) @ [i]" "w_boxes w1 = w_boxes w" "g_lib w1 = g_lib w"
    using import_row_reachable [OF assms(1-5,12-14,17-28)] by blast
  obtain k where w2: "import_row (ud_file_dest dlg) False (bad, xb, ?hb) (ce_effective_url info, p) w1 = (Ok (Inl (ce_effective_url info, p)),
      w1\<lparr>w_drawn := k, w_boxes := w_boxes w1 @ [Information ''There has been an attempt at a duplicate entry!'']\<rparr>)"
    using import_row_unreachable [of w1 bad oknot "ud_file_dest dlg" "ce_effective_url info" False xb ?hb p]
      assms(15-18) w1(3,4,7) by auto
  define w3 where "w3 = w1\<lparr>w_drawn := k, w_boxes := w_boxes w1 @ [Information ''There has been an attempt at a duplicate entry!'']\<rparr>"
  have "same_store w1 w3" by (simp add: w3_def same_store_def)
  note d = same_storeD [OF this]
  have "import_csv lib dlg w = (Ok Accepted, w3)"
    using assms(11,17) w1(1) w2 by (cases hash) (simp_all add: import_csv_def outcomep_def bindp_Ok w3_def)
  then have "on_buttonBox_accepted lib dlg w = (Ok Accepted, w3)"
    using assms(6-10) by (simp add: on_buttonBox_accepted_def accept_import_def with_warning_Ok)
  with w1 d show ?thesis by (intro exI [of _ w3]) (simp add: w3_def)
qed

text \<open>A network in which only one address answers.\<close>

definition half_library :: gui_library where
  "half_library = sample_library\<lparr>gl_network := (\<lambda>opts. \<lparr>ea_init_ok = True, ea_curl_res = 0, ea_error = [],
     ea_response_code = (if Opt_url ''good'' \<in> set opts then 200 else 404), ea_total_time = Finite 1,
     ea_effective_url = ''disc.iso'', ea_content_length = Finite 2048\<rparr>)\<rparr>"

definition half_window :: gui where
  "half_window = (sample_gui (fresh_world 7) [] [] [])\<lparr>g_lib := half_library,
     h_disk := (\<lambda>_. \<lparr>fd_exists = True, fd_is_directory = False, fd_opens = True,
       fd_bytes = ''url'' @ [LF] @ ''good'' @ [LF] @ ''bad'' @ [LF]\<rparr>)\<rparr>"

definition half_import :: import_library where
  "half_import = \<lparr>il_valid_url = (\<lambda>_. True), il_extension = (\<lambda>_. ''.csv''), il_stem = (\<lambda>s. s),
     il_heap = (\<lambda>_. NUL),
     il_c_file = (\<lambda>_. \<lparr>cf_opens = False, cf_seeks_end = False, cf_tell = 0, cf_seeks_start = False, cf_fread = 0, cf_data = []\<rparr>),
     il_decode = (\<lambda>_. Not_bencoded), il_item_limit = 0\<rparr>"

definition half_dialog :: url_dialog where
  "half_dialog = \<lparr>ud_tab = 1, ud_url_dest = [], ud_url_text = [], ud_url_type = [], ud_hash_text = [], ud_hash_type = [],
     ud_file_import = ''list.csv'', ud_file_dest = ''/tmp''\<rparr>"

lemma half_facts:
  "history half_window []" "healthy half_window" "fair_order half_window" "\<not> w_held half_window m"
  "w_now half_window = 7" "g_lib half_window = half_library" "g_cache half_window = []" "w_boxes half_window = []"
  "dv_rows (g_model half_window) = []" "fd_exists (h_disk half_window f)" "\<not> fd_is_directory (h_disk half_window f)"
proof -
  have "same_store (fresh_world 7) half_window" by (simp add: half_window_def same_store_def sample_gui_def)
  note same_storeD [OF this]
  then show "history half_window []" "healthy half_window" "fair_order half_window" "\<not> w_held half_window m"
    "w_now half_window = 7"
    using sample_facts(1) by simp_all
qed (simp_all add: half_window_def)

lemma half_file:
  "fd_opens (h_disk half_window f) \<and> csv_file_table block_len (\<lambda>_. NUL) (fd_bytes (h_disk half_window f)) =
     Ok \<lparr>ct_has_url = True, ct_has_dest = False, ct_has_hash = False, ct_rows = Ok [[''good'', [], []], [''bad'', [], []]]\<rparr>"
proof -
  let ?text = "''url'' @ [LF] @ ''good'' @ [LF] @ ''bad'' @ [LF]"
  have b: "without_bom ?text = ?text" by (simp add: without_bom_def BOM_def)
  have l: "[''url'', ''good'', ''bad''] = getlines LF (without_bom ?text)"
    unfolding b by (simp add: getlines.simps getline_head_def getline_rest_def)
  have c: "c_line ''url'' = ''url''" "c_line ''good'' = ''good''" "c_line ''bad'' = ''bad''" by (simp_all add: c_line_def)
  have e: "cells ''url'' = [''url'']" "cells ''good'' = [''good'']" "cells ''bad'' = [''bad'']"
    by (simp_all add: cells_def trimmed_def is_trim_char_def)
  have "csv_file_table block_len (\<lambda>_. NUL) ?text = csv_spec ?text"
  proof (rule csv_file_table_run [OF _ _ l])
    show "edges_ok block_len (length ?text - length (without_bom ?text)) [''url'', ''good'', ''bad'']"
      unfolding b by (simp add: c)
  qed (simp_all add: block_len_def ends_well_def)
  also have "\<dots> = Ok \<lparr>ct_has_url = True, ct_has_dest = False, ct_has_hash = False,
      ct_rows = Ok [[''good'', [], []], [''bad'', [], []]]\<rparr>"
    unfolding csv_spec_def csv_lines_def l [symmetric]
    by (simp add: c e URL_ADD_CSV_FIELDS_def order_of_def index_of_def row_of_def upt_rec)
  finally show ?thesis by (simp add: half_window_def)
qed

theorem import_unreachable_dropped_witness:
  "\<exists>i w'. on_buttonBox_accepted half_import half_dialog half_window = (Ok Accepted, w') \<and>
     history w' [(i, ''/tmp/disc.iso'', False)] \<and> length (dv_rows (g_model w')) = 1 \<and>
     w_boxes w' = [Information ''There has been an attempt at a duplicate entry!'']"
proof -
  obtain i k where i: "createId (of_nat UNIQUE_ID_DIGIT_COUNT) half_window = (Ok i, half_window\<lparr>w_drawn := k\<rparr>)"
    using createId_digits by blast
  let ?info = "\<lparr>ce_status_ok = True, ce_status_msg = [], ce_response_code = 200, ce_elapsed = Finite 1,
    ce_effective_url = ''disc.iso'', ce_content_length = Finite 2048\<rparr>"
  have g: "curlGrabInfo (gl_easy_ok half_library) (gl_network half_library) ''good'' = Inr ?info"
    by (simp add: curlGrabInfo_def new_easy_handle_def half_library_def sample_library_def CURLE_OK_def)
  have v: "verifyFileExists (gl_easy_ok half_library) (gl_network half_library) u =
      Inr \<lparr>ci_response_code = (if u = ''good'' then 200 else 404), ci_effective_url = ''disc.iso''\<rparr>" for u
    by (simp add: verifyFileExists_def new_easy_handle_def half_library_def sample_library_def CURLE_OK_def)
  have f: "gl_file_name half_library u = u" for u by (simp add: half_library_def sample_library_def)
  have "\<exists>w'. on_buttonBox_accepted half_import half_dialog half_window = (Ok Accepted, w') \<and>
      history w' ([] @ [(i, ''/tmp/disc.iso'', False)]) \<and>
      length (dv_rows (g_model w')) = Suc (length (dv_rows (g_model half_window))) \<and>
      map di_unique_id (g_cache w') = map di_unique_id (g_cache half_window) @ [i] \<and>
      w_boxes w' = w_boxes half_window @ [Information ''There has been an attempt at a duplicate entry!'']"
    by (rule import_unreachable_dropped [where info = ?info and n = 2048 and good = "''good''" and bad = "''bad''"
          and xa = "[]" and xb = "[]" and ha = "[]" and hb = "[]" and hash = False
          and wi = "half_window\<lparr>w_drawn := k\<rparr>"
          and oka = "\<lparr>ci_response_code = 200, ci_effective_url = ''disc.iso''\<rparr>"
          and oknot = "\<lparr>ci_response_code = 404, ci_effective_url = ''disc.iso''\<rparr>"])
      (simp_all add: half_facts half_file half_dialog_def half_import_def v g i f clean_field_def
        fits64_def int64_min_def int64_max_def)
  then show ?thesis by (auto simp: half_facts)
qed

end
