(* ===== verification/Curl_Sockets.thy ===== *)
theory Curl_Sockets
  imports Curl_Multi
begin

text \<open>
  The callbacks of \<open>CurlMulti\<close> that hand sockets and timeouts between libcurl and \<open>boost::asio\<close>
  (\<open>src/curl_multi.cpp\<close>). The state adds the map of sockets, the socket objects that are allocated, the
  cells that remember the action of a socket and which socket libcurl has them for, the waits that were
  started, the timer, and the connection data that were deleted. What \<open>curl_multi_socket_action\<close> answers is
  a schedule as in \<open>Curl_Multi\<close>; what opening a socket gives is a function of the object.
\<close>

section \<open>State\<close>

datatype poll = Poll_none | Poll_in | Poll_out | Poll_inout | Poll_remove

datatype sock_purpose = Ipcxn | Accept_purpose | Other_purpose

datatype sock_family = AF_INET | AF_INET6 | Other_family

record sockets = multi +
  so_map :: "(nat \<times> nat) list"
  so_objects :: "nat list"
  so_next :: nat
  so_native :: "nat \<Rightarrow> nat option"
  so_cells :: "nat \<Rightarrow> poll option"
  so_next_cell :: nat
  so_assigned :: "nat \<Rightarrow> nat option"
  so_waits :: "(nat \<times> poll) list"
  so_timer :: "int option"
  so_answers :: "nat \<Rightarrow> perform_answer"
  so_actions :: "(int \<times> poll) list"
  so_freed :: "nat list"

type_synonym ('z, 'a) sock = "('z sockets_scheme, 'a) prog"

definition CURL_SOCKET_TIMEOUT :: int where "CURL_SOCKET_TIMEOUT = - 1"
definition CURL_SOCKET_BAD :: int where "CURL_SOCKET_BAD = - 1"

definition curl_multi_socket_action :: "int \<Rightarrow> poll \<Rightarrow> ('z, curlm_code) sock" where
  "curl_multi_socket_action s action =
     bindp tick_call (\<lambda>n.
     bindp (getp (\<lambda>w. so_answers w n)) (\<lambda>a.
     seqp (modifyp (\<lambda>w. w\<lparr>so_actions := so_actions w @ [(s, action)]\<rparr>))
     (seqp (each net_event_step (pf_events a))
     (seqp (modifyp (\<lambda>w. w\<lparr>mu_still_running := pf_running a,
               mu_messages := mu_messages w @ filter (\<lambda>e. e \<in> set (mu_attached w)) (pf_done a)\<rparr>))
      (ret (pf_code a))))))"

section \<open>Completed transfers\<close>

text \<open>One turn of the loop over the messages: the handle is taken off, cleaned up, and its connection data
  are deleted. Deleting twice has no defined behaviour.\<close>

definition info_step :: "unit \<Rightarrow> ('z, unit + unit) sock" where
  "info_step _ =
     bindp curl_multi_info_read (\<lambda>msg.
     case msg of
       None \<Rightarrow> ret (Inr ())
     | Some easy \<Rightarrow>
         bindp (getp (\<lambda>w. easy \<in> set (so_freed w))) (\<lambda>gone.
         if gone then undefinedp
         else
           seqp (curl_multi_remove_handle easy)
           (seqp (modifyp (\<lambda>w. w\<lparr>so_freed := so_freed w @ [easy]\<rparr>)) (ret (Inl ())))))"

definition check_multi_info :: "('z, unit) sock" where
  "check_multi_info = loopp info_step ()"

section \<open>Events and timeouts\<close>

text \<open>\<open>native_handle\<close> of a deleted object has no defined behaviour.\<close>

definition event_cb :: "nat \<Rightarrow> poll \<Rightarrow> ('z, unit) sock" where
  "event_cb tcp_socket action =
     bindp (getp (\<lambda>w. (tcp_socket \<in> set (so_objects w), so_native w tcp_socket))) (\<lambda>(alive, native).
     if \<not> alive then undefinedp
     else
       bindp (curl_multi_socket_action (case native of Some s \<Rightarrow> int s | None \<Rightarrow> CURL_SOCKET_BAD) action) (\<lambda>rc.
       seqp (mcode_or_die rc)
       (seqp check_multi_info
          (modifyp (\<lambda>w. if mu_still_running w \<le> 0 then w\<lparr>so_timer := None\<rparr> else w)))))"

definition timer_cb :: "bool \<Rightarrow> ('z, unit) sock" where
  "timer_cb error =
     (if \<not> error then
        bindp (curl_multi_socket_action CURL_SOCKET_TIMEOUT Poll_none) (\<lambda>rc.
        seqp (mcode_or_die rc) check_multi_info)
      else ret ())"

definition multi_timer_cb :: "int \<Rightarrow> ('z, int) sock" where
  "multi_timer_cb timeout_ms =
     seqp (modifyp (\<lambda>w. w\<lparr>so_timer := None\<rparr>))
     (seqp (if 0 < timeout_ms then modifyp (\<lambda>w. w\<lparr>so_timer := Some timeout_ms\<rparr>) else timer_cb False)
      (ret 0))"

section \<open>Actions of a socket\<close>

text \<open>\<open>free\<close> of a cell that is not allocated has no defined behaviour.\<close>

definition remsock :: "nat option \<Rightarrow> ('z, unit) sock" where
  "remsock f =
     (case f of
        None \<Rightarrow> ret ()
      | Some c \<Rightarrow> (\<lambda>w. if so_cells w c = None then undefinedp w
                       else ret () (w\<lparr>so_cells := (so_cells w)(c := None)\<rparr>)))"

definition setsock :: "nat \<Rightarrow> nat \<Rightarrow> poll \<Rightarrow> ('z, unit) sock" where
  "setsock fdp s what =
     bindp (getp (\<lambda>w. map_of (so_map w) s)) (\<lambda>it.
     case it of
       None \<Rightarrow> ret ()
     | Some tcp_socket \<Rightarrow>
         seqp (modifyp (\<lambda>w. w\<lparr>so_cells := (so_cells w)(fdp \<mapsto> what)\<rparr>))
           (modifyp (\<lambda>w. w\<lparr>so_waits := so_waits w @
              (case what of
                 Poll_in \<Rightarrow> [(tcp_socket, what)]
               | Poll_out \<Rightarrow> [(tcp_socket, what)]
               | Poll_inout \<Rightarrow> [(tcp_socket, what), (tcp_socket, what)]
               | _ \<Rightarrow> [])\<rparr>)))"

definition addsock :: "nat \<Rightarrow> poll \<Rightarrow> ('z, unit) sock" where
  "addsock s action =
     bindp (getp so_next_cell) (\<lambda>fdp.
     seqp (modifyp (\<lambda>w. w\<lparr>so_cells := (so_cells w)(fdp \<mapsto> Poll_none), so_next_cell := Suc fdp\<rparr>))
     (seqp (setsock fdp s action)
        (modifyp (\<lambda>w. w\<lparr>so_assigned := (so_assigned w)(s \<mapsto> fdp)\<rparr>))))"

text \<open>The old action is read for a message, so the cell must be there.\<close>

definition sock_cb :: "nat \<Rightarrow> poll \<Rightarrow> nat option \<Rightarrow> ('z, int) sock" where
  "sock_cb s what actionp =
     seqp (if what = Poll_remove then remsock actionp
           else (case actionp of
                   None \<Rightarrow> addsock s what
                 | Some c \<Rightarrow> bindp (getp (\<lambda>w. so_cells w c)) (\<lambda>old.
                     if old = None then undefinedp else setsock c s what)))
       (ret 0)"

section \<open>Opening and closing\<close>

text \<open>\<open>std::map::insert\<close> does not replace.\<close>

definition opensocket :: "sock_purpose \<Rightarrow> sock_family \<Rightarrow> ('z, int) sock" where
  "opensocket purpose family =
     (if purpose = Ipcxn \<and> family = AF_INET then
        bindp (getp so_next) (\<lambda>tcp_socket.
        seqp (modifyp (\<lambda>w. w\<lparr>so_objects := so_objects w @ [tcp_socket], so_next := Suc tcp_socket\<rparr>))
        (bindp (getp (\<lambda>w. so_native w tcp_socket)) (\<lambda>native.
         case native of
           None \<Rightarrow> raise (Runtime_error ''Couldn't open socket'')
         | Some sockfd \<Rightarrow>
             seqp (modifyp (\<lambda>w. if sockfd \<in> fst ` set (so_map w) then w
                     else w\<lparr>so_map := qmap_insert sockfd tcp_socket (so_map w)\<rparr>))
               (ret (int sockfd)))))
      else ret CURL_SOCKET_BAD)"

definition close_socket :: "nat \<Rightarrow> ('z, int) sock" where
  "close_socket item =
     bindp (getp (\<lambda>w. map_of (so_map w) item)) (\<lambda>it.
     seqp (case it of
             None \<Rightarrow> ret ()
           | Some tcp_socket \<Rightarrow> modifyp (\<lambda>w. w\<lparr>so_objects := filter (\<lambda>x. x \<noteq> tcp_socket) (so_objects w),
               so_map := filter (\<lambda>(s, _). s \<noteq> item) (so_map w)\<rparr>))
       (ret 0))"

section \<open>The callbacks as libcurl makes them\<close>

text \<open>libcurl passes the pointer it was given for the socket and forgets it after \<open>CURL_POLL_REMOVE\<close>.\<close>

datatype socket_event =
    Open_socket sock_purpose sock_family
  | Poll_socket nat poll
  | Close_socket nat
  | Set_timer int
  | Timer_expired bool
  | Socket_ready nat poll

definition poll_socket :: "nat \<Rightarrow> poll \<Rightarrow> ('z, int) sock" where
  "poll_socket s what =
     bindp (getp (\<lambda>w. so_assigned w s)) (\<lambda>sockp.
     bindp (sock_cb s what sockp) (\<lambda>r.
     seqp (modifyp (\<lambda>w. if what = Poll_remove then w\<lparr>so_assigned := (so_assigned w)(s := None)\<rparr> else w)) (ret r)))"

fun socket_step :: "socket_event \<Rightarrow> ('z, unit) sock" where
  "socket_step (Open_socket p f) = seqp (opensocket p f) (ret ())"
| "socket_step (Poll_socket s what) = seqp (poll_socket s what) (ret ())"
| "socket_step (Close_socket s) = seqp (close_socket s) (ret ())"
| "socket_step (Set_timer t) = seqp (multi_timer_cb t) (ret ())"
| "socket_step (Timer_expired e) = timer_cb e"
| "socket_step (Socket_ready tcp_socket what) = event_cb tcp_socket what"

end
