(* ===== verification/Curl_Socket_Properties.thy ===== *)
theory Curl_Socket_Properties
  imports Curl_Sockets Transfer_Properties
begin

text \<open>
  What the socket callbacks keep, and what the timer callback takes away. In every state the callbacks come
  to, the map of sockets holds exactly the objects that are allocated, each under its own number, and the
  allocated cells are exactly those libcurl holds a pointer to: nothing is lost and nothing is freed
  twice. A timeout that runs at once drains the messages that \<open>fileStream\<close> waits for.
\<close>

section \<open>The books of the sockets\<close>

definition map_ok :: "(nat \<times> nat) list \<Rightarrow> nat list \<Rightarrow> (nat \<Rightarrow> nat option) \<Rightarrow> nat \<Rightarrow> bool" where
  "map_ok m objects native next \<longleftrightarrow> distinct (map fst m) \<and> distinct (map snd m) \<and> set objects = snd ` set m \<and>
     (\<forall>(s, t) \<in> set m. native t = Some s \<and> t < next)"

definition cells_ok :: "(nat \<Rightarrow> poll option) \<Rightarrow> (nat \<Rightarrow> nat option) \<Rightarrow> nat \<Rightarrow> bool" where
  "cells_ok cells assigned next \<longleftrightarrow> (\<forall>c. cells c \<noteq> None \<longleftrightarrow> (\<exists>s. assigned s = Some c)) \<and>
     (\<forall>s s' c. assigned s = Some c \<longrightarrow> assigned s' = Some c \<longrightarrow> s = s') \<and> (\<forall>s c. assigned s = Some c \<longrightarrow> c < next)"

definition sockets_ok :: "'z sockets_scheme \<Rightarrow> bool" where
  "sockets_ok w \<longleftrightarrow> map_ok (so_map w) (so_objects w) (so_native w) (so_next w) \<and>
     cells_ok (so_cells w) (so_assigned w) (so_next_cell w)"

definition sockets_kept :: "'z sockets_scheme \<Rightarrow> 'z sockets_scheme \<Rightarrow> bool" where
  "sockets_kept w w' \<longleftrightarrow> (sockets_ok w \<longrightarrow> sockets_ok w')"

interpretation skf: frame sockets_kept
  by unfold_locales (auto simp: sockets_kept_def reflp_def transp_def)

text \<open>What leaves the sockets alone.\<close>

definition same_sockets :: "'z sockets_scheme \<Rightarrow> 'z sockets_scheme \<Rightarrow> bool" where
  "same_sockets w w' \<longleftrightarrow> so_map w' = so_map w \<and> so_objects w' = so_objects w \<and> so_next w' = so_next w \<and>
     so_native w' = so_native w \<and> so_cells w' = so_cells w \<and> so_next_cell w' = so_next_cell w \<and>
     so_assigned w' = so_assigned w"

interpretation ssf: frame same_sockets
  by unfold_locales (auto simp: same_sockets_def reflp_def transp_def)

lemma kept_of_same: "preserves same_sockets m \<Longrightarrow> preserves sockets_kept m"
  by (auto simp: preserves_def sockets_kept_def sockets_ok_def same_sockets_def)

named_theorems socket_frame \<open>parts of the callbacks that leave the sockets alone\<close>

lemma same_parts [socket_frame]:
  "preserves same_sockets (net_event_step e)" "preserves same_sockets tick_call" "preserves same_sockets curl_multi_info_read"
  "preserves same_sockets (curl_multi_remove_handle h)" "preserves same_sockets (mcode_or_die c)"
  "preserves same_sockets (modifyp (\<lambda>w. w\<lparr>so_actions := f w\<rparr>))"
  "preserves same_sockets (modifyp (\<lambda>w. w\<lparr>so_freed := g w\<rparr>))"
  "preserves same_sockets (modifyp (\<lambda>w. w\<lparr>so_timer := t\<rparr>))"
  "preserves same_sockets (modifyp (\<lambda>w. if P w then w\<lparr>so_timer := t\<rparr> else w))"
  "preserves same_sockets (modifyp (\<lambda>w. w\<lparr>mu_still_running := n, mu_messages := k w\<rparr>))"
proof -
  show "preserves same_sockets (net_event_step e)"
  proof (cases e)
    case (Progress h a b c d)
    then show ?thesis by (simp add: preserves_def same_sockets_def curl_xferinfo_def seqp_def bindp_def Let_def)
  next
    case (Data h a b c)
    then show ?thesis
      by (simp add: preserves_def same_sockets_def curl_write_file_callback_def seqp_def bindp_def Let_def split: option.split)
  next
    case (Stop f)
    then show ?thesis
      by (simp add: preserves_def same_sockets_def recvStopDl_def curl_multi_remove_handle_def catchp_def seqp_def bindp_def
          split: option.split prod.split)
  next
    case (Clock t)
    then show ?thesis by (simp add: preserves_def same_sockets_def)
  qed
  show "preserves same_sockets (mcode_or_die c)"
    unfolding mcode_or_die_def by (cases c) (simp_all add: ssf.basic)
qed (simp_all add: preserves_def same_sockets_def tick_call_def curl_multi_info_read_def curl_multi_remove_handle_def split: list.split)

lemma same_action [socket_frame]: "preserves same_sockets (curl_multi_socket_action s a)"
  unfolding curl_multi_socket_action_def by (intro ssf.keeps socket_frame)

lemma same_info [socket_frame]: "preserves same_sockets check_multi_info"
  unfolding check_multi_info_def
proof (rule ssf.while)
  fix x
  show "preserves same_sockets (info_step x)" unfolding info_step_def by (intro ssf.keeps socket_frame)
qed

lemma same_timer [socket_frame]:
  "preserves same_sockets (timer_cb e)" "preserves same_sockets (multi_timer_cb t)" "preserves same_sockets (event_cb t' what)"
  unfolding timer_cb_def multi_timer_cb_def event_cb_def by (intro ssf.keeps socket_frame)+

section \<open>Opening, polling and closing\<close>

lemma qmap_insert_new:
  assumes "k \<notin> fst ` set m"
  shows "set (qmap_insert k v m) = insert (k, v) (set m)" and "distinct (map fst m) \<Longrightarrow> distinct (map fst (qmap_insert k v m))"
    and "distinct (map snd m) \<Longrightarrow> v \<notin> snd ` set m \<Longrightarrow> distinct (map snd (qmap_insert k v m))"
proof -
  have mset: "mset (qmap_insert k v m) = add_mset (k, v) (mset m)"
    using assms by (induction k v m rule: qmap_insert.induct) auto
  then show "set (qmap_insert k v m) = insert (k, v) (set m)" by (metis set_mset_add_mset_insert set_mset_mset)
  have "mset (map f (qmap_insert k v m)) = add_mset (f (k, v)) (mset (map f m))" for f :: "'a \<times> 'b \<Rightarrow> 'c"
    by (simp add: mset)
  then have d: "distinct (map f (qmap_insert k v m)) \<longleftrightarrow> distinct (f (k, v) # map f m)" for f :: "'a \<times> 'b \<Rightarrow> 'c"
    by (intro mset_eq_imp_distinct_iff) simp
  show "distinct (map fst m) \<Longrightarrow> distinct (map fst (qmap_insert k v m))"
    using assms d by (metis distinct.simps(2) fst_conv list.set_map)
  show "distinct (map snd m) \<Longrightarrow> v \<notin> snd ` set m \<Longrightarrow> distinct (map snd (qmap_insert k v m))"
    using d by (metis distinct.simps(2) snd_conv list.set_map)
qed

lemma map_ok_insert:
  assumes "map_ok m objects native k" and "native k = Some fd" and "fd \<notin> fst ` set m"
  shows "map_ok (qmap_insert fd k m) (objects @ [k]) native (Suc k)"
proof -
  have new: "k \<notin> snd ` set m" using assms(1) by (force simp: map_ok_def)
  show ?thesis
    using assms new qmap_insert_new [OF assms(3), of k] by (auto simp: map_ok_def less_Suc_eq)
qed

lemma map_ok_remove:
  assumes "map_ok m objects native next" and "(s, t) \<in> set m"
  shows "map_ok (filter (\<lambda>(x, _). x \<noteq> s) m) (filter (\<lambda>x. x \<noteq> t) objects) native next"
proof -
  have d: "distinct (map fst m)" "distinct (map snd m)" "set objects = snd ` set m"
      "\<forall>(s, t) \<in> set m. native t = Some s \<and> t < next"
    using assms(1) by (simp_all add: map_ok_def)
  have key: "x = s \<longleftrightarrow> y = t" if "(x, y) \<in> set m" for x y
    using inj_onD [of snd "set m" "(x, y)" "(s, t)"] eq_key_imp_eq_value [OF d(1)] that assms(2) d(2)
    by (auto simp: distinct_map)
  have "snd ` set (filter (\<lambda>(x, _). x \<noteq> s) m) = snd ` set m - {t}"
  proof (rule set_eqI)
    fix y show "y \<in> snd ` set (filter (\<lambda>(x, _). x \<noteq> s) m) \<longleftrightarrow> y \<in> snd ` set m - {t}"
      using key by force
  qed
  moreover have "set (filter (\<lambda>x. x \<noteq> t) objects) = set objects - {t}" by auto
  ultimately show ?thesis
    unfolding map_ok_def using d(3,4) distinct_map_filter [OF d(1)] distinct_map_filter [OF d(2)] by simp
qed

lemma cells_ok_add:
  assumes "cells_ok cells assigned next" and "assigned s = None"
  shows "cells_ok (cells(next \<mapsto> v)) (assigned(s \<mapsto> next)) (Suc next)"
proof -
  have new: "assigned x \<noteq> Some next" for x using assms(1) by (auto simp: cells_ok_def)
  have "(cells(next \<mapsto> v)) c \<noteq> None \<longleftrightarrow> (\<exists>x. (assigned(s \<mapsto> next)) x = Some c)" for c
  proof (cases "c = next")
    case True
    then have "(assigned(s \<mapsto> next)) s = Some c" by simp
    then show ?thesis using True by auto
  next
    case False
    then have "(\<exists>x. (assigned(s \<mapsto> next)) x = Some c) \<longleftrightarrow> (\<exists>x. assigned x = Some c)"
      using assms(2) by (metis fun_upd_apply option.inject option.distinct(1))
    then show ?thesis using False assms(1) by (simp add: cells_ok_def)
  qed
  moreover have "x = y" if "(assigned(s \<mapsto> next)) x = Some c" "(assigned(s \<mapsto> next)) y = Some c" for x y c
    using that assms(1) new unfolding cells_ok_def by (auto split: if_splits)
  moreover have "c < Suc next" if "(assigned(s \<mapsto> next)) x = Some c" for x c
    using that assms(1) unfolding cells_ok_def by (auto split: if_splits intro: less_SucI)
  ultimately show ?thesis unfolding cells_ok_def by blast
qed

lemma cells_ok_remove:
  assumes "cells_ok cells assigned next" and "assigned s = Some c"
  shows "cells_ok (cells(c := None)) (assigned(s := None)) next"
proof -
  have inj: "x = s" if "assigned x = Some c" for x using that assms unfolding cells_ok_def by blast
  have "(cells(c := None)) d \<noteq> None \<longleftrightarrow> (\<exists>x. (assigned(s := None)) x = Some d)" for d
  proof (cases "d = c")
    case True
    then show ?thesis using inj by auto
  next
    case False
    then have "(\<exists>x. (assigned(s := None)) x = Some d) \<longleftrightarrow> (\<exists>x. assigned x = Some d)"
      using assms(2) by (metis fun_upd_apply option.inject option.distinct(1))
    then show ?thesis using False assms(1) by (simp add: cells_ok_def)
  qed
  moreover have "x = y" if "(assigned(s := None)) x = Some d" "(assigned(s := None)) y = Some d" for x y d
    using that assms(1) unfolding cells_ok_def by (auto split: if_splits)
  moreover have "d < next" if "(assigned(s := None)) x = Some d" for x d
    using that assms(1) unfolding cells_ok_def by (auto split: if_splits)
  ultimately show ?thesis unfolding cells_ok_def by blast
qed

lemma cells_ok_set: "cells_ok cells assigned next \<Longrightarrow> cells c \<noteq> None \<Longrightarrow> cells_ok (cells(c \<mapsto> v)) assigned next"
  unfolding cells_ok_def by (metis fun_upd_apply option.distinct(1))

text \<open>The system gives a new socket a number that no open socket has.\<close>

lemma open_keeps:
  assumes "sockets_ok w" and "\<And>fd. so_native w (so_next w) = Some fd \<Longrightarrow> fd \<notin> fst ` set (so_map w)"
    and "opensocket p f w = (Ok r, w')"
  shows "sockets_ok w'"
proof (cases "p = Ipcxn \<and> f = AF_INET")
  case True
  then obtain fd where n: "so_native w (so_next w) = Some fd"
    using assms(3) by (cases "so_native w (so_next w)") (auto simp: opensocket_def)
  have "map_ok (qmap_insert fd (so_next w) (so_map w)) (so_objects w @ [so_next w]) (so_native w) (Suc (so_next w))"
    using assms(1) by (intro map_ok_insert n assms(2)) (simp add: sockets_ok_def)
  then show ?thesis
    using assms(1,3) assms(2) [OF n] n True by (auto simp: opensocket_def sockets_ok_def)
next
  case False
  then have "w' = w" using assms(3) by (auto simp: opensocket_def split: if_splits)
  then show ?thesis using assms(1) by simp
qed

lemma close_keeps: "preserves sockets_kept (close_socket item)"
  by (auto simp: preserves_def sockets_kept_def sockets_ok_def close_socket_def map_ok_remove map_of_SomeD
      split: option.split)

lemma setsock_keeps:
  assumes "sockets_ok w" and "so_cells w c \<noteq> None"
  shows "\<exists>w'. setsock c s what w = (Ok (), w') \<and> sockets_ok w'"
  using assms cells_ok_set by (auto simp: setsock_def sockets_ok_def split: option.split)

lemma add_keeps:
  assumes "sockets_ok w" and "so_assigned w s = None"
  shows "\<exists>w'. addsock s what w = (Ok (), w') \<and> sockets_ok w'"
proof -
  have "cells_ok ((so_cells w)(so_next_cell w \<mapsto> v)) ((so_assigned w)(s \<mapsto> so_next_cell w)) (Suc (so_next_cell w))" for v
    using assms by (intro cells_ok_add) (simp_all add: sockets_ok_def)
  then show ?thesis
    using assms(1) by (cases "map_of (so_map w) s") (simp_all add: addsock_def setsock_def seqp_def bindp_def sockets_ok_def)
qed

lemma poll_keeps:
  assumes "sockets_ok w"
  shows "\<exists>w'. poll_socket s what w = (Ok 0, w') \<and> sockets_ok w'"
proof (cases "so_assigned w s")
  case None
  show ?thesis
  proof (cases "what = Poll_remove")
    case True
    have "(so_assigned w)(s := None) = so_assigned w" using None by (simp add: fun_upd_idem)
    then show ?thesis using True None assms by (simp add: poll_socket_def sock_cb_def remsock_def bindp_def sockets_ok_def)
  next
    case False
    then show ?thesis using add_keeps [OF assms None, of what] None
      by (auto simp: poll_socket_def sock_cb_def seqp_Ok bindp_Ok)
  qed
next
  case (Some c)
  have c: "so_cells w c \<noteq> None" using assms Some by (auto simp: sockets_ok_def cells_ok_def)
  show ?thesis
  proof (cases "what = Poll_remove")
    case True
    have "cells_ok ((so_cells w)(c := None)) ((so_assigned w)(s := None)) (so_next_cell w)"
      using assms by (intro cells_ok_remove Some) (simp add: sockets_ok_def)
    then show ?thesis using assms Some c True
      by (auto simp: poll_socket_def sock_cb_def remsock_def bindp_def seqp_def sockets_ok_def)
  next
    case False
    then show ?thesis using setsock_keeps [OF assms c, of s what] Some c
      by (auto simp: poll_socket_def sock_cb_def seqp_Ok bindp_Ok)
  qed
qed

text \<open>The states the callbacks come to.\<close>

inductive socket_run :: "'z sockets_scheme \<Rightarrow> 'z sockets_scheme \<Rightarrow> bool" for w0 where
  started: "so_map w0 = [] \<Longrightarrow> so_objects w0 = [] \<Longrightarrow> so_cells w0 = (\<lambda>_. None) \<Longrightarrow> so_assigned w0 = (\<lambda>_. None) \<Longrightarrow>
    socket_run w0 w0"
| event: "socket_run w0 w \<Longrightarrow> (\<And>fd. so_native w (so_next w) = Some fd \<Longrightarrow> fd \<notin> fst ` set (so_map w)) \<Longrightarrow>
    socket_step e w = (Ok (), w') \<Longrightarrow> socket_run w0 w'"

lemma step_keeps:
  fixes w :: "'z sockets_scheme"
  assumes "sockets_ok w" and "\<And>fd. so_native w (so_next w) = Some fd \<Longrightarrow> fd \<notin> fst ` set (so_map w)"
    and "socket_step e w = (Ok (), w')"
  shows "sockets_ok w'"
proof -
  have same: "sockets_ok w'" if "preserves sockets_kept m" "seqp m (ret ()) w = (Ok (), w')" for m :: "('z, int) sock"
    using that assms(1) by (cases "m w"; cases "fst (m w)") (auto simp: seqp_def bindp_def preserves_def sockets_kept_def dest: spec [of _ w])
  show ?thesis
  proof (cases e)
    case (Open_socket p f)
    then obtain r where "opensocket p f w = (Ok r, w')"
      using assms(3) by (auto simp: seqp_def bindp_def split: prod.splits outcome.splits)
    then show ?thesis using open_keeps [OF assms(1)] assms(2) by blast
  next
    case (Poll_socket s what)
    then show ?thesis using assms(3) poll_keeps [OF assms(1), of s what] by (auto simp: seqp_Ok)
  next
    case (Close_socket s)
    then show ?thesis using assms(3) by (intro same [OF close_keeps]) simp
  next
    case (Set_timer t)
    then show ?thesis using assms(3) by (intro same [OF kept_of_same [OF same_timer(2)]]) simp
  next
    case (Timer_expired b)
    then show ?thesis using assms(1,3) preservesD [OF kept_of_same [OF same_timer(1)]] by (auto simp: sockets_kept_def)
  next
    case (Socket_ready t what)
    then show ?thesis
      using assms(1,3) preservesD [OF kept_of_same [OF same_timer(3)], of t what w] by (simp add: sockets_kept_def)
  qed
qed

lemma socket_run_ok: "socket_run w0 w \<Longrightarrow> sockets_ok w"
proof (induction rule: socket_run.induct)
  case (event w e w')
  then show ?case using step_keeps by blast
qed (simp add: sockets_ok_def map_ok_def cells_ok_def)

section \<open>Draining the messages\<close>

text \<open>The loop over the messages ends with none left; every handle named in them is taken off and its
  connection data are deleted once.\<close>

lemma check_drains:
  fixes w :: "'z sockets_scheme"
  assumes "set (mu_messages w) \<inter> set (so_freed w) = {}"
  shows "\<exists>fs. check_multi_info w = (Ok (), w\<lparr>mu_attached := filter (\<lambda>h. h \<notin> set (mu_messages w)) (mu_attached w),
      mu_messages := [], so_freed := so_freed w @ fs\<rparr>) \<and> distinct fs \<and> set fs = set (mu_messages w)"
  using assms
proof (induction "length (mu_messages w)" arbitrary: w rule: less_induct)
  case less
  show ?case
  proof (cases "mu_messages w")
    case Nil
    then have "info_step () w = (Ok (Inr ()), w)" by (simp add: info_step_def curl_multi_info_read_def bindp_def)
    moreover have "filter (\<lambda>h. h \<notin> set []) (mu_attached w) = mu_attached w" by simp
    ultimately show ?thesis using Nil by (intro exI [of _ "[]"]) (simp add: check_multi_info_def loopp_done)
  next
    case (Cons e es)
    let ?v = "w\<lparr>mu_attached := filter (\<lambda>h. h \<noteq> e) (mu_attached w), mu_messages := filter (\<lambda>h. h \<noteq> e) es,
      so_freed := so_freed w @ [e]\<rparr> :: 'z sockets_scheme"
    have step: "info_step () w = (Ok (Inl ()), ?v)"
      using Cons less.prems
      by (simp add: info_step_def curl_multi_info_read_def curl_multi_remove_handle_def bindp_def seqp_def)
    have "length (mu_messages ?v) < length (mu_messages w)" using Cons by (simp add: le_imp_less_Suc)
    moreover have "set (mu_messages ?v) \<inter> set (so_freed ?v) = {}" using Cons less.prems by auto
    ultimately obtain fs where fs: "check_multi_info ?v = (Ok (), ?v\<lparr>mu_attached := filter (\<lambda>h. h \<notin> set (mu_messages ?v)) (mu_attached ?v),
        mu_messages := [], so_freed := so_freed ?v @ fs\<rparr>)" "distinct fs" "set fs = set (mu_messages ?v)"
      using less.hyps by blast
    have att: "filter (\<lambda>h. h \<notin> set (mu_messages ?v)) (mu_attached ?v) = filter (\<lambda>h. h \<notin> set (mu_messages w)) (mu_attached w)"
      using Cons by (auto intro: filter_cong)
    have "check_multi_info w = (Ok (), w\<lparr>mu_attached := filter (\<lambda>h. h \<notin> set (mu_messages w)) (mu_attached w),
        mu_messages := [], so_freed := so_freed w @ (e # fs)\<rparr>)"
      unfolding check_multi_info_def
      by (rule loopp_next [where y = "()" and s' = ?v]) (use step fs(1) att in \<open>simp_all add: check_multi_info_def\<close>)
    moreover have "distinct (e # fs)" "set (e # fs) = set (mu_messages w)" using fs(2,3) Cons by auto
    ultimately show ?thesis by blast
  qed
qed

text \<open>What the timeout does when it runs at once and libcurl has nothing else to report.\<close>

lemma timer_drains:
  fixes w :: "'z sockets_scheme"
  assumes "t \<le> 0" and "so_answers w (mu_calls w) = \<lparr>pf_code = c, pf_running = n, pf_events = [], pf_done = done\<rparr>"
    and "c = CURLM_OK \<or> c = CURLM_BAD_SOCKET" and "ms = mu_messages w @ filter (\<lambda>h. h \<in> set (mu_attached w)) done"
    and "set ms \<inter> set (so_freed w) = {}"
  shows "\<exists>fs. multi_timer_cb t w = (Ok 0, w\<lparr>mu_still_running := n, mu_attached := filter (\<lambda>h. h \<notin> set ms) (mu_attached w),
      mu_messages := [], mu_calls := Suc (mu_calls w), so_timer := None,
      so_actions := so_actions w @ [(CURL_SOCKET_TIMEOUT, Poll_none)], so_freed := so_freed w @ fs\<rparr>) \<and>
    distinct fs \<and> set fs = set ms"
proof -
  let ?v = "w\<lparr>mu_still_running := n, mu_messages := ms, mu_calls := Suc (mu_calls w), so_timer := None,
    so_actions := so_actions w @ [(CURL_SOCKET_TIMEOUT, Poll_none)]\<rparr> :: 'z sockets_scheme"
  have act: "curl_multi_socket_action CURL_SOCKET_TIMEOUT Poll_none (w\<lparr>so_timer := None\<rparr>) = (Ok c, ?v)"
    using assms(2,4) by (simp add: curl_multi_socket_action_def tick_call_def bindp_def seqp_def)
  have die: "mcode_or_die c ?v = (Ok (), ?v)" using assms(3) by (auto simp: mcode_or_die_def)
  obtain fs where "check_multi_info ?v = (Ok (), ?v\<lparr>mu_attached := filter (\<lambda>h. h \<notin> set (mu_messages ?v)) (mu_attached ?v),
        mu_messages := [], so_freed := so_freed ?v @ fs\<rparr>)" "distinct fs" "set fs = set (mu_messages ?v)"
    using check_drains [of ?v] assms(5) by auto
  then show ?thesis
    using assms(1) act die by (intro exI [of _ fs]) (simp add: multi_timer_cb_def timer_cb_def bindp_Ok seqp_Ok)
qed

section \<open>A concrete program\<close>

definition sample_sockets :: sockets where
  "sample_sockets = multi.extend (idle_multi\<lparr>mu_attached := [0], mu_active := 1\<rparr>)
     (sockets.fields [] [] 0 (\<lambda>t. Some (t + 5)) (\<lambda>_. None) 0 (\<lambda>_. None) [] None
        (\<lambda>n. \<lparr>pf_code = CURLM_OK, pf_running = 0, pf_events = [], pf_done = [0]\<rparr>) [] [])"

lemmas sample_sockets_simps = sample_sockets_def idle_multi_def multi.defs sockets.defs

section \<open>Properties\<close>

text \<open>C13: In every state the socket callbacks come to, whatever libcurl asks of them: the map has each open socket
  under its own number and holds exactly the allocated objects, a cell is allocated just when libcurl holds
  the pointer to it, changing or removing the action of a socket never touches a freed cell, and closing a
  socket deletes its object and its entry.\<close>

theorem socket_books:
  assumes "socket_run w0 w"
  shows "(\<forall>s t. map_of (so_map w) s = Some t \<longrightarrow> so_native w t = Some s) \<and> set (so_objects w) = ran (map_of (so_map w)) \<and>
    (\<forall>c. so_cells w c \<noteq> None \<longleftrightarrow> (\<exists>s. so_assigned w s = Some c)) \<and>
    (\<forall>s what. \<exists>w'. poll_socket s what w = (Ok 0, w')) \<and>
    (\<forall>s t. map_of (so_map w) s = Some t \<longrightarrow> (\<exists>w'. close_socket s w = (Ok 0, w') \<and> map_of (so_map w') s = None \<and> t \<notin> set (so_objects w')))"
proof -
  have ok: "sockets_ok w" by (rule socket_run_ok [OF assms])
  have m: "distinct (map fst (so_map w))" "set (so_objects w) = snd ` set (so_map w)"
      "\<And>s t. (s, t) \<in> set (so_map w) \<Longrightarrow> so_native w t = Some s"
    using ok by (auto simp: sockets_ok_def map_ok_def)
  have "map_of (filter (\<lambda>(x, _). x \<noteq> s) (so_map w)) s = None" for s
    by (auto simp: map_of_eq_None_iff)
  then have "\<exists>w'. close_socket s w = (Ok 0, w') \<and> map_of (so_map w') s = None \<and> t \<notin> set (so_objects w')"
    if "map_of (so_map w) s = Some t" for s t
    using that by (simp add: close_socket_def)
  moreover have "\<exists>w'. poll_socket s what w = (Ok 0, w')" for s what using poll_keeps [OF ok] by blast
  moreover have "\<forall>c. so_cells w c \<noteq> None \<longleftrightarrow> (\<exists>s. so_assigned w s = Some c)"
    using ok by (simp add: sockets_ok_def cells_ok_def)
  moreover have "\<forall>s t. map_of (so_map w) s = Some t \<longrightarrow> so_native w t = Some s" using m(3) map_of_SomeD by fast
  moreover have "set (so_objects w) = ran (map_of (so_map w))" using m(2) ran_distinct [OF m(1)] by simp
  ultimately show ?thesis by (intro conjI) blast+
qed

text \<open>C22: libcurl sets the timeout to 0, or to -1 to have no timer at all: both run the timeout at once. A
  transfer that is done then loses its message to \<open>check_multi_info\<close>, which takes its handle off and deletes
  its connection data once, although the books still name it; when \<open>fileStream\<close> asks for the message there
  is none, so it ends without telling the window that the download is finished.\<close>

theorem timer_takes_done:
  fixes w :: "'z sockets_scheme"
  assumes "t \<le> 0" and "so_answers w (mu_calls w) = \<lparr>pf_code = CURLM_OK, pf_running = n, pf_events = [], pf_done = done\<rparr>"
    and "ms = mu_messages w @ filter (\<lambda>h. h \<in> set (mu_attached w)) done"
    and "set ms \<inter> set (so_freed w) = {}"
  shows "\<exists>w'. multi_timer_cb t w = (Ok 0, w') \<and> so_timer w' = None \<and> set (mu_attached w') = set (mu_attached w) - set ms \<and>
    (\<exists>fs. so_freed w' = so_freed w @ fs \<and> distinct fs \<and> set fs = set ms) \<and>
    mu_eh_vec w' = mu_eh_vec w \<and> mu_monitoring w' = mu_monitoring w \<and> mu_active w' = mu_active w \<and> mu_signals w' = mu_signals w \<and>
    bindp curl_multi_info_read (\<lambda>msg. case msg of Some e \<Rightarrow> finish_transfer e | None \<Rightarrow> ret False) w' = (Ok False, w')"
proof -
  obtain fs v where fs: "multi_timer_cb t w = (Ok 0, v)" "v = w\<lparr>mu_still_running := n, mu_attached := filter (\<lambda>h. h \<notin> set ms) (mu_attached w),
      mu_messages := [], mu_calls := Suc (mu_calls w), so_timer := None,
      so_actions := so_actions w @ [(CURL_SOCKET_TIMEOUT, Poll_none)], so_freed := so_freed w @ fs\<rparr>"
    "distinct fs" "set fs = set ms"
    using timer_drains [OF assms(1,2) _ assms(3,4)] by blast
  have "set (filter (\<lambda>h. h \<notin> set ms) (mu_attached w)) = set (mu_attached w) - set ms" by auto
  with fs show ?thesis
    by (intro exI [of _ v] conjI exI [of _ fs]) (simp_all add: curl_multi_info_read_def bindp_def)
qed

theorem socket_books_witness:
  "\<exists>w w'. socket_run sample_sockets w \<and> map_of (so_map w) 5 = Some 0 \<and> close_socket 5 w = (Ok 0, w') \<and>
     map_of (so_map w') 5 = None \<and> 0 \<notin> set (so_objects w')"
proof -
  define e where "e = Open_socket Ipcxn AF_INET"
  let ?r = "socket_step e sample_sockets"
  have s: "socket_run sample_sockets sample_sockets"
    by (rule socket_run.started) (simp_all add: sample_sockets_simps)
  have "?r = (Ok (), snd ?r)" and m: "map_of (so_map (snd ?r)) 5 = Some 0"
    by (simp_all add: e_def opensocket_def seqp_def bindp_def sample_sockets_simps)
  moreover have "so_map sample_sockets = []" by (simp add: sample_sockets_simps)
  ultimately have run: "socket_run sample_sockets (snd ?r)" by (intro socket_run.event [OF s, where e = e]) simp_all
  from socket_books [OF run] m run show ?thesis by blast
qed

theorem timer_takes_done_witness:
  "\<exists>w'. multi_timer_cb (- 1) sample_sockets = (Ok 0, w') \<and> set (so_freed w') = {0} \<and> mu_active w' = 1 \<and> mu_signals w' = [] \<and>
     bindp curl_multi_info_read (\<lambda>msg. case msg of Some e \<Rightarrow> finish_transfer e | None \<Rightarrow> ret False) w' = (Ok False, w')"
proof -
  have f: "so_freed sample_sockets = []" "mu_active sample_sockets = 1" "mu_signals sample_sockets = []"
    by (simp_all add: sample_sockets_simps)
  have "\<exists>w'. multi_timer_cb (- 1) sample_sockets = (Ok 0, w') \<and> so_timer w' = None \<and>
    set (mu_attached w') = set (mu_attached sample_sockets) - set [0] \<and>
    (\<exists>fs. so_freed w' = so_freed sample_sockets @ fs \<and> distinct fs \<and> set fs = set [0]) \<and>
    mu_eh_vec w' = mu_eh_vec sample_sockets \<and> mu_monitoring w' = mu_monitoring sample_sockets \<and>
    mu_active w' = mu_active sample_sockets \<and> mu_signals w' = mu_signals sample_sockets \<and>
    bindp curl_multi_info_read (\<lambda>msg. case msg of Some e \<Rightarrow> finish_transfer e | None \<Rightarrow> ret False) w' = (Ok False, w')"
    by (rule timer_takes_done [of _ _ 0 "[0]"]) (simp_all add: sample_sockets_simps)
  then show ?thesis unfolding f by (elim exE conjE, intro exI conjI) (assumption | simp)+
qed

end
