(* ===== verification/Torrent_Client.thy ===== *)
theory Torrent_Client
  imports Curl_Multi
begin

text \<open>
  The BitTorrent client, \<open>GekkoFyre::GkTorrentClient\<close> (\<open>src/torrent/client.cpp\<close>), with the names of the
  states and the random port of \<open>src/torrent/misc.cpp\<close>. The state is the two maps of the class, what was
  asked of libtorrent's session, and what the client wrote, printed and signalled. libtorrent itself is a
  schedule: the alerts each call of \<open>pop_alerts\<close> returns. A handle is a number, and the save path of a
  torrent a function of its handle. The signal \<open>xfer_internal_stats\<close> is connected to the slot
  \<open>recv_proc_to_stats\<close> of the client itself, so emitting it is a call.
\<close>

section \<open>State\<close>

datatype lt_state =
    Checking_files | Downloading_metadata | Lt_downloading | Lt_finished | Seeding | Allocating
  | Checking_resume_data | Queued_for_checking

record lt_status =
  ls_state :: lt_state
  ls_progress_ppm :: int
  ls_upload_rate :: int
  ls_download_rate :: int
  ls_num_pieces :: int
  ls_last_seen_complete :: int
  ls_last_scrape :: int
  ls_all_time_download :: int
  ls_all_time_upload :: int

text \<open>The alerts the client looks for, with the handle, the name of the torrent and the message each carries.\<close>

datatype lt_alert =
    Add_torrent_alert nat string string
  | Torrent_finished_alert nat string
  | Torrent_error_alert string
  | Save_resume_data_alert nat string string string
  | State_update_alert "lt_status list" string
  | Torrent_removed_alert string
  | Torrent_deleted_alert string
  | Torrent_paused_alert string
  | Other_alert string

record add_torrent_params =
  atp_resume_data :: string
  atp_url :: string
  atp_save_path :: string

record torrent_client = host +
  tc_to_handle :: "(string \<times> nat) list"
  tc_unique_id_cache :: "(string \<times> string) list"
  tc_valid :: bool
  tc_save_path :: "nat \<Rightarrow> string"
  tc_alerts :: "nat \<Rightarrow> lt_alert list"
  tc_pops :: nat
  tc_clock :: "nat \<Rightarrow> int"
  tc_clock_reads :: nat
  tc_mkdir :: "string \<Rightarrow> bool option"
  tc_added :: "add_torrent_params list"
  tc_saves :: "nat list"
  tc_posts :: nat
  tc_printed :: "string list"
  tc_sent :: "torrent_resume_info list"

type_synonym ('z, 'a) client = "('z torrent_client_scheme, 'a) prog"

definition RESUME_FILE_EXT :: string where "RESUME_FILE_EXT = ''.fyredl''"

definition printed :: "string \<Rightarrow> ('z, unit) client" where
  "printed s = modifyp (\<lambda>w. w\<lparr>tc_printed := tc_printed w @ [s]\<rparr>)"

definition pop_alerts :: "('z, lt_alert list) client" where
  "pop_alerts = (\<lambda>w. ret (tc_alerts w (tc_pops w)) (w\<lparr>tc_pops := Suc (tc_pops w)\<rparr>))"

definition clock_now :: "('z, int) client" where
  "clock_now = (\<lambda>w. ret (tc_clock w (tc_clock_reads w)) (w\<lparr>tc_clock_reads := Suc (tc_clock_reads w)\<rparr>))"

definition save_resume_data :: "nat \<Rightarrow> ('z, unit) client" where
  "save_resume_data h = modifyp (\<lambda>w. w\<lparr>tc_saves := tc_saves w @ [h]\<rparr>)"

fun alert_message :: "lt_alert \<Rightarrow> string" where
  "alert_message (Add_torrent_alert h n m) = m"
| "alert_message (Torrent_finished_alert h m) = m"
| "alert_message (Torrent_error_alert m) = m"
| "alert_message (Save_resume_data_alert h n d m) = m"
| "alert_message (State_update_alert ss m) = m"
| "alert_message (Torrent_removed_alert m) = m"
| "alert_message (Torrent_deleted_alert m) = m"
| "alert_message (Torrent_paused_alert m) = m"
| "alert_message (Other_alert m) = m"

section \<open>Names of states, ports, settings\<close>

fun to_state :: "lt_state \<Rightarrow> string" where
  "to_state Checking_files = ''Checking''"
| "to_state Downloading_metadata = ''Downloading Metadata''"
| "to_state Lt_downloading = ''Downloading''"
| "to_state Lt_finished = ''Finished''"
| "to_state Seeding = ''Seeding''"
| "to_state Allocating = ''Allocating''"
| "to_state Checking_resume_data = ''Checking Resume Data''"
| "to_state Queued_for_checking = ''<N/A>''"

definition TORRENT_MIN_PORT_LISTEN :: int where "TORRENT_MIN_PORT_LISTEN = 10240"
definition TORRENT_MAX_PORT_LISTEN :: int where "TORRENT_MAX_PORT_LISTEN = 64512"

text \<open>\<open>uniform_int_distribution\<close> over what the generator yields is an argument: a choice between two bounds.\<close>

definition rand_port :: "(int \<Rightarrow> int \<Rightarrow> int) \<Rightarrow> int" where
  "rand_port uni = uni TORRENT_MIN_PORT_LISTEN TORRENT_MAX_PORT_LISTEN"

datatype lt_setting = Set_int string int | Set_str string string | Set_bool string bool

text \<open>\<open>"0.0.0.0:" + 0\<close> adds to a pointer, not to a text. The bits of the alert mask are libtorrent's.\<close>

definition client_settings :: "int \<Rightarrow> string \<Rightarrow> string \<Rightarrow> lt_setting list" where
  "client_settings alert_mask user_agent fingerprint =
     [Set_int ''alert_mask'' alert_mask,
      Set_str ''user_agent'' user_agent, Set_str ''peer_fingerprint'' fingerprint,
      Set_str ''handshake_client_version'' [],
      Set_bool ''rate_limit_ip_overhead'' True, Set_bool ''prefer_udp_trackers'' True,
      Set_bool ''announce_crypto_support'' True, Set_bool ''enable_upnp'' True, Set_bool ''enable_natpmp'' True,
      Set_bool ''enable_dht'' True, Set_bool ''prefer_rc4'' True,
      Set_int ''connection_speed'' 10, Set_int ''handshake_timeout'' 30, Set_int ''download_rate_limit'' 0,
      Set_int ''upload_rate_limit'' 0, Set_int ''dht_upload_rate_limit'' 4000, Set_int ''connections_limit'' 500,
      Set_int ''connections_slack'' 10, Set_int ''half_open_limit'' (- 1), Set_int ''ssl_listen'' 4433,
      Set_str ''listen_interfaces'' (drop 0 ''0.0.0.0:'')]"

section \<open>Starting a torrent\<close>

definition resume_file :: "string \<Rightarrow> string \<Rightarrow> string" where
  "resume_file path torrent_name = path @ torrent_name @ RESUME_FILE_EXT"

text \<open>Reading a file character by character gives nothing when it does not open.\<close>

definition read_resume :: "string \<Rightarrow> 'z host_scheme \<Rightarrow> string" where
  "read_resume p w = (let f = h_disk w p in if fd_exists f \<and> \<not> fd_is_directory f \<and> fd_opens f then fd_bytes f else [])"

definition ensure_directory :: "string \<Rightarrow> ('z, unit) client" where
  "ensure_directory p =
     bindp (getp (\<lambda>w. (fd_exists (h_disk w p), tc_mkdir w p))) (\<lambda>(exists, made).
     if exists then ret ()
     else (case made of
             None \<Rightarrow> raise (Runtime_error ''filesystem_error'')
           | Some False \<Rightarrow> raise (Runtime_error ''Unable to create directory'')
           | Some True \<Rightarrow> modifyp (\<lambda>w. w\<lparr>h_disk := (h_disk w)(p := (h_disk w p)\<lparr>fd_exists := True, fd_is_directory := True\<rparr>)\<rparr>)))"

text \<open>The assertion on the identifier ends the program; nothing is claimed of what follows.\<close>

definition learn_torrent :: "torrent_info \<Rightarrow> nat \<Rightarrow> ('z, unit) client" where
  "learn_torrent item h =
     bindp (getp (\<lambda>w. tc_save_path w h)) (\<lambda>handle_file_path.
     bindp (getp (\<lambda>w. handle_file_path \<notin> fst ` set (tc_to_handle w) \<and>
              handle_file_path \<notin> fst ` set (tc_unique_id_cache w))) (\<lambda>unknown.
     if unknown then
       seqp (modifyp (\<lambda>w. w\<lparr>tc_to_handle := qmap_insert handle_file_path h (tc_to_handle w)\<rparr>))
         (if gi_unique_id (ti_general item) = [] then undefinedp
          else modifyp (\<lambda>w. w\<lparr>tc_unique_id_cache :=
                 qmap_insert handle_file_path (gi_unique_id (ti_general item)) (tc_unique_id_cache w)\<rparr>))
     else ret ()))"

definition start_alert :: "torrent_info \<Rightarrow> lt_alert \<Rightarrow> ('z, unit) client" where
  "start_alert item a =
     seqp (printed (alert_message a))
       (case a of
          Add_torrent_alert h n m \<Rightarrow> seqp (learn_torrent item h) (seqp (printed n) (printed m))
        | Torrent_error_alert m \<Rightarrow> printed m
        | _ \<Rightarrow> ret ())"

definition client_startTorrentDl :: "torrent_info \<Rightarrow> ('z, unit) client" where
  "client_startTorrentDl item =
     (let g = ti_general item in
      with_warning
        (bindp (getp (read_resume (resume_file (gi_down_dest g) (gi_torrent_name g)))) (\<lambda>resume.
         seqp (ensure_directory (gi_down_dest g))
         (seqp (modifyp (\<lambda>w. w\<lparr>tc_added := tc_added w @
                   [\<lparr>atp_resume_data = resume, atp_url = gi_magnet_uri g, atp_save_path = gi_down_dest g\<rparr>]\<rparr>))
            (bindp pop_alerts (each (start_alert item)))))) ())"

section \<open>Statistics\<close>

definition resume_info :: "string \<Rightarrow> string \<Rightarrow> lt_status \<Rightarrow> int \<Rightarrow> torrent_resume_info" where
  "resume_info save_path unique_id s garbage =
     \<lparr>tr_unique_id = unique_id, tr_save_path = save_path, tr_dl_state = to_state (ls_state s),
      tr_total_uploaded = ls_all_time_upload s, tr_total_downloaded = ls_all_time_download s,
      tr_last_seen_cmplte = ls_last_seen_complete s, tr_last_scrape = ls_last_scrape s, tr_time_started = garbage,
      tr_xfer_stats = Some \<lparr>tx_dl_rate = ls_download_rate s, tx_ul_rate = ls_upload_rate s,
        tx_num_pieces_downloaded = ls_num_pieces s, tx_progress_ppm = ls_progress_ppm s, tx_cur_time = garbage\<rparr>\<rparr>"

definition recv_proc_to_stats :: "string \<Rightarrow> lt_status \<Rightarrow> ('z, unit) client" where
  "recv_proc_to_stats save_path s =
     bindp (getp (\<lambda>w. map_of (tc_unique_id_cache w) save_path)) (\<lambda>unique_id.
     case unique_id of
       None \<Rightarrow> show_box (Warning ''Unable to find Unique ID property for BitTorrent item'')
     | Some i \<Rightarrow> modifyp (\<lambda>w. w\<lparr>tc_sent := tc_sent w @ [resume_info save_path i s (w_garbage_int w)]\<rparr>))"

section \<open>The session in the background\<close>

datatype round_end = Reset | Done

definition write_resume :: "string \<Rightarrow> string \<Rightarrow> ('z, unit) client" where
  "write_resume p d = modifyp (\<lambda>w. if h_writable w p
     then w\<lparr>h_disk := (h_disk w)(p := (h_disk w p)\<lparr>fd_exists := True, fd_bytes := d\<rparr>)\<rparr> else w)"

text \<open>\<open>st->status[p]\<close> past the end of the vector is not defined.\<close>

definition state_update :: "lt_status list \<Rightarrow> ('z, unit) client" where
  "state_update status =
     bindp (getp (\<lambda>w. enumerate 0 (tc_to_handle w))) (\<lambda>handles.
     each (\<lambda>(p, _, h).
       if p < length status
       then bindp (getp (\<lambda>w. tc_save_path w h)) (\<lambda>path. recv_proc_to_stats path (status ! p))
       else undefinedp) handles)"

text \<open>The last three branches look for a message; the second branch for a finished torrent cannot be
  reached, because the first one leaves the loop.\<close>

definition leave_with :: "string \<Rightarrow> ('z, unit + round_end) client" where
  "leave_with m = (if m = [] then ret (Inl ()) else seqp (printed m) (ret (Inr Done)))"

definition session_alert :: "lt_alert \<Rightarrow> ('z, unit + round_end) client" where
  "session_alert a =
     (case a of
        Torrent_finished_alert h m \<Rightarrow>
          seqp (save_resume_data h)
          (seqp (modifyp (\<lambda>w. w\<lparr>tc_to_handle := filter (\<lambda>(p, _). p \<noteq> tc_save_path w h) (tc_to_handle w)\<rparr>))
            (ret (Inr Reset)))
      | Torrent_error_alert m \<Rightarrow> seqp (printed m) (ret (Inr Reset))
      | Save_resume_data_alert h name data m \<Rightarrow>
          bindp (getp (\<lambda>w. resume_file (tc_save_path w h) name)) (\<lambda>p. seqp (write_resume p data) (ret (Inl ())))
      | State_update_alert status m \<Rightarrow>
          if status = [] then ret (Inl ()) else seqp (state_update status) (ret (Inl ()))
      | Torrent_removed_alert m \<Rightarrow> leave_with m
      | Torrent_deleted_alert m \<Rightarrow> leave_with m
      | Torrent_paused_alert m \<Rightarrow> leave_with m
      | _ \<Rightarrow> ret (Inl ()))"

definition session_alerts :: "lt_alert list \<Rightarrow> ('z, unit + round_end) client" where
  "session_alerts alerts = for_each (\<lambda>a _. session_alert a) alerts ()"

text \<open>Behind the alerts of a turn, and one turn of the loop, from \<open>reset\<close> on: the time of the last save goes
  around, leaving is \<open>Inr\<close>.\<close>

definition after_alerts :: "int \<Rightarrow> unit + round_end \<Rightarrow> ('z, int + unit) client" where
  "after_alerts last_save_resume r =
     (case r of
       Inr Reset \<Rightarrow> ret (Inl last_save_resume)
     | Inr Done \<Rightarrow> ret (Inr ())
     | Inl () \<Rightarrow>
         seqp (modifyp (\<lambda>w. w\<lparr>tc_posts := Suc (tc_posts w)\<rparr>))
         (bindp clock_now (\<lambda>now.
          if 30000 < now - last_save_resume then
            seqp (bindp (getp tc_to_handle) (each (\<lambda>(_, h). save_resume_data h)))
              (bindp clock_now (\<lambda>now. ret (Inl now)))
          else ret (Inl last_save_resume))))"

definition session_round :: "int \<Rightarrow> ('z, int + unit) client" where
  "session_round last_save_resume =
     bindp pop_alerts (\<lambda>alerts. bindp (session_alerts alerts) (after_alerts last_save_resume))"

definition run_session_bckgrnd :: "('z, unit) client" where
  "run_session_bckgrnd =
     with_warning
       (bindp clock_now (\<lambda>last_save_resume.
        bindp (getp tc_valid) (\<lambda>valid.
        if valid then loopp session_round last_save_resume
        else raise (Runtime_error ''Unable to initialize a BitTorrent session!'')))) ()"

end
