(* ===== verification/Torrent_Client_Properties.thy ===== *)
theory Torrent_Client_Properties
  imports Torrent_Client Torrent_History
begin

text \<open>
  What the BitTorrent client keeps and what it loses: its two maps agree in every state it comes to, and
  every statistic carries the identifier of its path; the statistics are matched with the torrents by
  position only; the alerts behind a finished or failed torrent are dropped, and no such alert ever ends
  the session; resume data written are the resume data the next start passes on.
\<close>

section \<open>The invariant\<close>

definition client_ok :: "'z torrent_client_scheme \<Rightarrow> bool" where
  "client_ok w \<longleftrightarrow>
     (\<forall>(p, h) \<in> set (tc_to_handle w). tc_save_path w h = p \<and> p \<in> fst ` set (tc_unique_id_cache w)) \<and>
     (\<forall>(p, i) \<in> set (tc_unique_id_cache w). i \<noteq> []) \<and>
     (\<forall>r \<in> set (tc_sent w). map_of (tc_unique_id_cache w) (tr_save_path r) = Some (tr_unique_id r))"

definition client_kept :: "'z torrent_client_scheme \<Rightarrow> 'z torrent_client_scheme \<Rightarrow> bool" where
  "client_kept w w' \<longleftrightarrow> (client_ok w \<longrightarrow> client_ok w')"

interpretation ckf: frame client_kept
  by unfold_locales (auto simp: client_kept_def reflp_def transp_def)

named_theorems client_keeps \<open>parts of the client that keep its maps in agreement\<close>

lemma client_parts [client_keeps]:
  "preserves client_kept (printed s)" "preserves client_kept pop_alerts" "preserves client_kept clock_now"
  "preserves client_kept (save_resume_data h)" "preserves client_kept (show_box b)" "preserves client_kept (write_resume p d)"
  "preserves client_kept (modifyp (\<lambda>w. w\<lparr>tc_posts := Suc (tc_posts w)\<rparr>))"
  "preserves client_kept (modifyp (\<lambda>w. w\<lparr>tc_added := tc_added w @ xs\<rparr>))"
  "preserves client_kept (modifyp (\<lambda>w. w\<lparr>tc_to_handle := filter P (tc_to_handle w)\<rparr>))"
  "preserves client_kept (modifyp (\<lambda>w. w\<lparr>tc_to_handle := filter (\<lambda>(p, _). p \<noteq> tc_save_path w g) (tc_to_handle w)\<rparr>))"
  "preserves client_kept (modifyp (\<lambda>w. w\<lparr>h_disk := f w\<rparr>))"
  by (auto simp: preserves_def client_kept_def client_ok_def printed_def pop_alerts_def clock_now_def
    save_resume_data_def show_box_def write_resume_def)

lemma client_warning [client_keeps]: "preserves client_kept m \<Longrightarrow> preserves client_kept (with_warning m a)"
  unfolding with_warning_def by (intro ckf.keeps client_keeps)

lemma client_directory [client_keeps]: "preserves client_kept (ensure_directory p)"
proof -
  have b: "preserves client_kept (if b then m else n)" if "preserves client_kept m" "preserves client_kept n" for b
      and m n :: "('z, unit) client"
    using that by simp
  show ?thesis
    unfolding ensure_directory_def
    by (intro ckf.keeps) (auto simp: client_keeps ckf.basic split: option.split bool.split)
qed

lemma client_recv [client_keeps]: "preserves client_kept (recv_proc_to_stats p s)"
  unfolding preserves_def recv_proc_to_stats_def
  by (auto simp: client_kept_def client_ok_def show_box_def resume_info_def split: option.split)

lemma client_state_update [client_keeps]: "preserves client_kept (state_update ss)"
  unfolding state_update_def by (intro ckf.keeps client_keeps)

lemma client_session_alert [client_keeps]: "preserves client_kept (session_alert a)"
  unfolding session_alert_def leave_with_def
  by (cases a; simp only: lt_alert.case; intro ckf.keeps client_keeps)

lemma client_round [client_keeps]: "preserves client_kept (session_round t)"
proof -
  have "preserves client_kept (session_alerts as)" for as
    unfolding session_alerts_def by (intro ckf.for_each client_keeps)
  moreover have "preserves client_kept (after_alerts t r)" for r
    unfolding after_alerts_def
    by (intro ckf.keeps client_keeps ckf.sum)
      (auto split: round_end.split unit.split intro!: ckf.keeps client_keeps)
  ultimately show ?thesis
    unfolding session_round_def by (intro ckf.keeps client_keeps)
qed

text \<open>A new torrent goes into both maps or into none.\<close>

lemma client_new_torrent:
  assumes "client_ok w" and "tc_save_path w h = p" and "p \<notin> fst ` set (tc_unique_id_cache w)" and "i \<noteq> []"
  shows "client_ok (w\<lparr>tc_to_handle := qmap_insert p h (tc_to_handle w),
    tc_unique_id_cache := qmap_insert p i (tc_unique_id_cache w)\<rparr>)"
proof -
  let ?ids = "tc_unique_id_cache w"
  have keys: "fst ` set (qmap_insert p i ?ids) = insert p (fst ` set ?ids)"
    using map_of_qmap_insert [of p i ?ids] by (metis dom_fun_upd dom_map_of_conv_image_fst option.distinct(1))
  have "map_of (qmap_insert p i ?ids) q = Some j" if "map_of ?ids q = Some j" for q j
    using that assms(3) map_of_SomeD [OF that] by (force simp: map_of_qmap_insert)
  then show ?thesis
    using assms set_qmap_insert [of p h "tc_to_handle w"] set_qmap_insert [of p i ?ids]
    unfolding client_ok_def by (auto simp: keys)
qed

lemma client_learn:
  assumes "gi_unique_id (ti_general item) \<noteq> []"
  shows "preserves client_kept (learn_torrent item h)"
  unfolding preserves_def
proof
  fix w
  show "client_kept w (snd (learn_torrent item h w))"
    using assms client_new_torrent [of w h "tc_save_path w h" "gi_unique_id (ti_general item)"]
    by (simp add: learn_torrent_def client_kept_def)
qed

lemma client_start:
  assumes "gi_unique_id (ti_general item) \<noteq> []"
  shows "preserves client_kept (client_startTorrentDl item)"
proof -
  have "preserves client_kept (start_alert item a)" for a
    unfolding start_alert_def
    by (cases a; simp only: lt_alert.case; intro ckf.keeps client_keeps client_learn assms)
  then show ?thesis
    unfolding client_startTorrentDl_def Let_def by (intro ckf.keeps client_keeps)
qed

text \<open>The states of the client: torrents are started, turns of the session run, and around them the disk,
  the clocks and libtorrent go on.\<close>

inductive client_run :: "'z torrent_client_scheme \<Rightarrow> 'z torrent_client_scheme \<Rightarrow> bool" for w0 where
  started: "tc_to_handle w0 = [] \<Longrightarrow> tc_unique_id_cache w0 = [] \<Longrightarrow> tc_sent w0 = [] \<Longrightarrow> client_run w0 w0"
| torrent: "client_run w0 w \<Longrightarrow> gi_unique_id (ti_general item) \<noteq> [] \<Longrightarrow>
    client_startTorrentDl item w = (Ok (), w') \<Longrightarrow> client_run w0 w'"
| turn: "client_run w0 w \<Longrightarrow> session_round t w = (Ok r, w') \<Longrightarrow> client_run w0 w'"
| around: "client_run w0 w \<Longrightarrow> tc_to_handle w' = tc_to_handle w \<Longrightarrow> tc_unique_id_cache w' = tc_unique_id_cache w \<Longrightarrow>
    tc_sent w' = tc_sent w \<Longrightarrow> tc_save_path w' = tc_save_path w \<Longrightarrow> client_run w0 w'"

lemma client_run_ok: "client_run w0 w \<Longrightarrow> client_ok w"
proof (induction rule: client_run.induct)
  case (torrent w item w')
  then show ?case using preservesD [OF client_start] by (auto simp: client_kept_def)
next
  case (turn w t r w')
  then show ?case using preservesD [OF client_round] by (auto simp: client_kept_def)
qed (auto simp: client_ok_def)

section \<open>Statistics by position\<close>

definition position_stats :: "'z torrent_client_scheme \<Rightarrow> (string \<times> nat) list \<Rightarrow> lt_status list \<Rightarrow> torrent_resume_info list" where
  "position_stats w handles status =
     map (\<lambda>((p, h), s). resume_info p (the (map_of (tc_unique_id_cache w) p)) s (w_garbage_int w)) (zip handles status)"

lemma state_update_from:
  "\<forall>(p, h) \<in> set hs. tc_save_path w h = p \<and> p \<in> fst ` set (tc_unique_id_cache w) \<Longrightarrow> k \<le> length status \<Longrightarrow>
   each (\<lambda>(p, _, h). if p < length status
       then bindp (getp (\<lambda>w. tc_save_path w h)) (\<lambda>path. recv_proc_to_stats path (status ! p))
       else undefinedp) (enumerate k hs) w =
     (if k + length hs \<le> length status then Ok () else Undefined,
      w\<lparr>tc_sent := tc_sent w @ position_stats w hs (drop k status)\<rparr>)"
proof (induction hs arbitrary: k w)
  case Nil
  then show ?case by (simp add: position_stats_def)
next
  case (Cons ph hs)
  obtain p h where ph: "ph = (p, h)" by (cases ph)
  have p: "tc_save_path w h = p" "p \<in> fst ` set (tc_unique_id_cache w)" using Cons.prems(1) by (auto simp: ph)
  then obtain i where i: "map_of (tc_unique_id_cache w) p = Some i" by (meson domD domIff map_of_eq_None_iff)
  show ?case
  proof (cases "k < length status")
    case True
    let ?w = "w\<lparr>tc_sent := tc_sent w @ [resume_info p i (status ! k) (w_garbage_int w)]\<rparr>"
    have "recv_proc_to_stats p (status ! k) w = (Ok (), ?w)" using i by (simp add: recv_proc_to_stats_def)
    moreover have "position_stats ?w hs ss = position_stats w hs ss" for ss by (simp add: position_stats_def)
    moreover have "position_stats w (ph # hs) (drop k status) =
        resume_info p i (status ! k) (w_garbage_int w) # position_stats w hs (drop (Suc k) status)"
      using i Cons_nth_drop_Suc [OF True, symmetric] by (simp add: position_stats_def ph)
    ultimately show ?thesis
      using True p Cons.IH [of ?w "Suc k"] Cons.prems(1) by (simp add: ph seqp_Ok)
  next
    case False
    then show ?thesis by (simp add: ph seqp_Undefined position_stats_def)
  qed
qed

lemma state_update_run:
  assumes "client_ok w" and "status \<noteq> []"
  shows "session_alert (State_update_alert status m) w =
    (if length (tc_to_handle w) \<le> length status then Ok (Inl ()) else Undefined,
     w\<lparr>tc_sent := tc_sent w @ position_stats w (tc_to_handle w) status\<rparr>)"
proof -
  have "\<forall>(p, h) \<in> set (tc_to_handle w). tc_save_path w h = p \<and> p \<in> fst ` set (tc_unique_id_cache w)"
    using assms(1) by (simp add: client_ok_def)
  from state_update_from [OF this, of 0 status] show ?thesis
    using assms(2) by (simp add: session_alert_def state_update_def seqp_Ok seqp_Undefined)
qed

section \<open>What ends the session\<close>

fun leaves :: "lt_alert \<Rightarrow> bool" where
  "leaves (Torrent_removed_alert m) = (m \<noteq> [])"
| "leaves (Torrent_deleted_alert m) = (m \<noteq> [])"
| "leaves (Torrent_paused_alert m) = (m \<noteq> [])"
| "leaves _ = False"

lemma loop_opt_undefined:
  assumes step: "\<And>x s. K s \<Longrightarrow> (\<exists>y s'. step x s = (Ok (Inl y), s') \<and> K s') \<or> (\<exists>s'. step x s = (Undefined, s'))"
    and "loop_opt step x s = Some rs" and "K s"
  shows "fst rs = Undefined"
proof -
  have "step = step \<and> K s \<longrightarrow> fst rs = Undefined"
  proof (rule loop_opt.raw_induct [where xa = "((step, x), s)" and y = rs
        and P = "\<lambda>st x s rs. st = step \<and> K s \<longrightarrow> fst rs = Undefined", simplified prod.case])
    fix f st y t rs
    assume IH: "\<And>st y t rs. f st y t = Some rs \<Longrightarrow> st = step \<and> K t \<longrightarrow> fst rs = Undefined"
      and body: "(case st y t of (Ok (Inl y), t') \<Rightarrow> f st y t' | (Ok (Inr a), t') \<Rightarrow> Some (Ok a, t')
        | (Throw e, t') \<Rightarrow> Some (Throw e, t') | (Hang, t') \<Rightarrow> Some (Hang, t')
        | (Undefined, t') \<Rightarrow> Some (Undefined, t')) = Some rs"
    show "st = step \<and> K t \<longrightarrow> fst rs = Undefined"
      using step [of t y] body IH by (cases rs) force
  qed (rule assms(2))
  then show ?thesis using assms(3) by simp
qed

text \<open>A turn of the session without an alert that leaves goes on, or reads past the end of the statistics.\<close>

definition calm :: "'z torrent_client_scheme \<Rightarrow> bool" where
  "calm w \<longleftrightarrow> (\<forall>n. \<forall>a \<in> set (tc_alerts w n). \<not> leaves a)"

definition ongoing :: "('z, 'a) client \<Rightarrow> ('a \<Rightarrow> bool) \<Rightarrow> bool" where
  "ongoing m P \<longleftrightarrow> (\<forall>w. tc_alerts (snd (m w)) = tc_alerts w \<and>
     (fst (m w) = Undefined \<or> (\<exists>a. fst (m w) = Ok a \<and> P a)))"

lemma ongoing_ret: "P a \<Longrightarrow> ongoing (ret a) P"
  by (simp add: ongoing_def)

lemma ongoing_undefined: "ongoing undefinedp P"
  by (simp add: ongoing_def)

lemma ongoing_modify: "(\<And>w. tc_alerts (h w) = tc_alerts w) \<Longrightarrow> ongoing (modifyp h) (\<lambda>_. True)"
  by (simp add: ongoing_def)

lemma ongoing_get: "(\<And>a. ongoing (f a) P) \<Longrightarrow> ongoing (bindp (getp g) f) P"
  by (simp add: ongoing_def)

lemma ongoing_bind: "ongoing m P \<Longrightarrow> (\<And>a. P a \<Longrightarrow> ongoing (f a) Q) \<Longrightarrow> ongoing (bindp m f) Q"
  unfolding ongoing_def bindp_def by (auto split: prod.splits outcome.splits) (metis fst_conv snd_conv outcome.distinct outcome.inject)+

lemma ongoing_seq: "ongoing m P \<Longrightarrow> ongoing n Q \<Longrightarrow> ongoing (seqp m n) Q"
  unfolding seqp_def by (rule ongoing_bind)

lemma ongoing_each: "(\<And>x. ongoing (f x) (\<lambda>_. True)) \<Longrightarrow> ongoing (each f xs) (\<lambda>_. True)"
  by (induction xs) (auto intro: ongoing_ret ongoing_seq)

lemma ongoing_option: "ongoing m P \<Longrightarrow> (\<And>a. ongoing (f a) P) \<Longrightarrow> ongoing (case x of None \<Rightarrow> m | Some a \<Rightarrow> f a) P"
  by (simp split: option.split)

lemma ongoing_parts:
  "ongoing (printed m) (\<lambda>_. True)" "ongoing (save_resume_data h) (\<lambda>_. True)" "ongoing clock_now (\<lambda>_. True)"
  "ongoing (write_resume p d) (\<lambda>_. True)" "ongoing (recv_proc_to_stats p s) (\<lambda>_. True)"
  "ongoing (state_update ss) (\<lambda>_. True)"
proof -
  show "ongoing (printed m) (\<lambda>_. True)" "ongoing (save_resume_data h) (\<lambda>_. True)" "ongoing clock_now (\<lambda>_. True)"
    "ongoing (write_resume p d) (\<lambda>_. True)"
    by (simp_all add: ongoing_def printed_def save_resume_data_def clock_now_def write_resume_def)
  show r: "ongoing (recv_proc_to_stats p s) (\<lambda>_. True)" for p s
    by (simp add: ongoing_def recv_proc_to_stats_def show_box_def split: option.split)
  have "ongoing (each (\<lambda>(p, _, h). if p < length ss
      then bindp (getp (\<lambda>w. tc_save_path w h)) (\<lambda>path. recv_proc_to_stats path (ss ! p)) else undefinedp) hs) (\<lambda>_. True)" for hs
    by (rule ongoing_each) (auto intro!: ongoing_get r ongoing_undefined)
  then show "ongoing (state_update ss) (\<lambda>_. True)"
    unfolding state_update_def by (rule ongoing_get)
qed

lemma ongoing_alert: "\<not> leaves a \<Longrightarrow> ongoing (session_alert a) (\<lambda>r. r \<noteq> Inr Done)"
proof (cases a)
  case (Save_resume_data_alert h n d m)
  then show ?thesis by (simp add: session_alert_def ongoing_def write_resume_def)
next
  case (State_update_alert ss m)
  then show ?thesis
    unfolding session_alert_def State_update_alert lt_alert.case
    by (auto intro!: ongoing_ret ongoing_seq [OF ongoing_parts(6)] simp del: ret_run)
qed (simp_all add: session_alert_def leave_with_def ongoing_def save_resume_data_def printed_def)

lemma ongoing_alerts: "\<forall>a \<in> set as. \<not> leaves a \<Longrightarrow> ongoing (session_alerts as) (\<lambda>r. r \<noteq> Inr Done)"
proof -
  have "ongoing (for_each (\<lambda>a _. session_alert a) as () :: ('z, unit + round_end) client) (\<lambda>r. r \<noteq> Inr Done)" if "\<forall>a \<in> set as. \<not> leaves a"
    using that
  proof (induction as)
    case Nil
    then show ?case unfolding for_each.simps by (intro ongoing_ret) simp
  next
    case (Cons a as)
    have "ongoing ((case r of Inl a' \<Rightarrow> for_each (\<lambda>a _. session_alert a) as a' | Inr b \<Rightarrow> ret (Inr b)) :: ('z, unit + round_end) client)
        (\<lambda>r. r \<noteq> Inr Done)"
      if "r \<noteq> Inr Done" for r using that Cons by (cases r) (auto intro: ongoing_ret simp del: ret_run)
    moreover have "ongoing (session_alert a) (\<lambda>r. r \<noteq> Inr Done)" using Cons.prems by (intro ongoing_alert) simp
    ultimately show ?case by (auto intro: ongoing_bind)
  qed
  then show "\<forall>a \<in> set as. \<not> leaves a \<Longrightarrow> ongoing (session_alerts as) (\<lambda>r. r \<noteq> Inr Done)"
    by (simp add: session_alerts_def)
qed

lemma ongoing_after: "r \<noteq> Inr Done \<Longrightarrow> ongoing (after_alerts t r) isl"
proof -
  have saves: "ongoing (bindp (getp tc_to_handle) (each (\<lambda>(_, h). save_resume_data h))) (\<lambda>_. True)"
    by (rule ongoing_get, rule ongoing_each) (auto intro: ongoing_parts(2))
  assume "r \<noteq> Inr Done"
  then show ?thesis
    unfolding after_alerts_def
    by (auto split: sum.split round_end.split unit.split
        intro!: ongoing_ret ongoing_seq [OF ongoing_modify] ongoing_seq [OF saves] ongoing_bind [OF ongoing_parts(3)])
qed

lemma round_goes_on:
  fixes w :: "'z torrent_client_scheme"
  assumes "calm w"
  shows "(\<exists>y w'. session_round t w = (Ok (Inl y), w') \<and> calm w') \<or> (\<exists>w'. session_round t w = (Undefined, w'))"
proof -
  let ?m = "bindp (session_alerts (tc_alerts w (tc_pops w))) (after_alerts t) :: ('z, int + unit) client"
  have "ongoing ?m isl"
    using assms by (intro ongoing_bind [OF ongoing_alerts ongoing_after]) (auto simp: calm_def)
  moreover have "session_round t w = ?m (w\<lparr>tc_pops := Suc (tc_pops w)\<rparr>)"
    unfolding session_round_def by (rule bindp_Ok) (simp add: pop_alerts_def)
  ultimately have "tc_alerts (snd (session_round t w)) = tc_alerts w \<and>
      (fst (session_round t w) = Undefined \<or> (\<exists>a. fst (session_round t w) = Ok a \<and> isl a))"
    unfolding ongoing_def by simp
  then show ?thesis using assms by (cases "session_round t w") (auto simp: calm_def isl_def)
qed

lemma session_stays:
  assumes "calm w" and "tc_valid w"
  shows "fst (run_session_bckgrnd w) = Hang \<or> fst (run_session_bckgrnd w) = Undefined"
proof -
  let ?w = "w\<lparr>tc_clock_reads := Suc (tc_clock_reads w)\<rparr>"
  have "calm ?w" using assms(1) by (simp add: calm_def)
  from loop_opt_undefined [of calm session_round, OF round_goes_on _ this]
  have l: "fst (loopp session_round t ?w) \<in> {Hang, Undefined}" for t
    by (auto simp: loopp_def split: option.split)
  have "run_session_bckgrnd w = with_warning (loopp session_round (tc_clock w (tc_clock_reads w))) () ?w"
    using assms(2) by (simp add: run_session_bckgrnd_def with_warning_def catchp_def bindp_def clock_now_def)
  then show ?thesis
    using l [of "tc_clock w (tc_clock_reads w)"]
    by (cases "loopp session_round (tc_clock w (tc_clock_reads w)) ?w") (auto simp: with_warning_def catchp_def)
qed

section \<open>Resume data\<close>

lemma start_alert_runs:
  assumes "gi_unique_id (ti_general item) \<noteq> []"
  shows "\<exists>w'. start_alert item a w = (Ok (), w') \<and> tc_added w' = tc_added w"
  using assms by (cases a) (simp_all add: start_alert_def printed_def learn_torrent_def seqp_def bindp_def)

lemma start_alerts_run:
  assumes "gi_unique_id (ti_general item) \<noteq> []"
  shows "\<exists>w'. each (start_alert item) as w = (Ok (), w') \<and> tc_added w' = tc_added w"
proof (induction as arbitrary: w)
  case (Cons a as)
  obtain w1 where "start_alert item a w = (Ok (), w1)" "tc_added w1 = tc_added w"
    using start_alert_runs [OF assms] by blast
  with Cons.IH [of w1] show ?case by (auto simp: seqp_Ok)
qed simp

lemma start_torrent_run:
  assumes "gi_unique_id (ti_general item) \<noteq> []" and "fd_exists (h_disk w (gi_down_dest (ti_general item)))"
  shows "\<exists>w'. client_startTorrentDl item w = (Ok (), w') \<and> tc_added w' = tc_added w @
    [\<lparr>atp_resume_data = read_resume (resume_file (gi_down_dest (ti_general item)) (gi_torrent_name (ti_general item))) w,
      atp_url = gi_magnet_uri (ti_general item), atp_save_path = gi_down_dest (ti_general item)\<rparr>]"
proof -
  let ?g = "ti_general item"
  let ?atp = "\<lparr>atp_resume_data = read_resume (resume_file (gi_down_dest ?g) (gi_torrent_name ?g)) w,
      atp_url = gi_magnet_uri ?g, atp_save_path = gi_down_dest ?g\<rparr>"
  let ?w = "w\<lparr>tc_added := tc_added w @ [?atp], tc_pops := Suc (tc_pops w)\<rparr>"
  obtain w1 where w1: "each (start_alert item) (tc_alerts w (tc_pops w)) ?w = (Ok (), w1)" "tc_added w1 = tc_added w @ [?atp]"
    using start_alerts_run [OF assms(1), of "tc_alerts w (tc_pops w)" ?w] by auto
  have "client_startTorrentDl item w = (Ok (), w1)"
    unfolding client_startTorrentDl_def Let_def
    by (rule with_warning_Ok)
      (use assms(2) w1 in \<open>simp add: ensure_directory_def bindp_Ok seqp_Ok pop_alerts_def bindp_def seqp_def\<close>)
  with w1(2) show ?thesis by blast
qed

section \<open>A concrete client\<close>

definition sample_client :: "(nat \<Rightarrow> lt_alert list) \<Rightarrow> torrent_client" where
  "sample_client alerts =
     \<lparr>w_kv = (\<lambda>_. None), w_db_ok = (\<lambda>_. True), w_db_calls = 0,
      w_csv = \<lparr>st_rows_parsed = 0, st_ret_parsed_cols = 0, st_proc_cols = []\<rparr>,
      w_random = (\<lambda>n. n), w_drawn = 0, w_bucket_order = (\<lambda>ks. ks), w_boxes = [],
      w_held = (\<lambda>_. False), w_now = 7, w_garbage = False, w_garbage_int = 0,
      h_disk = (\<lambda>p. \<lparr>fd_exists = True, fd_is_directory = False, fd_opens = True, fd_bytes = []\<rparr>), h_writable = (\<lambda>_. True),
      h_garbage_double = NaN,
      tc_to_handle = [], tc_unique_id_cache = [], tc_valid = True,
      tc_save_path = (\<lambda>h. if h = 0 then ''/home/u/disc'' else ''/home/u/other''), tc_alerts = alerts, tc_pops = 0,
      tc_clock = int, tc_clock_reads = 0, tc_mkdir = (\<lambda>_. Some True), tc_added = [], tc_saves = [], tc_posts = 0,
      tc_printed = [], tc_sent = []\<rparr>"

definition sample_status :: "int \<Rightarrow> lt_status" where
  "sample_status n = \<lparr>ls_state = Lt_downloading, ls_progress_ppm = n, ls_upload_rate = 1, ls_download_rate = 2, ls_num_pieces = 3,
     ls_last_seen_complete = 0, ls_last_scrape = 0, ls_all_time_download = 4, ls_all_time_upload = 5\<rparr>"

section \<open>Properties\<close>

text \<open>C14: In every state the BitTorrent client comes to, by starting torrents that have identifiers and by turns of
  the session: a handle is kept under its own save path, every path with a handle has an identifier that is
  not empty, and every statistic that was sent carries the identifier its save path has.\<close>

theorem client_books:
  assumes "client_run w0 w"
  shows "(\<forall>(p, h) \<in> set (tc_to_handle w). tc_save_path w h = p \<and> (\<exists>i. map_of (tc_unique_id_cache w) p = Some i \<and> i \<noteq> [])) \<and>
    (\<forall>r \<in> set (tc_sent w). map_of (tc_unique_id_cache w) (tr_save_path r) = Some (tr_unique_id r))"
proof -
  have ok: "client_ok w" using client_run_ok [OF assms] .
  have "\<exists>i. map_of (tc_unique_id_cache w) p = Some i \<and> i \<noteq> []" if "p \<in> fst ` set (tc_unique_id_cache w)" for p
  proof -
    have "map_of (tc_unique_id_cache w) p \<noteq> None" using that by (simp add: map_of_eq_None_iff)
    then obtain i where "map_of (tc_unique_id_cache w) p = Some i" by blast
    then show ?thesis using ok map_of_SomeD [of "tc_unique_id_cache w" p i] unfolding client_ok_def by blast
  qed
  with ok show ?thesis unfolding client_ok_def by fastforce
qed

text \<open>C31: An update of the session is matched with the torrents by position: the first torrent in the order of
  the save paths is reported with the first status, whichever torrent the status is of, and so on; when
  libtorrent reports fewer torrents than the client knows, reading the next status is undefined.\<close>

theorem state_update_by_position:
  assumes "client_run w0 w" and "status \<noteq> []"
  shows "session_alert (State_update_alert status m) w =
    (if length (tc_to_handle w) \<le> length status then Ok (Inl ()) else Undefined,
     w\<lparr>tc_sent := tc_sent w @ map (\<lambda>((p, h), s).
       resume_info p (the (map_of (tc_unique_id_cache w) p)) s (w_garbage_int w)) (zip (tc_to_handle w) status)\<rparr>)"
  using state_update_run [OF client_run_ok [OF assms(1)] assms(2)] by (simp add: position_stats_def)

text \<open>C23: A session in which no torrent is removed, deleted or paused never returns, however many torrents finish
  or fail: it goes on for ever, or reads past the end of the statistics.\<close>

theorem session_never_returns:
  assumes "tc_valid w" and "\<And>n a. a \<in> set (tc_alerts w n) \<Longrightarrow> \<not> leaves a"
  shows "fst (run_session_bckgrnd w) = Hang \<or> fst (run_session_bckgrnd w) = Undefined"
  using session_stays assms by (auto simp: calm_def)

text \<open>C24: Resume data come back: when libtorrent hands out the resume data of a torrent and its file can be written
  and read, the next start of the item with that destination and name passes exactly these bytes on, with
  the item's address and destination.\<close>

theorem resume_data_roundtrip:
  assumes "tc_save_path w h = gi_down_dest (ti_general item)" and "gi_unique_id (ti_general item) \<noteq> []"
    and "fd_exists (h_disk w (gi_down_dest (ti_general item)))"
    and "p = resume_file (gi_down_dest (ti_general item)) (gi_torrent_name (ti_general item))"
    and "h_writable w p" and "\<not> fd_is_directory (h_disk w p)" and "fd_opens (h_disk w p)"
  shows "\<exists>w1 w2. session_alert (Save_resume_data_alert h (gi_torrent_name (ti_general item)) data m) w = (Ok (Inl ()), w1) \<and>
    client_startTorrentDl item w1 = (Ok (), w2) \<and>
    tc_added w2 = tc_added w @ [\<lparr>atp_resume_data = data, atp_url = gi_magnet_uri (ti_general item),
      atp_save_path = gi_down_dest (ti_general item)\<rparr>]"
proof -
  let ?w = "w\<lparr>h_disk := (h_disk w)(p := (h_disk w p)\<lparr>fd_exists := True, fd_bytes := data\<rparr>)\<rparr>"
  have run: "session_alert (Save_resume_data_alert h (gi_torrent_name (ti_general item)) data m) w = (Ok (Inl ()), ?w)"
    using assms by (simp add: session_alert_def write_resume_def)
  have "gi_down_dest (ti_general item) \<noteq> p" by (simp add: assms(4) resume_file_def RESUME_FILE_EXT_def)
  then have "fd_exists (h_disk ?w (gi_down_dest (ti_general item)))" using assms(3) by simp
  moreover have "read_resume p ?w = data" using assms(6,7) by (simp add: read_resume_def Let_def)
  ultimately show ?thesis
    using run start_torrent_run [OF assms(2), of ?w] by (auto simp: assms(4) [symmetric])
qed

text \<open>The client after one torrent was started and libtorrent said that it was added.\<close>

abbreviation first_alerts :: "lt_alert list \<Rightarrow> nat \<Rightarrow> lt_alert list" where
  "first_alerts as n \<equiv> (if n = 0 then [Add_torrent_alert 0 ''disc'' ''added''] else if n = 1 then as else [])"

lemma sample_client_started:
  "\<exists>w. client_run (sample_client (first_alerts as)) w \<and> tc_to_handle w = [(''/home/u/disc'', 0)] \<and>
     tc_unique_id_cache w = [(''/home/u/disc'', ''0123456789'')] \<and> tc_sent w = [] \<and> w_garbage_int w = 0 \<and>
     tc_alerts w = first_alerts as \<and> tc_pops w = 1"
proof -
  have s: "client_run (sample_client (first_alerts as)) (sample_client (first_alerts as))"
    by (rule client_run.started) (simp_all add: sample_client_def)
  have i: "gi_unique_id (ti_general sample_torrent) \<noteq> []" by (simp add: sample_torrent_def)
  let ?r = "client_startTorrentDl sample_torrent (sample_client (first_alerts as))"
  have r: "fst ?r = Ok () \<and> tc_to_handle (snd ?r) = [(''/home/u/disc'', 0)] \<and>
     tc_unique_id_cache (snd ?r) = [(''/home/u/disc'', ''0123456789'')] \<and> tc_sent (snd ?r) = [] \<and> w_garbage_int (snd ?r) = 0 \<and>
     tc_alerts (snd ?r) = first_alerts as \<and> tc_pops (snd ?r) = 1"
    by (simp add: client_startTorrentDl_def sample_torrent_def sample_client_def with_warning_def catchp_def
        ensure_directory_def pop_alerts_def start_alert_def learn_torrent_def printed_def bindp_def seqp_def Let_def)
  then have "?r = (Ok (), snd ?r)" by (simp add: prod_eq_iff)
  from client_run.torrent [OF s i this] r show ?thesis by blast
qed

theorem client_books_witness:
  "\<exists>w. client_run (sample_client (first_alerts [])) w \<and>
     (\<exists>i. map_of (tc_unique_id_cache w) ''/home/u/disc'' = Some i \<and> i \<noteq> []) \<and> tc_save_path w 0 = ''/home/u/disc''"
proof -
  obtain w where w: "client_run (sample_client (first_alerts [])) w" "tc_to_handle w = [(''/home/u/disc'', 0)]"
    using sample_client_started by blast
  from client_books [OF w(1)] w show ?thesis by auto
qed

theorem state_update_by_position_witness:
  "\<exists>w w'. client_run (sample_client (first_alerts [])) w \<and>
     session_alert (State_update_alert [sample_status 11, sample_status 22] ''m'') w = (Ok (Inl ()), w') \<and>
     map tr_unique_id (tc_sent w') = [''0123456789''] \<and>
     map (map_option tx_progress_ppm \<circ> tr_xfer_stats) (tc_sent w') = [Some 11]"
proof -
  obtain w where w: "client_run (sample_client (first_alerts [])) w" "tc_to_handle w = [(''/home/u/disc'', 0)]"
    "tc_unique_id_cache w = [(''/home/u/disc'', ''0123456789'')]" "tc_sent w = []"
    using sample_client_started by blast
  define w' where "w' = snd (session_alert (State_update_alert [sample_status 11, sample_status 22] ''m'') w)"
  have "session_alert (State_update_alert [sample_status 11, sample_status 22] ''m'') w = (Ok (Inl ()), w')"
    and "tc_sent w' = [resume_info ''/home/u/disc'' ''0123456789'' (sample_status 11) (w_garbage_int w)]"
    using state_update_by_position [OF w(1), of "[sample_status 11, sample_status 22]" "''m''"] w(2-4) by (simp_all add: w'_def)
  then show ?thesis
    by (intro exI [of _ w] exI [of _ w'] conjI w(1)) (simp_all add: resume_info_def sample_status_def)
qed

theorem session_never_returns_witness:
  "fst (run_session_bckgrnd (sample_client (\<lambda>n. [Torrent_finished_alert 0 ''done'']))) = Hang \<or>
   fst (run_session_bckgrnd (sample_client (\<lambda>n. [Torrent_finished_alert 0 ''done'']))) = Undefined"
  using session_never_returns [of "sample_client (\<lambda>n. [Torrent_finished_alert 0 ''done''])"]
  by (simp add: sample_client_def)

theorem resume_data_roundtrip_witness:
  "\<exists>w1 w2. session_alert (Save_resume_data_alert 0 ''disc'' ''resume'' ''m'') (sample_client (\<lambda>_. [])) = (Ok (Inl ()), w1) \<and>
     client_startTorrentDl sample_torrent w1 = (Ok (), w2) \<and> map atp_resume_data (tc_added w2) = [''resume'']"
proof -
  have "gi_torrent_name (ti_general sample_torrent) = ''disc''" "gi_down_dest (ti_general sample_torrent) = ''/home/u/disc''"
    by (simp_all add: sample_torrent_def)
  with resume_data_roundtrip [of "sample_client (\<lambda>_. [])" 0 sample_torrent "''/home/u/discdisc.fyredl''" "''resume''" "''m''"]
  show ?thesis by (auto simp: sample_client_def sample_torrent_def resume_file_def RESUME_FILE_EXT_def)
qed

text \<open>The alerts behind a finished or failed torrent are not looked at.\<close>

lemma for_each_stops:
  assumes "\<And>x v. \<exists>b v'. f a x v = (Ok (Inr b), v')"
  shows "for_each f (pre @ a # rest) x w = for_each f (pre @ [a]) x w"
proof (induction pre arbitrary: x w)
  case Nil
  obtain b v' where "f a x w = (Ok (Inr b), v')" using assms by blast
  then show ?case by (simp add: bindp_Ok)
next
  case (Cons p pre)
  then show ?case by (auto simp: bindp_def split: prod.splits outcome.splits sum.splits)
qed

lemma alerts_behind_dropped:
  assumes "a = Torrent_finished_alert h m \<or> a = Torrent_error_alert m"
  shows "session_alerts (pre @ a # rest) w = session_alerts (pre @ [a]) w"
  unfolding session_alerts_def
  by (rule for_each_stops) (use assms in \<open>auto simp: session_alert_def save_resume_data_def printed_def\<close>)

end
