(* ===== verification/Fast_Csv_Properties.thy ===== *)
theory Fast_Csv_Properties
  imports Fast_Csv_Table
begin

text \<open>
  What the bundled CSV reader promises and where it fails: its lines and its table are those of the text, for
  every length of a block; but a line feed left over behind the end of a file that does not end with one,
  and an empty first column at the beginning of the buffer, lead to reads that have no defined behaviour.
\<close>

section \<open>A line feed left over\<close>

lemma stale_line_feed:
  fixes r :: "'z line_reader_scheme"
  assumes "lr_data_begin r < lr_data_end r" and "lr_data_end r \<le> 2 * block" and "lr_data_begin r < block"
    and "lr_data_end r - lr_data_begin r < block" and "lr_buffer r (lr_data_end r) = LF"
    and "\<forall>i. lr_data_begin r \<le> i \<and> i < lr_data_end r \<longrightarrow> lr_buffer r i \<noteq> LF"
  shows "\<exists>r'. next_line block r = (Ok (Some (lr_data_begin r)), r') \<and> fst (next_line block r') = Undefined"
proof -
  let ?b = "lr_data_begin r" and ?e = "lr_data_end r" and ?buf = "lr_buffer r"
  have all: "takeWhile (\<lambda>c. c \<noteq> LF) (map ?buf [?b..<?e]) = map ?buf [?b..<?e]"
    unfolding takeWhile_eq_all_conv using assms(6) by auto
  have line_end: "find_line_end ?buf ?e ?b = ?e"
    unfolding find_line_end_takeWhile [OF less_imp_le [OF assms(1)]] all using assms(1) by simp
  define buf1 where "buf1 = ?buf(?e := NUL)"
  define buf2 where "buf2 = (if buf1 (?e - 1) = CR then buf1(?e - 1 := NUL) else buf1)"
  let ?r = "r\<lparr>lr_file_line := lr_file_line r + 1, lr_buffer := buf2, lr_data_begin := Suc ?e, lr_data_end := ?e\<rparr> :: 'z line_reader_scheme"
  have "take_line block (r\<lparr>lr_file_line := lr_file_line r + 1\<rparr>) = (Ok ?b, ?r)"
    using assms(1,4,5) line_end by (simp add: take_line_def Let_def buf1_def buf2_def)
  then have "next_line block r = (Ok (Some ?b), ?r)"
    using assms(1-3) by (simp add: next_line_def shift_blocks_def seqp_def bindp_def)
  moreover have "fst (next_line block ?r) = Undefined" by (simp add: next_line_def)
  ultimately show ?thesis by blast
qed

section \<open>An empty first column\<close>

lemma loopp_undefined: "step x s = (Undefined, s') \<Longrightarrow> loopp step x s = (Undefined, s')"
  unfolding loopp_def by (subst loop_opt.simps) simp

lemma empty_column_at_zero:
  fixes r :: "'z line_reader_scheme"
  assumes "str_at (lr_buffer r) 0 s" and "length s < n" and "hd (columns s) = []"
  shows "\<exists>v. header_step n policy names (Some 0, found, order) r = (Undefined, v)"
proof -
  have t: "trim 0 0 v = (Undefined, v)" for v :: "'z line_reader_scheme"
    by (simp add: trim_def trim_begin.simps [of _ 0 0] trim_end.simps [of _ 0 0])
  have "\<exists>nx v. chop_next_column n 0 r = (Ok (0, 0, nx), v)"
  proof (cases rule: columns_cases [of s])
    case last
    then have "s = []" using assms(3) by simp
    then show ?thesis using chop_last [of r 0 s n] assms(1,2) by auto
  next
    case (more c t)
    then have "c = []" using assms(3) by simp
    then show ?thesis using chop_more(1) [of r 0 c t n] assms(1,2) more by auto
  qed
  then show ?thesis by (auto simp: header_step_def bindp_Ok bindp_Undefined t)
qed

lemma empty_first_column_undefined:
  assumes "2 \<le> block" and "ends_well block heap text" and "without_bom text = text" and "text \<noteq> []"
    and "length (getline_head LF text) < block" and "hd (columns (c_line (getline_head LF text))) = []"
  shows "csv_file_table block heap text = Undefined"
proof -
  let ?names = URL_ADD_CSV_FIELDS and ?l = "c_line (getline_head LF text)"
  define r :: fast_csv where "r = (csv_reader_init 3 block heap text)\<lparr>fc_column_names := ?names\<rparr>"
  note i = init_csv [OF assms(1,2)]
  have "holds block r text \<longleftrightarrow> holds block (csv_reader_init 3 block heap text) text" unfolding holds_def r_def by simp
  then have h: "holds block r text" using i(1) assms(3) by simp
  have zero: "lr_data_begin r = 0" by (simp add: r_def i(2) assms(3))
  have pos: "0 < block" using assms(1) by simp
  from next_line_holds [OF h assms(4) pos, unfolded if_P [OF assms(5)]] zero obtain v
    where n: "next_line block r = (Ok (Some 0), v)" "str_at (lr_buffer v) 0 ?l" by auto
  have "length ?l < 3 * block" using c_line_length [of "getline_head LF text"] assms(5) by linarith
  then obtain u where "header_step (3 * block) ignore_missing_column (fc_column_names v)
      (Some 0, replicate (length (fc_column_names v)) False, []) v = (Undefined, u)"
    using empty_column_at_zero [OF n(2) _ assms(6)] by blast
  then have "parse_header_line (3 * block) ignore_missing_column 0 v = (Undefined, u)"
    by (simp add: parse_header_line_def bindp_Undefined loopp_undefined)
  then have "read_header block ignore_missing_column ?names (csv_reader_init 3 block heap text) = (Undefined, u)"
    using n(1) by (simp add: read_header_def r_def bindp_Ok)
  then show ?thesis by (simp add: csv_file_table_def)
qed

section \<open>Properties\<close>

text \<open>C10: Reading through the double buffer gives the lines of the file: for every length of a block, whatever the
  memory held before, \<open>LineReader\<close> gives the text between the line feeds, without a byte order mark in front
  and a carriage return at the end, each line once and in order; a line that does not fit into a block ends
  the reading with its number. It never waits for a thread that has ended.\<close>

theorem line_reader_lines:
  assumes "2 \<le> block" and "ends_well block heap text" and "lines = getlines LF (without_bom text)"
  shows "fst (read_lines block (line_reader_init block heap text)) =
    (if \<forall>l \<in> set lines. length l < block then Ok (map c_line lines)
     else Throw (Io_error ''line_length_limit_exceeded'' (line_number (Suc (length (takeWhile (\<lambda>l. length l < block) lines))))))"
proof -
  have "lr_file_line (line_reader_init block heap text) = of_nat 0" by (simp add: line_reader_init_def Let_def)
  then show ?thesis
    using lines_run [OF init_holds(1) [OF assms(1,2)], of 0 "[]"] assms(1) by (simp add: read_lines_def lines_outcome_def assms(3))
qed

text \<open>C11: The table that the dialogue gets from a file is the one a reader without a buffer would give: the header
  names the columns in any order, an unknown or doubled name is refused, a row has a cell for each of them,
  trimmed, and the empty text for each column that is not there, and the first row with another number of
  cells ends the reading with its line number.\<close>

theorem csv_file_table_spec:
  assumes "2 \<le> block" and "ends_well block heap text" and "lines = getlines LF (without_bom text)"
    and "\<forall>l \<in> set lines. length l < block" and "edges_ok block (length text - length (without_bom text)) lines"
  shows "csv_file_table block heap text = csv_spec text"
  by (rule csv_file_table_run [OF assms])

text \<open>C36: A line feed that an earlier block left behind the end of the file is taken for the end of the last line:
  the line is still given, but the reader does not see the end of the file, and the next call reads on behind
  it (an \<open>assert\<close> says that this cannot be).\<close>

theorem line_feed_left_over:
  fixes r :: "'z line_reader_scheme"
  assumes "lr_data_begin r < lr_data_end r" and "lr_data_end r \<le> 2 * block" and "lr_data_begin r < block"
    and "lr_data_end r - lr_data_begin r < block" and "lr_buffer r (lr_data_end r) = LF"
    and "\<forall>i. lr_data_begin r \<le> i \<and> i < lr_data_end r \<longrightarrow> lr_buffer r i \<noteq> LF"
  shows "\<exists>r'. next_line block r = (Ok (Some (lr_data_begin r)), r') \<and> fst (next_line block r') = Undefined"
  by (rule stale_line_feed [OF assms])

text \<open>C40: A file whose first line is empty or begins with a comma makes the trimming of the first column read the
  byte in front of the buffer.\<close>

theorem empty_first_column:
  assumes "2 \<le> block" and "ends_well block heap text" and "without_bom text = text" and "text \<noteq> []"
    and "length (getline_head LF text) < block" and "hd (columns (c_line (getline_head LF text))) = []"
  shows "csv_file_table block heap text = Undefined"
  by (rule empty_first_column_undefined [OF assms])

section \<open>Concrete files\<close>

lemmas getlines_step = getlines.simps getline_head_def getline_rest_def

theorem line_reader_lines_witness:
  "fst (read_lines 4 (line_reader_init 4 (\<lambda>_. NUL) (''ab'' @ [LF] @ ''cd'' @ [CR, LF] @ ''ef'' @ [LF] @ ''gh'' @ [LF]))) =
     Ok [''ab'', ''cd'', ''ef'', ''gh'']"
proof -
  let ?text = "''ab'' @ [LF] @ ''cd'' @ [CR, LF] @ ''ef'' @ [LF] @ ''gh'' @ [LF]"
  have l: "[''ab'', ''cd'' @ [CR], ''ef'', ''gh''] = getlines LF (without_bom ?text)"
    by (simp add: getlines_step without_bom_def BOM_def)
  have e: "ends_well 4 (\<lambda>_. NUL) ?text" by (simp add: ends_well_def)
  have two: "2 \<le> (4::nat)" by simp
  have short: "\<forall>l \<in> set [''ab'', ''cd'' @ [CR], ''ef'', ''gh'']. length l < 4" by simp
  show ?thesis
    unfolding line_reader_lines [OF two e l] if_P [OF short] by (simp add: c_line_def)
qed

theorem csv_file_table_spec_witness:
  "csv_file_table block_len (\<lambda>_. NUL) (''hash, url'' @ [CR, LF] @ ''h1 , u1'' @ [LF] @ '' ,u2'') =
     Ok \<lparr>ct_has_url = True, ct_has_dest = False, ct_has_hash = True,
       ct_rows = Ok [[''u1'', [], ''h1''], [''u2'', [], []]]\<rparr>"
proof -
  let ?text = "''hash, url'' @ [CR, LF] @ ''h1 , u1'' @ [LF] @ '' ,u2''"
  have b: "without_bom ?text = ?text" by (simp add: without_bom_def BOM_def)
  have l: "[''hash, url'' @ [CR], ''h1 , u1'', '' ,u2''] = getlines LF (without_bom ?text)"
    unfolding b by (simp add: getlines_step)
  have e: "cells ''hash, url'' = [''hash'', ''url'']" "cells ''h1 , u1'' = [''h1'', ''u1'']" "cells '' ,u2'' = [[], ''u2'']"
    by (simp_all add: cells_def trimmed_def is_trim_char_def)
  have "csv_file_table block_len (\<lambda>_. NUL) ?text = csv_spec ?text"
  proof (rule csv_file_table_spec [OF _ _ l])
    show "edges_ok block_len (length ?text - length (without_bom ?text)) [''hash, url'' @ [CR], ''h1 , u1'', '' ,u2'']"
      unfolding b by (simp add: c_line_def)
  qed (simp_all add: block_len_def ends_well_def)
  also have "\<dots> = Ok \<lparr>ct_has_url = True, ct_has_dest = False, ct_has_hash = True,
      ct_rows = Ok [[''u1'', [], ''h1''], [''u2'', [], []]]\<rparr>"
    unfolding csv_spec_def csv_lines_def l [symmetric]
    by (simp add: c_line_def e URL_ADD_CSV_FIELDS_def order_of_def index_of_def row_of_def upt_rec)
  finally show ?thesis .
qed

text \<open>Blocks of four bytes, and a file of four blocks whose last one is not full: the sixth call finds the reader past
  the end. The memory is written as the list of its bytes.\<close>

definition mem :: "string \<Rightarrow> memory" where
  "mem xs = (\<lambda>i. if i < length xs then xs ! i else NUL)"

lemma mem_at: "i < length xs \<Longrightarrow> mem xs i = xs ! i"
  by (simp add: mem_def)

lemma mem_upd: "i < length xs \<Longrightarrow> (mem xs)(i := c) = mem (xs[i := c])"
  by (auto simp: mem_def)

lemma mem_memcpy:
  assumes "d + n \<le> length xs" and "s + n \<le> length xs"
  shows "memcpy (mem xs) d s n = mem (take d xs @ take n (drop s xs) @ drop (d + n) xs)"
proof
  fix i
  have len: "length (take d xs) = d" "length (take n (drop s xs)) = n" using assms by simp_all
  consider "i < d" | "d \<le> i" "i < d + n" | "d + n \<le> i" by linarith
  then show "memcpy (mem xs) d s n i = mem (take d xs @ take n (drop s xs) @ drop (d + n) xs) i"
  proof cases
    case 2
    then have "i - d + s < length xs" "i - d < n" using assms by linarith+
    with 2 assms show ?thesis by (simp add: mem_def memcpy_def nth_append add.commute)
  next
    case 3
    then have "i - d - n + (d + n) = i" by simp
    with 3 assms show ?thesis by (auto simp: mem_def memcpy_def nth_append len add.commute not_less)
  qed (use assms in \<open>simp add: mem_def memcpy_def nth_append\<close>)
qed

lemma mem_fill:
  assumes "d + length b \<le> length xs"
  shows "fill (mem xs) d b = mem (take d xs @ b @ drop (d + length b) xs)"
proof
  fix i
  consider "i < d" | "d \<le> i" "i < d + length b" | "d + length b \<le> i" by linarith
  then show "fill (mem xs) d b i = mem (take d xs @ b @ drop (d + length b) xs) i"
    using assms by cases (auto simp: mem_def fill_def nth_append)
qed

lemmas run_line = next_line_def shift_blocks_def finish_read_def take_line_def mem_memcpy mem_fill mem_upd mem_at
  seqp_def bindp_def Let_def

definition unended_file :: "nat \<Rightarrow> line_reader" where
  "unended_file k = ((\<lambda>r. snd (next_line 4 r)) ^^ k)
     (line_reader_init 4 (mem (replicate 12 NUL)) (''abc'' @ [LF] @ ''abc'' @ [LF] @ ''abc'' @ [LF] @ ''a'' @ [LF] @ ''b''))"

lemma unended_Suc: "unended_file (Suc k) = snd (next_line 4 (unended_file k))"
  by (simp add: unended_file_def)

lemma unended_0: "unended_file 0 = \<lparr>lr_buffer = mem [CHR ''a'', CHR ''b'', CHR ''c'', LF, CHR ''a'', CHR ''b'', CHR ''c'', LF, NUL, NUL, NUL, NUL], lr_data_begin = 0, lr_data_end = 8,
    lr_file_line = 0, lr_source = [CHR ''a'', CHR ''b'', CHR ''c'', LF, CHR ''a'', LF, CHR ''b''], lr_reader = True, lr_ended = False\<rparr>"
  by (simp add: unended_file_def line_reader_init_def mem_fill mem_at numeral_eq_Suc)

lemma unended_1: "unended_file 1 = \<lparr>lr_buffer = mem [CHR ''a'', CHR ''b'', CHR ''c'', NUL, CHR ''a'', CHR ''b'', CHR ''c'', LF, NUL, NUL, NUL, NUL], lr_data_begin = 4, lr_data_end = 8,
    lr_file_line = 1, lr_source = [CHR ''a'', CHR ''b'', CHR ''c'', LF, CHR ''a'', LF, CHR ''b''], lr_reader = True, lr_ended = False\<rparr>"
proof -
  have scan: "find_line_end (mem [CHR ''a'', CHR ''b'', CHR ''c'', LF, CHR ''a'', CHR ''b'', CHR ''c'', LF, NUL, NUL, NUL, NUL]) 8 0 = 3"
    by (simp add: find_line_end.simps mem_at)
  have "unended_file 1 = snd (next_line 4 (unended_file 0))" using unended_Suc [of 0] by (simp add: eval_nat_numeral)
  then show ?thesis unfolding unended_0 by (simp add: run_line scan)
qed

lemma unended_2: "unended_file 2 = \<lparr>lr_buffer = mem [CHR ''a'', CHR ''b'', CHR ''c'', NUL, CHR ''a'', CHR ''b'', CHR ''c'', LF, CHR ''a'', CHR ''b'', CHR ''c'', LF], lr_data_begin = 4, lr_data_end = 8,
    lr_file_line = 2, lr_source = [CHR ''a'', LF, CHR ''b''], lr_reader = True, lr_ended = False\<rparr>"
proof -
  have scan: "find_line_end (mem [CHR ''a'', CHR ''b'', CHR ''c'', LF, CHR ''a'', CHR ''b'', CHR ''c'', LF, CHR ''a'', CHR ''b'', CHR ''c'', LF]) 8 0 = 3"
    by (simp add: find_line_end.simps mem_at)
  have "unended_file 2 = snd (next_line 4 (unended_file 1))" using unended_Suc [of 1] by (simp add: eval_nat_numeral)
  then show ?thesis unfolding unended_1 by (simp add: run_line scan)
qed

lemma unended_3: "unended_file 3 = \<lparr>lr_buffer = mem [CHR ''a'', CHR ''b'', CHR ''c'', NUL, CHR ''a'', LF, CHR ''b'', LF, CHR ''a'', LF, CHR ''b'', LF], lr_data_begin = 4, lr_data_end = 7,
    lr_file_line = 3, lr_source = [], lr_reader = True, lr_ended = False\<rparr>"
proof -
  have scan: "find_line_end (mem [CHR ''a'', CHR ''b'', CHR ''c'', LF, CHR ''a'', LF, CHR ''b'', LF, CHR ''a'', LF, CHR ''b'', LF]) 7 0 = 3"
    by (simp add: find_line_end.simps mem_at)
  have "unended_file 3 = snd (next_line 4 (unended_file 2))" using unended_Suc [of 2] by (simp add: eval_nat_numeral)
  then show ?thesis unfolding unended_2 by (simp add: run_line scan)
qed

lemma unended_4: "unended_file 4 = \<lparr>lr_buffer = mem [CHR ''a'', NUL, CHR ''b'', LF, CHR ''a'', LF, CHR ''b'', LF, CHR ''a'', LF, CHR ''b'', LF], lr_data_begin = 2, lr_data_end = 3,
    lr_file_line = 4, lr_source = [], lr_reader = True, lr_ended = True\<rparr>"
proof -
  have scan: "find_line_end (mem [CHR ''a'', LF, CHR ''b'', LF, CHR ''a'', LF, CHR ''b'', LF, CHR ''a'', LF, CHR ''b'', LF]) 3 0 = 1"
    by (simp add: find_line_end.simps mem_at)
  have "unended_file 4 = snd (next_line 4 (unended_file 3))" using unended_Suc [of 3] by (simp add: eval_nat_numeral)
  then show ?thesis unfolding unended_3 by (simp add: run_line scan)
qed

theorem line_feed_left_over_witness:
  "fst (next_line 4 (unended_file 4)) = Ok (Some 2) \<and> fst (next_line 4 (unended_file 5)) = Undefined"
proof -
  have "\<forall>i. 2 \<le> i \<and> i < 3 \<longrightarrow> i = (2::nat)" by auto
  then have "\<exists>r'. next_line 4 (unended_file 4) = (Ok (Some (lr_data_begin (unended_file 4))), r') \<and> fst (next_line 4 r') = Undefined"
    by (intro line_feed_left_over) (auto simp: unended_4 mem_at)
  then show ?thesis using unended_Suc [of 4] by (auto simp: unended_4)
qed

theorem empty_first_column_witness:
  "csv_file_table block_len (\<lambda>_. NUL) ('',url'' @ [LF] @ '',http://h/f'' @ [LF]) = Undefined"
  by (rule empty_first_column)
    (simp_all add: block_len_def ends_well_def without_bom_def BOM_def getline_head_def c_line_def)

end
