(* ===== verification/Csv_Threads.thy ===== *)
theory Csv_Threads
  imports Fast_Csv
begin

text \<open>
  The two threads behind \<open>LineReader\<close> (\<open>AsynchronousReader\<close> in \<open>utils/fast-cpp-csv-parser/csv.h\<close>): the client asks
  for a block and goes on with the lines it has, a worker reads it, and the client waits for it when it
  needs it. Every access is under one mutex and both wait for a condition on the shared members, so the
  steps are whole critical sections in any order the conditions allow. \<open>SynchronousReader\<close> is the same
  interface without the thread.
\<close>

section \<open>The shared members\<close>

record async_reader =
  as_source :: string
  as_memory :: memory
  as_buffer :: nat
  as_desired_byte_count :: int
  as_read_byte_count :: int
  as_termination_requested :: bool
  as_ended :: bool

definition async_init :: "memory \<Rightarrow> string \<Rightarrow> int \<Rightarrow> async_reader" where
  "async_init mem src garbage = \<lparr>as_source = src, as_memory = mem, as_buffer = 0, as_desired_byte_count = - 1,
     as_read_byte_count = garbage, as_termination_requested = False, as_ended = False\<rparr>"

definition async_start_read :: "nat \<Rightarrow> nat \<Rightarrow> async_reader \<Rightarrow> async_reader" where
  "async_start_read buffer n s =
     s\<lparr>as_buffer := buffer, as_desired_byte_count := int n, as_read_byte_count := - 1\<rparr>"

text \<open>The worker wakes up when there is something to read or when it is to end; a read that gives nothing ends it
  too.\<close>

definition worker_ready :: "async_reader \<Rightarrow> bool" where
  "worker_ready s \<longleftrightarrow> \<not> as_ended s \<and> (as_desired_byte_count s \<noteq> - 1 \<or> as_termination_requested s)"

definition worker_turn :: "async_reader \<Rightarrow> async_reader" where
  "worker_turn s =
     (if as_termination_requested s then s\<lparr>as_ended := True\<rparr>
      else let bytes = take (nat (as_desired_byte_count s)) (as_source s)
           in s\<lparr>as_memory := fill (as_memory s) (as_buffer s) bytes,
                as_source := drop (nat (as_desired_byte_count s)) (as_source s),
                as_read_byte_count := int (length bytes), as_desired_byte_count := - 1, as_ended := (bytes = [])\<rparr>)"

definition finish_ready :: "async_reader \<Rightarrow> bool" where
  "finish_ready s \<longleftrightarrow> as_read_byte_count s \<noteq> - 1"

section \<open>Without the thread\<close>

definition sync_finish_read :: "nat \<Rightarrow> nat \<Rightarrow> memory \<times> string \<Rightarrow> nat \<times> memory \<times> string" where
  "sync_finish_read buffer n st =
     (case st of (mem, src) \<Rightarrow> let bytes = take n src in (length bytes, fill mem buffer bytes, drop n src))"

section \<open>Runs\<close>

text \<open>The client starts one read at a time and waits for it before the next; the log has what it asked for and
  what it was told. The destructor asks the worker to end and joins it.\<close>

datatype client = Idle | Busy nat nat | Gone

inductive async_run :: "memory \<Rightarrow> string \<Rightarrow> async_reader \<Rightarrow> ((nat \<times> nat) \<times> nat) list \<Rightarrow> client \<Rightarrow> bool" for mem src where
  init: "async_run mem src (async_init mem src garbage) [] Idle"
| start: "async_run mem src s log Idle \<Longrightarrow> async_run mem src (async_start_read p n s) log (Busy p n)"
| work: "async_run mem src s log c \<Longrightarrow> worker_ready s \<Longrightarrow> async_run mem src (worker_turn s) log c"
| finish: "async_run mem src s log (Busy p n) \<Longrightarrow> finish_ready s \<Longrightarrow>
    async_run mem src s (log @ [((p, n), nat (as_read_byte_count s))]) Idle"
| destroy: "async_run mem src s log c \<Longrightarrow> c \<noteq> Gone \<Longrightarrow>
    async_run mem src (s\<lparr>as_termination_requested := True\<rparr>) log Gone"

fun sync_reads :: "(nat \<times> nat) list \<Rightarrow> memory \<times> string \<Rightarrow> nat list \<times> memory \<times> string" where
  "sync_reads [] st = ([], st)"
| "sync_reads ((p, n) # rs) st =
     (case sync_finish_read p n st of (k, st) \<Rightarrow> case sync_reads rs st of (ks, st) \<Rightarrow> (k # ks, st))"

lemma sync_reads_snoc:
  "sync_reads rs st = (ks, st') \<Longrightarrow> sync_finish_read p n st' = (k, st'') \<Longrightarrow> sync_reads (rs @ [(p, n)]) st = (ks @ [k], st'')"
  by (induction rs st arbitrary: ks rule: sync_reads.induct) (auto split: prod.splits)

text \<open>Before and after the read that the client waits for.\<close>

definition in_step :: "memory \<Rightarrow> string \<Rightarrow> async_reader \<Rightarrow> ((nat \<times> nat) \<times> nat) list \<Rightarrow> client \<Rightarrow> bool" where
  "in_step mem src s log c \<longleftrightarrow>
     (case c of
        Idle \<Rightarrow> as_desired_byte_count s = - 1 \<and> \<not> as_termination_requested s \<and>
          sync_reads (map fst log) (mem, src) = (map snd log, as_memory s, as_source s) \<and> (as_ended s \<longrightarrow> 0 \<in> set (map snd log))
      | Busy p n \<Rightarrow> \<not> as_termination_requested s \<and>
          (as_desired_byte_count s = int n \<and> as_buffer s = p \<and> as_read_byte_count s = - 1 \<and>
            sync_reads (map fst log) (mem, src) = (map snd log, as_memory s, as_source s) \<and> (as_ended s \<longrightarrow> 0 \<in> set (map snd log)) \<or>
           as_desired_byte_count s = - 1 \<and> 0 \<le> as_read_byte_count s \<and>
            sync_reads (map fst log @ [(p, n)]) (mem, src) = (map snd log @ [nat (as_read_byte_count s)], as_memory s, as_source s) \<and>
            (as_ended s \<longrightarrow> as_read_byte_count s = 0))
      | Gone \<Rightarrow> as_termination_requested s)"

lemma run_in_step: "async_run mem src s log c \<Longrightarrow> in_step mem src s log c"
proof (induction rule: async_run.induct)
  case (init garbage)
  then show ?case by (simp add: in_step_def async_init_def)
next
  case (start s log p n)
  then show ?case by (simp add: in_step_def async_start_read_def)
next
  case (work s log c)
  show ?case
  proof (cases c)
    case Idle
    then show ?thesis using work by (simp add: in_step_def worker_ready_def)
  next
    case (Busy p n)
    with work have w: "as_desired_byte_count s = int n" "as_buffer s = p" "\<not> as_termination_requested s"
      "sync_reads (map fst log) (mem, src) = (map snd log, as_memory s, as_source s)"
      by (auto simp: in_step_def worker_ready_def)
    have "sync_finish_read p n (as_memory s, as_source s) = (length (take n (as_source s)),
        fill (as_memory s) p (take n (as_source s)), drop n (as_source s))"
      by (simp add: sync_finish_read_def)
    from sync_reads_snoc [OF w(4) this] w(1-3) Busy show ?thesis
      by (simp add: in_step_def worker_turn_def Let_def)
  next
    case Gone
    then show ?thesis using work by (simp add: in_step_def worker_turn_def)
  qed
next
  case (finish s log p n)
  then show ?case by (auto simp: in_step_def finish_ready_def)
next
  case (destroy s log c)
  then show ?case by (simp add: in_step_def)
qed

section \<open>Property\<close>

text \<open>C12: The thread makes no difference to what is read: however its turns and those of the client fall, the bytes
  the client is told of after each read, what is then in the buffer and what is left of the file are those of
  reading without a thread. The client waits in vain only when an earlier read gave it nothing, and the
  destructor always finds the worker ended or about to end.\<close>

theorem async_reads_as_sync:
  assumes "async_run mem src s log c"
  shows "(c = Idle \<longrightarrow> sync_reads (map fst log) (mem, src) = (map snd log, as_memory s, as_source s)) \<and>
    (\<forall>p n. c = Busy p n \<longrightarrow> finish_ready s \<longrightarrow>
       sync_reads (map fst log @ [(p, n)]) (mem, src) = (map snd log @ [nat (as_read_byte_count s)], as_memory s, as_source s)) \<and>
    (\<forall>p n. c = Busy p n \<longrightarrow> \<not> finish_ready s \<longrightarrow> \<not> worker_ready s \<longrightarrow> 0 \<in> set (map snd log)) \<and>
    (c = Gone \<longrightarrow> \<not> as_ended s \<longrightarrow> worker_ready s \<and> as_ended (worker_turn s))"
  using run_in_step [OF assms]
  by (auto simp: in_step_def finish_ready_def worker_ready_def worker_turn_def)

theorem async_reads_as_sync_witness:
  "\<exists>s. async_run (\<lambda>_. NUL) ''abc'' s [((0, 2), 2)] (Busy 5 2) \<and> finish_ready s \<and>
     sync_reads [(0, 2), (5, 2)] (\<lambda>_. NUL, ''abc'') = ([2, 1], as_memory s, as_source s) \<and> as_source s = []"
proof -
  define s0 where "s0 = async_init (\<lambda>_. NUL) ''abc'' 0"
  define s where "s = worker_turn (async_start_read 5 2 (worker_turn (async_start_read 0 2 s0)))"
  note defs = s_def s0_def worker_turn_def async_start_read_def async_init_def worker_ready_def finish_ready_def
  have a: "async_run (\<lambda>_. NUL) ''abc'' (worker_turn (async_start_read 0 2 s0)) [] (Busy 0 2)"
    unfolding s0_def by (intro async_run.intros) (simp add: defs)
  have "async_run (\<lambda>_. NUL) ''abc'' (worker_turn (async_start_read 0 2 s0)) [((0, 2), 2)] Idle"
    using async_run.finish [OF a] by (simp add: defs)
  from async_run.start [OF this, of 5 2] have run: "async_run (\<lambda>_. NUL) ''abc'' s [((0, 2), 2)] (Busy 5 2)"
    unfolding s_def by (rule async_run.work) (simp add: defs)
  have r: "finish_ready s" "as_read_byte_count s = 1" "as_source s = []" by (simp_all add: defs)
  from async_reads_as_sync [OF run] r run show ?thesis by (intro exI [of _ s]) simp
qed

end
