(* ===== verification/Program_Start.thy ===== *)
theory Program_Start
  imports Curl_Multi
begin

text \<open>
  The start of the program: the check that it runs only once (\<open>src/singleton_proc.hpp\<close> and the beginning of
  \<open>src/main.cpp\<close>), and where the database is and how it is opened (\<open>src/cmnroutines.cpp\<close>,
  \<open>src/gui/mainwindow.cpp\<close>). The sockets of the system are kept as a list with the ports they are bound to;
  a port can be bound once. What the file system and LevelDB answer are fields of the state.
\<close>

section \<open>Running once\<close>

record os =
  os_sockets :: "(nat \<times> 16 word option) list"
  os_next :: nat
  os_socket_ok :: "nat \<Rightarrow> bool"

type_synonym ('z, 'a) process = "('z os_scheme, 'a) prog"

record singleton =
  sp_socket_fd :: "nat option"
  sp_rc :: int
  sp_port :: "16 word"

definition SingletonProcess :: "16 word \<Rightarrow> singleton" where
  "SingletonProcess port_zero = \<lparr>sp_socket_fd = None, sp_rc = 1, sp_port = port_zero\<rparr>"

definition sys_socket :: "('z, nat option) process" where
  "sys_socket = (\<lambda>s. let fd = os_next s
     in if os_socket_ok s fd then ret (Some fd) (s\<lparr>os_sockets := os_sockets s @ [(fd, None)], os_next := Suc fd\<rparr>)
        else ret None (s\<lparr>os_next := Suc fd\<rparr>))"

definition sys_bind :: "nat \<Rightarrow> 16 word \<Rightarrow> ('z, int) process" where
  "sys_bind fd port = (\<lambda>s.
     if Some port \<in> snd ` set (os_sockets s) then ret (- 1) s
     else ret 0 (s\<lparr>os_sockets := map (\<lambda>(f, p). if f = fd then (f, Some port) else (f, p)) (os_sockets s)\<rparr>))"

definition sys_close :: "nat \<Rightarrow> ('z, unit) process" where
  "sys_close fd = modifyp (\<lambda>s. s\<lparr>os_sockets := filter (\<lambda>(f, _). f \<noteq> fd) (os_sockets s)\<rparr>)"

text \<open>Asking again after a failed bind forgets the old socket without closing it.\<close>

definition singleton_call :: "singleton \<Rightarrow> ('z, bool \<times> singleton) process" where
  "singleton_call p =
     (if sp_socket_fd p = None \<or> sp_rc p \<noteq> 0 then
        bindp sys_socket (\<lambda>fd.
        case fd of
          None \<Rightarrow> raise (Runtime_error ''Could not create socket: '')
        | Some fd \<Rightarrow>
            bindp (sys_bind fd (sp_port p)) (\<lambda>rc.
            ret (rc = 0, p\<lparr>sp_socket_fd := Some fd, sp_rc := rc\<rparr>)))
      else ret (True, p))"

definition singleton_end :: "singleton \<Rightarrow> ('z, unit) process" where
  "singleton_end p = (case sp_socket_fd p of None \<Rightarrow> ret () | Some fd \<Rightarrow> sys_close fd)"

text \<open>The first block of \<open>main\<close>: the object lives until the end of the block. It says whether the program goes on.
  An exception of the call leaves the object without a socket.\<close>

definition main_check :: "('z, bool) process" where
  "main_check =
     catchp
       (bindp (singleton_call (SingletonProcess 37563)) (\<lambda>(alone, p).
        seqp (singleton_end p) (ret alone)))
       (\<lambda>_. ret True)"

text \<open>The program runs behind the block and holds no socket of the check any more.\<close>

section \<open>Where the database is\<close>

datatype dir_answer = Dir_created | Dir_not_created | Dir_throws

datatype lock_answer = Answer_apply | Answer_abort | Answer_cancel | Answer_other

record desk = host +
  ho_home :: string
  ho_creates :: "string \<Rightarrow> dir_answer"
  ho_opens :: "string \<Rightarrow> bool"
  ho_removes :: "string \<Rightarrow> bool"
  ho_lock_answer :: lock_answer
  ho_exit :: "int option"

type_synonym ('z, 'a) start = "('z desk_scheme, 'a) prog"

definition CFG_FILES_DIR_LINUX :: string where "CFG_FILES_DIR_LINUX = ''.fyredl''"
definition CFG_HISTORY_DB_FILE :: string where "CFG_HISTORY_DB_FILE = ''history.db''"
definition LEVELDB_CFG_LOCK_FILE_NAME :: string where "LEVELDB_CFG_LOCK_FILE_NAME = ''LOCK''"

definition is_directory :: "string \<Rightarrow> 'z host_scheme \<Rightarrow> bool" where
  "is_directory p w \<longleftrightarrow> fd_exists (h_disk w p) \<and> fd_is_directory (h_disk w p)"

definition create_directory :: "string \<Rightarrow> ('z, bool) start" where
  "create_directory p =
     bindp (getp (\<lambda>w. ho_creates w p)) (\<lambda>a.
     case a of
       Dir_created \<Rightarrow> seqp (modifyp (\<lambda>w. w\<lparr>h_disk := (h_disk w)(p := (h_disk w p)\<lparr>fd_exists := True, fd_is_directory := True\<rparr>)\<rparr>)) (ret True)
     | Dir_not_created \<Rightarrow> ret False
     | Dir_throws \<Rightarrow> raise (Runtime_error ''create_directory''))"

text \<open>An exception that leaves a \<open>noexcept\<close> function ends the program: the call does not return.\<close>

definition noexceptp :: "('s, 'a) prog \<Rightarrow> ('s, 'a) prog" where
  "noexceptp m = catchp m (\<lambda>_. hang)"

definition leveldb_location :: "string \<Rightarrow> ('z, string) start" where
  "leveldb_location dbFile =
     noexceptp
       (bindp (getp ho_home) (\<lambda>home_dir.
        bindp (getp (is_directory home_dir)) (\<lambda>home.
        if home then
          let db_dir = home_dir @ ''/'' @ CFG_FILES_DIR_LINUX
          in bindp (getp (is_directory db_dir)) (\<lambda>there.
             bindp (if there then ret True else create_directory db_dir) (\<lambda>succ_dir.
             if \<not> succ_dir then seqp (show_box (Warning ''Unable to create directory!'')) (ret [])
             else ret (db_dir @ ''/'' @ dbFile)))
        else seqp (show_box (Warning ''Unable to find home directory!'')) (ret []))))"

definition leveldb_lock_remove :: "string \<Rightarrow> ('z, unit) start" where
  "leveldb_lock_remove dbFile =
     noexceptp
       (bindp (leveldb_location dbFile) (\<lambda>db_location.
        let lock = db_location @ ''/'' @ LEVELDB_CFG_LOCK_FILE_NAME
        in bindp (getp (\<lambda>w. fd_exists (h_disk w lock) \<and> \<not> fd_is_directory (h_disk w lock))) (\<lambda>locked.
           if locked then
             bindp (getp ho_lock_answer) (\<lambda>a.
             if a = Answer_apply then
               bindp (getp (\<lambda>w. ho_removes w lock)) (\<lambda>rem_ret.
               if rem_ret then modifyp (\<lambda>w. w\<lparr>h_disk := (h_disk w)(lock := (h_disk w lock)\<lparr>fd_exists := False\<rparr>)\<rparr>)
               else seqp (show_box (Warning ''Removal of the database lock proved unsuccessful. Aborting...''))
                 (modifyp (\<lambda>w. w\<lparr>ho_exit := Some (- 1)\<rparr>)))
             else modifyp (\<lambda>w. w\<lparr>ho_exit := Some (- 1)\<rparr>))
           else ret ())))"

section \<open>Opening it\<close>

text \<open>The handle is the location, none for the null pointer. LevelDB makes the directory when there is none.\<close>

definition db_open :: "string \<Rightarrow> ('z, bool) start" where
  "db_open db_location =
     bindp (getp (\<lambda>w. ho_opens w db_location)) (\<lambda>ok.
     if ok then seqp (modifyp (\<lambda>w. w\<lparr>h_disk := (h_disk w)(db_location := (h_disk w db_location)\<lparr>fd_exists := True, fd_is_directory := True\<rparr>)\<rparr>)) (ret True)
     else ret False)"

definition openDatabase :: "string \<Rightarrow> ('z, string option) start" where
  "openDatabase dbFileName =
     (if dbFileName \<noteq> [] then
        bindp (leveldb_location dbFileName) (\<lambda>db_location.
        bindp (db_open db_location) (\<lambda>ok.
        if ok then ret (Some db_location) else raise (Runtime_error ''Unable to open/create database!'')))
      else ret None)"

definition window_openDatabase :: "string \<Rightarrow> ('z, string option) start" where
  "window_openDatabase dbFileName =
     catchp (openDatabase dbFileName)
       (\<lambda>e. if std_exception e then seqp (show_box (Warning ''Error!'')) (ret None) else raise e)"

end
