(* ===== verification/Program_Start_Properties.thy ===== *)
theory Program_Start_Properties
  imports Program_Start
begin

text \<open>
  What the start of the program guarantees. The check object keeps a second one out as long as it lives, but
  \<open>main\<close> lets it live for the check only. The database that is opened lies in the settings directory, which is there
  then; when it cannot be opened the program goes on without one.
\<close>

section \<open>Running once\<close>

definition os_ok :: "'z os_scheme \<Rightarrow> bool" where
  "os_ok s \<longleftrightarrow> distinct (map fst (os_sockets s)) \<and> (\<forall>f \<in> fst ` set (os_sockets s). f < os_next s)"

definition bound :: "16 word \<Rightarrow> 'z os_scheme \<Rightarrow> bool" where
  "bound port s \<longleftrightarrow> Some port \<in> snd ` set (os_sockets s)"

text \<open>What asking for the first time does: it makes a socket, and binds it when the port is free.\<close>

lemma singleton_first:
  fixes s :: "'z os_scheme"
  assumes "os_ok s" and "os_socket_ok s (os_next s)"
  shows "singleton_call (SingletonProcess port) s =
    (Ok (\<not> bound port s, \<lparr>sp_socket_fd = Some (os_next s), sp_rc = (if bound port s then - 1 else 0), sp_port = port\<rparr>),
     s\<lparr>os_sockets := os_sockets s @ [(os_next s, if bound port s then None else Some port)], os_next := Suc (os_next s)\<rparr>)"
proof -
  have "map (\<lambda>(f, p). if f = os_next s then (f, Some port) else (f, p)) (os_sockets s) = os_sockets s"
    using assms(1) by (intro map_idI) (auto simp: os_ok_def image_iff)
  then show ?thesis
    using assms(2) by (auto simp: singleton_call_def SingletonProcess_def sys_socket_def sys_bind_def bindp_def bound_def Let_def)
qed

lemma close_new:
  assumes "os_ok s"
  shows "filter (\<lambda>(f, _). f \<noteq> os_next s) (os_sockets s @ [(os_next s, p)]) = os_sockets s"
  using assms by (auto simp: os_ok_def intro!: filter_True)

lemma main_check_run:
  fixes s :: "'z os_scheme"
  assumes "os_ok s"
  shows "main_check s = (Ok (os_socket_ok s (os_next s) \<longrightarrow> \<not> bound 37563 s), s\<lparr>os_next := Suc (os_next s)\<rparr>)"
proof (cases "os_socket_ok s (os_next s)")
  case True
  let ?s = "s\<lparr>os_sockets := os_sockets s @ [(os_next s, if bound 37563 s then None else Some 37563)], os_next := Suc (os_next s)\<rparr> :: 'z os_scheme"
  let ?p = "\<lparr>sp_socket_fd = Some (os_next s), sp_rc = (if bound 37563 s then - 1 else 0), sp_port = 37563\<rparr>"
  have "singleton_end ?p ?s = (Ok (), s\<lparr>os_next := Suc (os_next s)\<rparr>)"
    using close_new [OF assms] by (simp add: singleton_end_def sys_close_def)
  then show ?thesis
    using singleton_first [OF assms True, of 37563] True by (simp add: main_check_def catchp_def bindp_Ok seqp_Ok)
next
  case False
  then show ?thesis
    by (simp add: main_check_def catchp_def bindp_def singleton_call_def SingletonProcess_def sys_socket_def Let_def)
qed

section \<open>The place of the database\<close>

definition settings_dir :: "'z desk_scheme \<Rightarrow> string" where
  "settings_dir w = ho_home w @ ''/'' @ CFG_FILES_DIR_LINUX"

lemma location_run:
  fixes w :: "'z desk_scheme"
  assumes "is_directory (ho_home w) w" and "is_directory (settings_dir w) w \<or> ho_creates w (settings_dir w) = Dir_created"
  shows "\<exists>w'. leveldb_location f w = (Ok (settings_dir w @ ''/'' @ f), w') \<and> is_directory (settings_dir w) w' \<and>
    ho_opens w' = ho_opens w \<and> w_boxes w' = w_boxes w"
proof (cases "is_directory (settings_dir w) w")
  case True
  then show ?thesis
    using assms(1) by (simp add: leveldb_location_def noexceptp_def catchp_def bindp_def Let_def settings_dir_def)
next
  case False
  let ?w = "w\<lparr>h_disk := (h_disk w)(settings_dir w := (h_disk w (settings_dir w))\<lparr>fd_exists := True, fd_is_directory := True\<rparr>)\<rparr> :: 'z desk_scheme"
  have "leveldb_location f w = (Ok (settings_dir w @ ''/'' @ f), ?w)"
    using assms False
    by (simp add: leveldb_location_def noexceptp_def catchp_def bindp_def seqp_def create_directory_def Let_def settings_dir_def)
  then show ?thesis by (simp add: is_directory_def)
qed

section \<open>Properties\<close>

text \<open>C32: While one check object holds the port no other object gets it, and asking it again changes nothing; but \<open>main\<close>
  ends its object with the block of the check, so the port is free again before the program runs: every further
  instance passes the check as well, when no other program has bound the port.\<close>

theorem every_instance_starts:
  fixes s :: "'z os_scheme"
  assumes "os_ok s" and "\<not> bound 37563 s" and "os_socket_ok s (os_next s)"
  shows "\<exists>p s1. singleton_call (SingletonProcess 37563) s = (Ok (True, p), s1) \<and> singleton_call p s1 = (Ok (True, p), s1) \<and>
    (os_socket_ok s1 (os_next s1) \<longrightarrow> (\<exists>q s2. singleton_call (SingletonProcess 37563) s1 = (Ok (False, q), s2))) \<and>
    (\<exists>s1. main_check s = (Ok True, s1) \<and> \<not> bound 37563 s1 \<and> (\<exists>s2. main_check s1 = (Ok True, s2)))"
proof -
  let ?p = "\<lparr>sp_socket_fd = Some (os_next s), sp_rc = 0, sp_port = 37563\<rparr>"
  let ?s1 = "s\<lparr>os_sockets := os_sockets s @ [(os_next s, Some 37563)], os_next := Suc (os_next s)\<rparr> :: 'z os_scheme"
  have first: "singleton_call (SingletonProcess 37563) s = (Ok (True, ?p), ?s1)"
    using singleton_first [OF assms(1,3), of 37563] assms(2) by simp
  have again: "singleton_call ?p ?s1 = (Ok (True, ?p), ?s1)" by (simp add: singleton_call_def)
  have "os_ok ?s1" "bound 37563 ?s1" using assms(1) by (auto simp: os_ok_def bound_def less_SucI)
  then have second: "os_socket_ok ?s1 (os_next ?s1) \<longrightarrow> (\<exists>q s2. singleton_call (SingletonProcess 37563) ?s1 = (Ok (False, q), s2))"
    using singleton_first [of ?s1 37563] by auto
  let ?t = "s\<lparr>os_next := Suc (os_next s)\<rparr> :: 'z os_scheme"
  have "os_ok ?t" "\<not> bound 37563 ?t" using assms(1,2) by (auto simp: os_ok_def bound_def less_SucI)
  then have "main_check s = (Ok True, ?t) \<and> \<not> bound 37563 ?t \<and> (\<exists>s2. main_check ?t = (Ok True, s2))"
    using main_check_run [OF assms(1)] main_check_run [of ?t] assms(2) by simp
  with first again second show ?thesis by blast
qed


section \<open>Concrete starts\<close>

definition quiet_os :: os where
  "quiet_os = \<lparr>os_sockets = [(0, Some 80)], os_next = 1, os_socket_ok = (\<lambda>_. True)\<rparr>"

theorem every_instance_starts_witness:
  "\<exists>s1 s2. main_check quiet_os = (Ok True, s1) \<and> main_check s1 = (Ok True, s2)"
  using every_instance_starts [of quiet_os] by (auto simp: quiet_os_def os_ok_def bound_def)

definition quiet_desk :: desk where
  "quiet_desk = host.extend (world.extend (fresh_world 7)
       (host.fields (\<lambda>p. \<lparr>fd_exists = (p = ''/home/u''), fd_is_directory = (p = ''/home/u''), fd_opens = True, fd_bytes = []\<rparr>) (\<lambda>_. True) NaN))
     (desk.fields ''/home/u'' (\<lambda>_. Dir_created) (\<lambda>_. True) (\<lambda>_. True) Answer_apply None)"


end
