(* ===== verification/Spec2Isabelle.thy ===== *)
theory Spec2Isabelle
  imports Transfer_Properties Window_Actions Window_Figures Window_Startup Add_Url_Properties Curl_Socket_Properties
    Torrent_Client_Properties Fast_Csv_Properties Csv_Threads Program_Start_Properties
begin

text \<open>
  FyreDL, a download manager with a Qt window (\<open>src/src\<close>): its history database, its transfers over
  libcurl, its BitTorrent session, its import of torrent files and of lists of addresses, and its main window.

  \<^bold>\<open>The parts and how they interact.\<close> The program checks that it runs alone (\<open>singleton_proc.hpp\<close>, \<open>main.cpp\<close>),
  opens its database and shows the window. The window (\<open>gui/mainwindow.cpp\<close>) shows a table of downloads
  (\<open>dl_view.cpp\<close>) and keeps a cache of what it knows of each. Everything that lasts is in a LevelDB store
  behind \<open>CmnRoutines\<close> (\<open>cmnroutines.cpp\<close>): a registry of identifiers as CSV text (read with
  \<open>csv.cpp\<close>, \<open>csv.hpp\<close>) and a value per field of each item. The dialogue (\<open>gui/addurl.cpp\<close>) reads lists of addresses
  with the CSV reader bundled under \<open>utils/fast-cpp-csv-parser\<close>, asks servers with \<open>CurlEasy\<close> (\<open>curl_easy.cpp\<close>)
  and sends new downloads to the window; the window sends start and stop signals to \<open>CurlMulti\<close>
  (\<open>curl_multi.cpp\<close>), which drives the transfers and sends statistics and ends back, and torrents to
  \<open>GkTorrentClient\<close> (\<open>torrent/client.cpp\<close>).

  \<^bold>\<open>The theories, in the order of the code.\<close>
  \<^item> \<open>Prelude\<close>: C++ string operations; programs over a state that end with a value, an exception, not at all or
    without defined behaviour; loops; the locale \<open>frame\<close> for relations that every step keeps; the locale
    \<open>codec\<close>.
  \<^item> \<open>Cxx_Numbers\<close>, \<open>Cxx_Double\<close>: \<open>atoi\<close>, \<open>atoll\<close>, \<open>to_string\<close>, and \<open>double\<close> as rationals with rounding to 53
    bits; the properties about numbers written to the database are about integers below 2 to the power 53.
  \<^item> \<open>Defaults\<close>, \<open>Enum_Conv\<close>: the structures, enumerations and constants of \<open>default_var.hpp\<close> and the
    conversions of \<open>cmnroutines.cpp\<close>.
  \<^item> \<open>Csv_Reader\<close>: \<open>GkCsvReader\<close>; its recursive reading loop against a plain specification of CSV.
  \<^item> \<open>Leveldb_Store\<close>: the store as a map with a schedule of failing calls, the interface \<open>kv_store\<close>, item
    operations, \<open>createId\<close>. The record \<open>world\<close> is the state of all of \<open>CmnRoutines\<close>.
  \<^item> \<open>Id_Registry\<close>, \<open>Curl_History\<close>, \<open>Torrent_History\<close>: the registry and the two histories. \<open>registered\<close> and
    \<open>history\<close> abstract the database to lists of entries and items, and every operation is shown to be an
    operation on these lists.
  \<^item> \<open>Download_Model\<close>: \<open>downloadModel\<close>; the interface \<open>cell_table\<close>.
  \<^item> \<open>Sizes\<close>, \<open>File_Hash\<close>, \<open>Torrent_File\<close>: numbers for display, digests and file loading, torrent files. The
    decimal exponent of a number to be printed is searched with 400 steps; \<open>decimal_exponent_double\<close> shows that
    they are enough for every positive \<open>double\<close>.
  \<^item> \<open>Contents_View\<close>: the tree of a torrent's files.
  \<^item> \<open>Curl_Easy\<close>: the header requests. \<open>Unordered_Map\<close>, \<open>Curl_Multi\<close>: the transfers. The records \<open>host\<close> and
    \<open>multi\<close> extend \<open>world\<close> with the disk and with the handles, flags and counter of \<open>CurlMulti\<close>; what libcurl, the
    network and the user do during the calls is a schedule of events by the number of the call.
  \<^item> \<open>Curl_Transfers\<close>, \<open>Transfer_Properties\<close>: the invariant \<open>multi_inv\<close> that counter, flags and handles
    agree, its preservation by all operations, and where it breaks.
  \<^item> \<open>Curl_Sockets\<close>, \<open>Curl_Socket_Properties\<close>: the callbacks of \<open>CurlMulti\<close> that hand sockets and the timer between
    libcurl and boost: the record \<open>sockets\<close> on top of \<open>multi\<close>, the steps \<open>socket_run\<close> and their invariant.
  \<^item> \<open>Torrent_Client\<close>, \<open>Torrent_Client_Properties\<close>: \<open>GkTorrentClient\<close> over a schedule of the alerts of the
    session; the two maps of the class, the resume files and the statistics sent.
  \<^item> \<open>Fast_Csv\<close>: the bundled CSV reader on its buffer of three blocks. \<open>Fast_Csv_Lines\<close>, \<open>Fast_Csv_Columns\<close>,
    \<open>Fast_Csv_Table\<close> and \<open>Fast_Csv_Properties\<close>: refinement, from the buffer to the text that is left, from the
    bytes of a line to its cells, and from the loop of the dialogue to the table \<open>csv_spec\<close>. \<open>Csv_Threads\<close>: the reader
    with its thread against the reader without.
  \<^item> \<open>Main_Window\<close>, \<open>Window_Handlers\<close>, \<open>Window_Stats\<close>, \<open>Window_Slots\<close>: the records \<open>gui\<close> (table, cache, selection,
    signals sent, labels, answers of the user) and \<open>app\<close> (dialogues, the thread) on top of \<open>multi\<close>; the handlers and
    slots, the constructor and the destructor of the window.
  \<^item> \<open>Window_Facts\<close>, \<open>Window_Samples\<close>, \<open>Window_Properties\<close>, \<open>Window_Actions\<close>, \<open>Window_Figures\<close>: what the
    handlers do to table, cache and history together. \<open>Window_Invariant\<close>, \<open>Window_Startup\<close>: the window as a system:
    the invariant of every state that events lead to, and what the constructor makes of a history.
  \<^item> \<open>Add_Url\<close>, \<open>Add_Url_Properties\<close>: the dialogue, and an import end to end, from the bytes of the list.
  \<^item> \<open>Program_Start\<close>, \<open>Program_Start_Properties\<close>: the single instance check and the opening of the database.

  \<^bold>\<open>What the groups of lemmas show.\<close> Reading CSV with \<open>GkCsvReader\<close> equals its specification on every text with
  line ends and is inverse to writing; where rows are short it does not end. The bundled reader gives the lines and
  the table of the file whatever the length of the blocks and the bytes in the buffer before. Adding, changing, deleting and reading
  items are the operations on the abstract history one expects, with the exceptions that are stated as properties:
  deleting one kind loses the other, torrents are written and read with losses. A new transfer keeps
  the books in order whatever the network answers and the user stops meanwhile; \<open>fileStream\<close> ends when the network
  reports that nothing runs. Sockets, their map and the cells of libcurl agree in every state, so that the callbacks
  never use a freed cell. The handlers of the window keep table, cache and history in step, and every event keeps the
  invariant of the window; its constructor pauses what the last run left running. The session of the BitTorrent
  client reports statistics by position and does not return. A second instance of the program starts as the
  first does, since the check gives its port back at once.

  \<^bold>\<open>How loops and failures are modelled.\<close> A loop that may not end is the least fixed point in the option monad
  (\<open>loopp\<close>), and not ending is the outcome \<open>Hang\<close>; no fuel is involved, so that a returning loop returns. An
  iterator or index past the end, a read outside a buffer and the use of a freed object are the outcome \<open>Undefined\<close>.
  Machine integers that can wrap are words (\<open>active_downloads\<close>, \<open>size_t\<close>, ports, policies); the texts of exceptions
  and messages are shortened. Only where code works on memory is there memory in the model: the buffer of the bundled
  CSV reader, and the sockets and cells of the socket callbacks.

  \<^bold>\<open>Parameters.\<close> Code outside the repository appears as an argument or a field of a library record: what
  LevelDB's calls report, libcurl's and libtorrent's answers, the digests, \<open>QUrl\<close>, \<open>QDir\<close>,
  \<open>boost::filesystem\<close> and the file system, the sockets of the system, locale-dependent texts, and the bytes that are
  in memory before it is written. The properties assume of them only what they name: \<open>healthy\<close> (the database
  answers), \<open>fair_order\<close> (a hash map is walked once over each key), mutexes that are free, a system that numbers its
  sockets freshly.

  \<^bold>\<open>Not modelled.\<close> The other vendored sources under \<open>src/utils\<close>: LevelDB, which the program uses as the map of
  \<open>Leveldb_Store\<close>, and a thread pool that is not used. In the bundled CSV reader the policies for quotes, comments
  and numbers, which the program does not instantiate. The settings and about dialogues, the
  delegate that paints progress bars, the singletons that pass signals on, the scaling of the display in \<open>main\<close>, and
  the attributes of widgets that no handler reads. A signal sent to another thread is recorded and its delivery is not
  modelled.
\<close>

end
